(* ===== verification/Prelude.thy ===== *)
theory Prelude
  imports Main "HOL-Library.Word"
begin

text \<open>
  What every component of the development shares: the machine types of the Rust code,
  results with errors as values, the character classes and string functions of the Rust
  standard library that the compiler uses, and decimal numbers as text.

  A Rust \<open>char\<close> is modelled by a HOL \<open>char\<close>, that is by the code points U+0000 to
  U+00FF; on that range the character classes below are the ones of \<open>char::is_whitespace\<close>,
  \<open>char::is_digit(10)\<close> and \<open>char::is_alphanumeric\<close>.  A Rust \<open>String\<close> is a list of
  them.  \<open>i64\<close> keeps its width; \<open>usize\<close> is a natural number (every \<open>usize\<close> the
  compiler reads from text is checked against \<open>2 ^ 64\<close> where it is read).
\<close>

named_theorems charclass "evaluation rules for the character classes"

type_synonym i64 = "64 word"
type_synonym usize = nat
type_synonym f64 = "64 word" \<comment> \<open>the IEEE 754 bit pattern of a double\<close>

subsection \<open>Results\<close>

text \<open>
  \<open>CompileError\<close> of \<open>error.rs\<close>.  A Rust panic and the exhaustion of the fuel of a
  recursive descent are the two other ways in which a stage may fail to return a value.
\<close>

record compile_error =
  ce_code :: string
  ce_filename :: string
  ce_line :: nat

datatype fail = CErr compile_error | Panicked string | NoFuel

definition compile_error_new :: "string \<Rightarrow> string \<Rightarrow> nat \<Rightarrow> compile_error" where
  "compile_error_new code filename line =
     \<lparr>ce_code = code, ce_filename = filename, ce_line = line\<rparr>"

text \<open>Rust's \<open>?\<close>: go on with the value, or return the error.\<close>

definition rbind :: "'e + 'a \<Rightarrow> ('a \<Rightarrow> 'e + 'b) \<Rightarrow> 'e + 'b" where
  "rbind r k = (case r of Inl e \<Rightarrow> Inl e | Inr x \<Rightarrow> k x)"

lemma rbind_simps [simp]:
  "rbind (Inl e) k = Inl e"
  "rbind (Inr x) k = k x"
  by (simp_all add: rbind_def)

lemma rbind_Inr_iff: "rbind r k = Inr y \<longleftrightarrow> (\<exists>x. r = Inr x \<and> k x = Inr y)"
  by (cases r) simp_all

lemma rbind_Inl_iff: "rbind r k = Inl e \<longleftrightarrow> r = Inl e \<or> (\<exists>x. r = Inr x \<and> k x = Inl e)"
  by (cases r) auto

lemma rbind_assoc: "rbind (rbind r f) g = rbind r (\<lambda>x. rbind (f x) g)"
  by (cases r) simp_all

lemma rbind_cong [fundef_cong]:
  "r = r' \<Longrightarrow> (\<And>x. r' = Inr x \<Longrightarrow> k x = k' x) \<Longrightarrow> rbind r k = rbind r' k'"
  by (cases r') auto

subsection \<open>Sizes\<close>

lemma size_member: "x \<in> set xs \<Longrightarrow> size x \<le> size_list size xs"
  by (induction xs) auto

subsection \<open>Character classes\<close>

definition is_whitespace :: "char \<Rightarrow> bool" where
  "is_whitespace c = (let n = of_char c :: int in (9 \<le> n \<and> n \<le> 13) \<or> n = 32 \<or> n = 133 \<or> n = 160)"

definition is_digit :: "char \<Rightarrow> bool" where
  "is_digit c = (let n = of_char c :: int in 48 \<le> n \<and> n \<le> 57)"

definition is_ascii_letter :: "char \<Rightarrow> bool" where
  "is_ascii_letter c = (let n = of_char c :: int in (65 \<le> n \<and> n \<le> 90) \<or> (97 \<le> n \<and> n \<le> 122))"

text \<open>
  \<open>char::is_alphanumeric\<close> on Latin-1: the letters, the digits, and the superscript and
  fraction characters, which Unicode counts as numeric.
\<close>

definition is_alphanumeric :: "char \<Rightarrow> bool" where
  "is_alphanumeric c = (is_ascii_letter c \<or> is_digit c \<or>
     (let n = of_char c :: int in
        n = 170 \<or> n = 178 \<or> n = 179 \<or> n = 181 \<or> n = 185 \<or> n = 186 \<or>
        (188 \<le> n \<and> n \<le> 190) \<or> (192 \<le> n \<and> n \<noteq> 215 \<and> n \<noteq> 247)))"

definition is_ident_char :: "char \<Rightarrow> bool" where
  "is_ident_char c = (is_alphanumeric c \<or> c = CHR ''_'')"

lemma digit_ident [simp]: "is_digit c \<Longrightarrow> is_ident_char c"
  by (simp add: is_ident_char_def is_alphanumeric_def)

lemma whitespace_not_ident [simp]: "is_whitespace c \<Longrightarrow> \<not> is_ident_char c"
  by (cases "c = CHR ''_''")
     (auto simp: is_whitespace_def is_ident_char_def is_alphanumeric_def is_ascii_letter_def
        is_digit_def Let_def)

lemma whitespace_not_digit [simp]: "is_whitespace c \<Longrightarrow> \<not> is_digit c"
  using whitespace_not_ident digit_ident by blast

lemmas charclass_defs = is_whitespace_def is_digit_def is_ascii_letter_def is_alphanumeric_def
  is_ident_char_def Let_def

subsection \<open>Strings\<close>

abbreviation newline :: char where "newline \<equiv> CHR 0x0A"
abbreviation space :: char where "space \<equiv> CHR '' ''"
abbreviation quote :: char where "quote \<equiv> CHR 0x22"
abbreviation apostrophe :: char where "apostrophe \<equiv> CHR 0x27"
abbreviation backslash :: char where "backslash \<equiv> CHR 0x5C"
abbreviation tab :: char where "tab \<equiv> CHR 0x09"
abbreviation carriage_return :: char where "carriage_return \<equiv> CHR 0x0D"

definition starts_with :: "string \<Rightarrow> string \<Rightarrow> bool" where
  "starts_with s p = (take (length p) s = p)"

definition ends_with :: "string \<Rightarrow> string \<Rightarrow> bool" where
  "ends_with s p = starts_with (rev s) (rev p)"

text \<open>\<open>str::split(c)\<close>: the pieces between the separators, empty ones included.\<close>

fun split_on :: "char \<Rightarrow> string \<Rightarrow> string list" where
  "split_on c [] = [[]]"
| "split_on c (x # xs) =
     (if x = c then [] # split_on c xs
      else (case split_on c xs of [] \<Rightarrow> [[x]] | y # ys \<Rightarrow> (x # y) # ys))"

text \<open>\<open>str::lines\<close>: split at newlines, without a last empty line and without a \<open>\r\<close>.\<close>

definition strip_cr :: "string \<Rightarrow> string" where
  "strip_cr l = (if l \<noteq> [] \<and> last l = carriage_return then butlast l else l)"

definition str_lines :: "string \<Rightarrow> string list" where
  "str_lines s = (let ps = split_on newline s in
     map strip_cr (if last ps = [] then butlast ps else ps))"

definition trim_start :: "string \<Rightarrow> string" where
  "trim_start s = dropWhile is_whitespace s"

definition trim :: "string \<Rightarrow> string" where
  "trim s = rev (trim_start (rev (trim_start s)))"

text \<open>\<open>str::split_whitespace\<close>: the maximal runs of non-whitespace.\<close>

fun words_acc :: "string \<Rightarrow> string \<Rightarrow> string list" where
  "words_acc w [] = (if w = [] then [] else [rev w])"
| "words_acc w (c # cs) =
     (if is_whitespace c then (if w = [] then words_acc [] cs else rev w # words_acc [] cs)
      else words_acc (c # w) cs)"

definition split_whitespace :: "string \<Rightarrow> string list" where
  "split_whitespace s = words_acc [] s"

text \<open>\<open>[String]::join\<close>.\<close>

fun join :: "string \<Rightarrow> string list \<Rightarrow> string" where
  "join sep [] = []"
| "join sep [x] = x"
| "join sep (x # y # ys) = x @ sep @ join sep (y # ys)"

lemma split_on_nonempty [simp]: "split_on c s \<noteq> []"
  by (induction s) (auto split: list.splits)

lemma join_split_on: "join [c] (split_on c s) = s"
proof (induction s)
  case (Cons x xs)
  then show ?case
    by (cases "split_on c xs"; cases "tl (split_on c xs)") auto
qed simp

lemma split_on_no_sep: "p \<in> set (split_on c s) \<Longrightarrow> c \<notin> set p"
  by (induction s arbitrary: p) (auto split: list.splits if_splits)

lemma starts_with_iff: "starts_with s p \<longleftrightarrow> (\<exists>t. s = p @ t)"
  by (auto simp: starts_with_def) (metis append_take_drop_id)

lemma ends_with_iff: "ends_with s p \<longleftrightarrow> (\<exists>t. s = t @ p)"
  unfolding ends_with_def starts_with_iff
  by (metis rev_append rev_rev_ident)

subsection \<open>Decimal numbers\<close>

text \<open>Over \<open>int\<close>, which computes in binary.\<close>

definition digit_char :: "int \<Rightarrow> char" where
  "digit_char d = char_of (48 + d)"

definition digit_val :: "char \<Rightarrow> int" where
  "digit_val c = of_char c - 48"

function show_dec :: "int \<Rightarrow> string" where
  "show_dec n = (if n < 10 then [digit_char n] else show_dec (n div 10) @ [digit_char (n mod 10)])"
  by pat_completeness auto
termination by (relation "measure nat") auto

declare show_dec.simps [simp del]

definition read_dec :: "string \<Rightarrow> int" where
  "read_dec s = foldl (\<lambda>n c. 10 * n + digit_val c) 0 s"

lemma digit_char_props [simp]:
  assumes "0 \<le> d" "d < 10"
  shows "is_digit (digit_char d)" "digit_val (digit_char d) = d"
proof -
  have "d = 0 \<or> d = 1 \<or> d = 2 \<or> d = 3 \<or> d = 4 \<or> d = 5 \<or> d = 6 \<or> d = 7 \<or> d = 8 \<or> d = 9"
    using assms by presburger
  then show "is_digit (digit_char d)" "digit_val (digit_char d) = d"
    by (auto simp: is_digit_def digit_char_def digit_val_def Let_def)
qed

lemma show_dec_nonempty [simp]: "show_dec n \<noteq> []"
  by (subst show_dec.simps) simp

lemma show_dec_digits: "0 \<le> n \<Longrightarrow> list_all is_digit (show_dec n)"
proof (induction n rule: show_dec.induct)
  case (1 n)
  then show ?case by (cases "n < 10") (simp_all add: show_dec.simps[of n])
qed

lemma read_show_dec [simp]: "0 \<le> n \<Longrightarrow> read_dec (show_dec n) = n"
proof (induction n rule: show_dec.induct)
  case (1 n)
  show ?case
  proof (cases "n < 10")
    case True
    with "1.prems" show ?thesis by (simp add: show_dec.simps[of n] read_dec_def)
  next
    case False
    with 1 have "foldl (\<lambda>n c. 10 * n + digit_val c) 0 (show_dec (n div 10)) = n div 10"
      by (simp add: read_dec_def)
    with False show ?thesis by (simp add: show_dec.simps[of n] read_dec_def)
  qed
qed

text \<open>\<open>{}\<close> of a \<open>usize\<close> and of an \<open>i64\<close>.\<close>

definition show_nat :: "nat \<Rightarrow> string" where
  "show_nat n = show_dec (int n)"

definition show_i64 :: "i64 \<Rightarrow> string" where
  "show_i64 w = (if sint w < 0 then CHR ''-'' # show_dec (- sint w) else show_dec (sint w))"

text \<open>
  \<open>str::parse\<close> on a string of digits: the number, or the error \<open>None\<close> when the string is
  empty or the number does not fit the type.
\<close>

definition parse_bounded :: "int \<Rightarrow> string \<Rightarrow> int option" where
  "parse_bounded bound s =
     (if s \<noteq> [] \<and> list_all is_digit s \<and> read_dec s < bound then Some (read_dec s) else None)"

definition parse_usize :: "string \<Rightarrow> usize option" where
  "parse_usize s = map_option nat (parse_bounded (2 ^ 64)
     (case s of c # cs \<Rightarrow> if c = CHR ''+'' then cs else s | [] \<Rightarrow> []))"

lemma parse_bounded_show_dec:
  "0 \<le> n \<Longrightarrow> n < bound \<Longrightarrow> parse_bounded bound (show_dec n) = Some n"
  by (simp add: parse_bounded_def show_dec_digits)

lemma parse_usize_show_nat:
  assumes "n < 2 ^ 64" shows "parse_usize (show_nat n) = Some n"
proof -
  have n: "int n < 2 ^ 64" using assms by (metis of_nat_less_iff of_nat_numeral of_nat_power)
  obtain c cs where s: "show_dec (int n) = c # cs" by (cases "show_dec (int n)") auto
  with show_dec_digits[of "int n"] have "is_digit c" by simp
  then have "c \<noteq> CHR ''+''" by (auto simp: is_digit_def)
  with s n parse_bounded_show_dec[of "int n" "2 ^ 64"] show ?thesis
    by (simp add: parse_usize_def show_nat_def)
qed

text \<open>\<open>{:x}\<close>.\<close>

definition hex_char :: "nat \<Rightarrow> char" where
  "hex_char d = (if d < 10 then char_of (48 + d) else char_of (87 + d))"

fun show_hex :: "nat \<Rightarrow> string" where
  "show_hex n = (if n < 16 then [hex_char n] else show_hex (n div 16) @ [hex_char (n mod 16)])"

declare show_hex.simps [simp del]

end
