(* ===== verification/Syntax.thy ===== *)
theory Syntax
  imports Prelude
begin

text \<open>
  The tokens of the language (\<open>lexer/mod.rs\<close>) and its abstract syntax (\<open>ast/mod.rs\<close>),
  constructor by constructor; and the three \<open>f64\<close> operations of the standard library that
  the front end uses, as one record, since their decimal-to-binary rounding is not code of
  this program.
\<close>

datatype (plugins only: code size) token =
    TApply usize | TAdd | TSub | TMul | TDiv | TMove | TBorrow | TMutBorrow | TDefine | TShape
  | TDeBruijn usize | TQuestion | TBang | TNew | TGet | TSet | TExport | TLet | TImport
  | TEq | TLt | TGt | TDot | TBitAnd | TBitOr | TBitXor | TString string | TLen | TCat
  | TStrSub | TOtelEmit usize | TLoc | TReg | TRead | TWrite | TStr | TSplit | TPack usize
  | TMap | TFilter | TMoney | TPanic | TTrap | TTimeNow | TTimeNano | TTimeZone | TTimeGet
  | TTimeSet | TMetadata | TEnv | THttpClient | THttpServer | TFileOpen | TRouter
  | THttpHeader | TIdentifier string | TInteger i64 | TFloat f64 | TEOF

record param =
  param_name :: string
  param_expand :: bool

datatype (plugins only: code size) expr =
    Integer i64
  | Float f64
  | DeBruijn usize
  | Identifier string
  | BinaryOp token expr expr
  | Apply expr "expr list"
  | Move expr
  | Borrow expr
  | MutBorrow expr
  | Define string "param list" expr bool
  | Shape string "string list" bool
  | New string expr
  | Get expr string expr
  | Set expr string expr expr
  | If expr expr expr
  | Expand string
  | Let string expr expr
  | Import string string usize
  | String string
  | Len expr
  | Cat expr expr
  | Sub expr expr expr
  | Loc expr expr
  | Reg expr expr
  | Read expr
  | Write expr expr
  | Str expr
  | Split expr expr expr
  | TimeNow
  | TimeNano
  | TimeGet expr expr
  | TimeSet expr expr expr expr expr expr
  | Env expr
  | Seq expr expr
  | Pack expr
  | Unpack expr string
  | Metadata expr expr expr
  | OtelEmit expr expr expr expr
  | Map expr string expr
  | Filter expr expr
  | MoneyOp token expr expr
  | MoneyStr expr
  | TimeOp token expr expr
  | TimeZone
  | Panic expr
  | Trap expr expr
  | HttpClient expr expr expr
  | HttpServer expr expr
  | HttpHeader expr expr
  | FileOpen expr expr

text \<open>
  \<open>f64_parse\<close> is \<open>str::parse::<f64>\<close>, \<open>f64_show\<close> is \<open>format!("{}", x)\<close> and
  \<open>f64_money x\<close> is \<open>(x * 10000.0) as i64\<close>.
\<close>

record f64_ops =
  f64_parse :: "string \<Rightarrow> f64 option"
  f64_show :: "f64 \<Rightarrow> string"
  f64_money :: "f64 \<Rightarrow> i64"

text \<open>\<open>while let Expr::Metadata(_, _, t) = inner { inner = t; }\<close>\<close>

fun strip_metadata :: "expr \<Rightarrow> expr" where
  "strip_metadata e = (case e of Metadata tag val t \<Rightarrow> strip_metadata t | _ \<Rightarrow> e)"

declare strip_metadata.simps [simp del]

text \<open>The verifier and the dead-code elimination look through one \<open>Metadata\<close>, not through a chain.\<close>

definition unwrap_metadata :: "expr \<Rightarrow> expr" where
  "unwrap_metadata e = (case e of Metadata tag val t \<Rightarrow> t | _ \<Rightarrow> e)"

text \<open>\<open>matches!(e, Expr::Define(..))\<close>\<close>

definition is_define :: "expr \<Rightarrow> bool" where
  "is_define e = (case e of Define name params body exported \<Rightarrow> True | _ \<Rightarrow> False)"

lemma strip_metadata_simps [simp]:
  "strip_metadata (Metadata tag val t) = strip_metadata t"
  "strip_metadata (Define name params body exported) = Define name params body exported"
  by (simp_all add: strip_metadata.simps[of "Metadata _ _ _"] strip_metadata.simps[of "Define _ _ _ _"])

lemma is_define_iff: "is_define e \<longleftrightarrow> (\<exists>name params body exported. e = Define name params body exported)"
  by (cases e) (simp_all add: is_define_def)

end
