(* ===== verification/Lexer.thy ===== *)
theory Lexer
  imports Syntax
begin

text \<open>
  The lexer of \<open>lexer/mod.rs\<close>.  The Rust \<open>Lexer\<close> keeps the whole input and a
  position that only moves forward, and reads no character before it; the model keeps the
  unread suffix \<open>input[pos..]\<close> as \<open>lx_rest\<close>.  \<open>unwrap\<close> of a number that does not
  parse is the value \<open>Panicked\<close>.
\<close>

section \<open>The lexer\<close>

record lexer =
  lx_rest :: string
  lx_line :: nat
  lx_filename :: string

definition lexer_new :: "string \<Rightarrow> lexer" where
  "lexer_new input = \<lparr>lx_rest = input, lx_line = 1, lx_filename = []\<rparr>"

fun skip_ws :: "string \<Rightarrow> nat \<Rightarrow> string \<times> nat" where
  "skip_ws [] n = ([], n)"
| "skip_ws (c # cs) n =
     (if is_whitespace c then skip_ws cs (if c = newline then Suc n else n) else (c # cs, n))"

definition skip_whitespace :: "lexer \<Rightarrow> lexer" where
  "skip_whitespace lx =
     (case skip_ws (lx_rest lx) (lx_line lx) of (r, n) \<Rightarrow> lx\<lparr>lx_rest := r, lx_line := n\<rparr>)"

text \<open>The three scanning loops: digits, digits and points, identifier characters.\<close>

definition take_digits :: "lexer \<Rightarrow> string \<times> lexer" where
  "take_digits lx =
     (takeWhile is_digit (lx_rest lx), lx\<lparr>lx_rest := dropWhile is_digit (lx_rest lx)\<rparr>)"

definition lex_arity_token :: "token \<Rightarrow> lexer \<Rightarrow> token \<times> lexer" where
  "lex_arity_token deflt lx =
     (case take_digits lx of (num_str, lx') \<Rightarrow>
       if num_str = [] then (deflt, lx')
       else (let arity = (case parse_usize num_str of Some n \<Rightarrow> n | None \<Rightarrow> 1) in
         (case deflt of
            TApply _ \<Rightarrow> TApply arity
          | TPack _ \<Rightarrow> TPack arity
          | _ \<Rightarrow> deflt, lx')))"

definition is_number_char :: "char \<Rightarrow> bool" where
  "is_number_char c = (is_digit c \<or> c = CHR ''.'')"

definition parse_i64_digits :: "string \<Rightarrow> i64 option" where
  "parse_i64_digits s = map_option word_of_int (parse_bounded (2 ^ 63) s)"

definition lex_number :: "f64_ops \<Rightarrow> char \<Rightarrow> lexer \<Rightarrow> fail + (token \<times> lexer)" where
  "lex_number fo first_ch lx =
     (let num_str = first_ch # takeWhile is_number_char (lx_rest lx);
          lx' = lx\<lparr>lx_rest := dropWhile is_number_char (lx_rest lx)\<rparr> in
      if CHR ''.'' \<in> set num_str
      then (case f64_parse fo num_str of
              Some x \<Rightarrow> Inr (TFloat x, lx') | None \<Rightarrow> Inl (Panicked ''ParseFloatError''))
      else (case parse_i64_digits num_str of
              Some i \<Rightarrow> Inr (TInteger i, lx') | None \<Rightarrow> Inl (Panicked ''ParseIntError'')))"

definition keyword_table :: "(string \<times> token) list" where
  "keyword_table = [
     (''map'', TMap), (''flt'', TFilter), (''http'', THttpClient), (''srv'', THttpServer),
     (''rt'', TRouter), (''hdr'', THttpHeader), (''env'', TEnv), (''fo'', TFileOpen),
     (''jp'', TPack 1), (''ju'', TPack 2), (''oe'', TOtelEmit 4), (''sl'', TLen),
     (''sc'', TCat), (''ss'', TStrSub), (''sf'', TLoc), (''sr'', TReg), (''sp'', TSplit),
     (''tn'', TTimeNow), (''tns'', TTimeNano), (''tz'', TTimeZone), (''tg'', TTimeGet),
     (''ts'', TTimeSet), (''str'', TStr), (''gt'', TGt), (''lt'', TLt), (''xor'', TBitXor)]"

definition keyword_token :: "string \<Rightarrow> token" where
  "keyword_token s = (case map_of keyword_table s of Some t \<Rightarrow> t | None \<Rightarrow> TIdentifier s)"

definition lex_identifier :: "char \<Rightarrow> lexer \<Rightarrow> token \<times> lexer" where
  "lex_identifier first_ch lx =
     (keyword_token (first_ch # takeWhile is_ident_char (lx_rest lx)),
      lx\<lparr>lx_rest := dropWhile is_ident_char (lx_rest lx)\<rparr>)"

definition lex_trap_or_debruijn :: "lexer \<Rightarrow> token \<times> lexer" where
  "lex_trap_or_debruijn lx =
     (if lx_rest lx \<noteq> [] \<and> is_digit (hd (lx_rest lx))
      then (case take_digits lx of (num_str, lx') \<Rightarrow>
              (TDeBruijn (case parse_usize num_str of Some n \<Rightarrow> n | None \<Rightarrow> 0), lx'))
      else (TTrap, lx))"

definition unescape :: "char \<Rightarrow> char" where
  "unescape c = (if c = CHR ''n'' then newline else if c = CHR ''t'' then tab
     else if c = CHR ''r'' then carriage_return else c)"

text \<open>The string scanner: what was read, and the input from the closing quote on.\<close>

fun scan_string :: "string \<Rightarrow> string \<times> string" where
  "scan_string [] = ([], [])"
| "scan_string (c # cs) =
     (if c = quote then ([], c # cs)
      else if c = backslash then
        (case cs of
           [] \<Rightarrow> ([], [])
         | e # es \<Rightarrow> (case scan_string es of (s, r) \<Rightarrow> (unescape e # s, r)))
      else (case scan_string cs of (s, r) \<Rightarrow> (c # s, r)))"

lemma scan_string_step:
  "scan_string (quote # cs) = ([], quote # cs)"
  "scan_string [backslash] = ([], [])"
  "scan_string (backslash # e # es) =
     (unescape e # fst (scan_string es), snd (scan_string es))"
  "c \<noteq> quote \<Longrightarrow> c \<noteq> backslash \<Longrightarrow>
     scan_string (c # cs) = (c # fst (scan_string cs), snd (scan_string cs))"
  by (simp_all add: case_prod_unfold)

declare scan_string.simps(2) [simp del]

definition lex_string :: "lexer \<Rightarrow> token \<times> lexer" where
  "lex_string lx =
     (case scan_string (lx_rest lx) of (s, r) \<Rightarrow> (TString s, lx\<lparr>lx_rest := tl r\<rparr>))"

text \<open>The comment branch of \<open>lex_slash\<close>: up to the newline, and the newline.\<close>

definition skip_comment :: "lexer \<Rightarrow> lexer" where
  "skip_comment lx =
     (case dropWhile (\<lambda>c. c \<noteq> newline) (lx_rest lx) of
        [] \<Rightarrow> lx\<lparr>lx_rest := []\<rparr>
      | _ # cs \<Rightarrow> lx\<lparr>lx_rest := cs, lx_line := Suc (lx_line lx)\<rparr>)"

definition punctuation :: "(char \<times> token) list" where
  "punctuation = [
     (CHR ''+'', TAdd), (CHR ''-'', TSub), (CHR ''*'', TMul), (CHR ''>'', TMove),
     (CHR ''$'', TBorrow), (CHR ''~'', TMutBorrow), (CHR ''='', TEq), (CHR ''<'', TLt),
     (CHR ''.'', TDot), (CHR ''&'', TBitAnd), (CHR ''|'', TBitOr), (CHR '':'', TDefine),
     (CHR ''#'', TShape), (CHR ''?'', TQuestion), (CHR ''!'', TPanic), (CHR 0x60, TBang),
     (CHR ''('', TRead), (CHR '')'', TWrite), (CHR ''%'', TMoney), (CHR ''N'', TNew),
     (CHR ''G'', TGet), (CHR ''S'', TSet), (CHR ''M'', TMetadata), (CHR ''X'', TExport),
     (CHR ''L'', TLet), (CHR ''I'', TImport)]"

definition invalid_char :: "char \<Rightarrow> lexer \<Rightarrow> fail" where
  "invalid_char ch lx = CErr (compile_error_new
     (''E001: Invalid char '' @ [apostrophe, ch, apostrophe] @ '' (0x'' @ show_hex (of_char ch) @ '')'')
     (lx_filename lx) (lx_line lx))"

text \<open>\<open>next_token\<close> on a character that is not a slash.\<close>

definition lex_char :: "f64_ops \<Rightarrow> char \<Rightarrow> lexer \<Rightarrow> fail + (token \<times> lexer)" where
  "lex_char fo ch lx =
     (if ch = CHR ''@'' then Inr (lex_arity_token (TApply 1) lx)
      else case map_of punctuation ch of
        Some t \<Rightarrow> Inr (t, lx)
      | None \<Rightarrow>
          if ch = CHR ''^'' then Inr (lex_trap_or_debruijn lx)
          else if ch = quote then Inr (lex_string lx)
          else if is_digit ch then lex_number fo ch lx
          else if is_ascii_letter ch \<or> ch = CHR ''_'' then Inr (lex_identifier ch lx)
          else Inl (invalid_char ch lx))"

lemma skip_ws_length: "length (fst (skip_ws s n)) \<le> length s"
  by (induction s n rule: skip_ws.induct) auto

lemma skip_whitespace_length [simp]: "length (lx_rest (skip_whitespace lx)) \<le> length (lx_rest lx)"
  using skip_ws_length[of "lx_rest lx" "lx_line lx"]
  by (auto simp: skip_whitespace_def split: prod.splits)

lemma skip_comment_length [simp]: "length (lx_rest (skip_comment lx)) \<le> length (lx_rest lx)"
  using length_dropWhile_le[of "\<lambda>c. c \<noteq> newline" "lx_rest lx"]
  by (auto simp: skip_comment_def split: list.splits)

function next_token :: "f64_ops \<Rightarrow> lexer \<Rightarrow> fail + (token \<times> lexer)" where
  "next_token fo lx0 =
     (let lx = skip_whitespace lx0 in
      case lx_rest lx of
        [] \<Rightarrow> Inr (TEOF, lx)
      | ch # cs \<Rightarrow>
          (let lx1 = lx\<lparr>lx_rest := cs\<rparr> in
           if ch = CHR ''/'' then
             (if cs \<noteq> [] \<and> hd cs = CHR ''/'' then next_token fo (skip_comment lx1)
              else Inr (TDiv, lx1))
           else lex_char fo ch lx1))"
  by pat_completeness auto
termination
proof (relation "measure (\<lambda>(fo, lx). length (lx_rest lx))", goal_cases)
  case (2 fo lx0 lx ch cs lx1)
  have "length (lx_rest (skip_comment lx1)) \<le> length cs"
    using skip_comment_length[of lx1] 2 by simp
  moreover have "lx_rest (skip_whitespace lx0) = ch # cs"
    using 2 by simp
  then have "Suc (length cs) \<le> length (lx_rest lx0)"
    by (metis skip_whitespace_length length_Cons)
  ultimately show ?case by simp
qed simp

declare next_token.simps [simp del]

text \<open>One unfolding of the lexer, for the proofs and for evaluation.\<close>

lemmas next_token_unfold = next_token.simps[unfolded Let_def]

subsection \<open>Progress\<close>

text \<open>
  Every token but \<open>EOF\<close> takes at least one character; this is what bounds the recursive
  descent of the parser.
\<close>

lemma length_dropWhile_le' [simp]: "length (dropWhile P xs) \<le> length xs"
  by (rule length_dropWhile_le)

lemma lex_arity_token_rest: "lex_arity_token d lx = (t, lx') \<Longrightarrow> lx' = snd (take_digits lx)"
  unfolding lex_arity_token_def Let_def by (cases "take_digits lx") (simp split: if_split_asm)

lemma lex_arity_token_length:
  "lex_arity_token d lx = (t, lx') \<Longrightarrow> length (lx_rest lx') \<le> length (lx_rest lx)"
  by (drule lex_arity_token_rest) (simp add: take_digits_def)

lemma scan_string_length: "length (snd (scan_string s)) \<le> length s"
proof (induction s rule: scan_string.induct)
  case (2 c cs)
  consider "c = quote" | "c = backslash" "cs = []" | e es where "c = backslash" "cs = e # es"
    | "c \<noteq> quote" "c \<noteq> backslash"
    by (cases cs) blast+
  then show ?case
    by cases (use 2 in \<open>auto simp: scan_string_step\<close>)
qed simp

lemma lex_string_length: "lex_string lx = (t, lx') \<Longrightarrow> length (lx_rest lx') \<le> length (lx_rest lx)"
  using scan_string_length[of "lx_rest lx"] by (auto simp: lex_string_def case_prod_unfold)

lemma lex_trap_or_debruijn_length:
  "lex_trap_or_debruijn lx = (t, lx') \<Longrightarrow> length (lx_rest lx') \<le> length (lx_rest lx)"
  by (auto simp: lex_trap_or_debruijn_def take_digits_def split: if_split_asm)

lemma lex_identifier_length:
  "lex_identifier c lx = (t, lx') \<Longrightarrow> length (lx_rest lx') \<le> length (lx_rest lx)"
  by (auto simp: lex_identifier_def)

lemma lex_number_length:
  "lex_number fo c lx = Inr (t, lx') \<Longrightarrow> length (lx_rest lx') \<le> length (lx_rest lx)"
  by (auto simp: lex_number_def Let_def split: if_split_asm option.split_asm)

lemma lex_char_length:
  "lex_char fo ch lx = Inr (t, lx') \<Longrightarrow> length (lx_rest lx') \<le> length (lx_rest lx)"
  unfolding lex_char_def
  by (auto dest: lex_arity_token_length lex_string_length lex_number_length
      lex_identifier_length lex_trap_or_debruijn_length
      split: if_split_asm option.split_asm)

lemma keyword_token_cases: "keyword_token s = t \<Longrightarrow> t \<in> snd ` set keyword_table \<union> {TIdentifier s}"
  by (auto simp: keyword_token_def split: option.split_asm dest!: map_of_SomeD intro: rev_image_eqI)

lemma lex_char_not_EOF: "lex_char fo ch lx \<noteq> Inr (TEOF, lx')"
proof
  assume "lex_char fo ch lx = Inr (TEOF, lx')"
  moreover have "TEOF \<notin> snd ` set punctuation" "TEOF \<notin> snd ` set keyword_table"
    by (simp_all add: punctuation_def keyword_table_def)
  moreover have "keyword_token s \<noteq> TEOF" for s
    using keyword_token_cases[of s TEOF] calculation by auto
  moreover have "fst (lex_arity_token (TApply 1) lx) \<noteq> TEOF"
    by (simp add: lex_arity_token_def case_prod_unfold Let_def)
  ultimately show False
    unfolding lex_char_def
    by (auto simp: lex_trap_or_debruijn_def lex_string_def lex_number_def lex_identifier_def
        case_prod_unfold Let_def dest!: map_of_SomeD intro: rev_image_eqI
        split: if_split_asm option.split_asm)
qed

text \<open>The induction rule of \<open>next_token\<close>, in terms of the result.\<close>

lemma next_token_rule [case_names eof div_op comment char]:
  assumes eof: "\<And>lx. lx_rest (skip_whitespace lx) = [] \<Longrightarrow> P lx (Inr (TEOF, skip_whitespace lx))"
    and div_op: "\<And>lx cs. lx_rest (skip_whitespace lx) = CHR ''/'' # cs \<Longrightarrow>
      P lx (Inr (TDiv, skip_whitespace lx\<lparr>lx_rest := cs\<rparr>))"
    and comment: "\<And>lx cs lx1. lx_rest (skip_whitespace lx) = CHR ''/'' # CHR ''/'' # cs \<Longrightarrow>
      lx1 = skip_comment (skip_whitespace lx\<lparr>lx_rest := CHR ''/'' # cs\<rparr>) \<Longrightarrow>
      P lx1 (next_token fo lx1) \<Longrightarrow> P lx (next_token fo lx1)"
    and char: "\<And>lx ch cs. lx_rest (skip_whitespace lx) = ch # cs \<Longrightarrow> ch \<noteq> CHR ''/'' \<Longrightarrow>
      P lx (lex_char fo ch (skip_whitespace lx\<lparr>lx_rest := cs\<rparr>))"
  shows "P lx (next_token fo lx)"
proof (induction "length (lx_rest lx)" arbitrary: lx rule: less_induct)
  case less
  show ?case
  proof (cases "lx_rest (skip_whitespace lx)")
    case Nil
    then show ?thesis using eof by (simp add: next_token_unfold[of fo lx])
  next
    case (Cons ch cs)
    show ?thesis
    proof (cases "ch = CHR ''/'' \<and> cs \<noteq> [] \<and> hd cs = CHR ''/''")
      case True
      then obtain ds where ds: "ch = CHR ''/''" "cs = CHR ''/'' # ds" by (cases cs) auto
      let ?lx1 = "skip_comment (skip_whitespace lx\<lparr>lx_rest := cs\<rparr>)"
      have "length (lx_rest ?lx1) \<le> length cs"
        using skip_comment_length[of "skip_whitespace lx\<lparr>lx_rest := cs\<rparr>"] by simp
      also have "\<dots> < length (lx_rest lx)"
        using skip_whitespace_length[of lx] Cons by (simp del: skip_whitespace_length)
      finally have "P ?lx1 (next_token fo ?lx1)" by (rule less)
      with comment[of lx ds ?lx1] have "P lx (next_token fo ?lx1)" using Cons ds by simp
      then show ?thesis using Cons ds by (simp add: next_token_unfold[of fo lx])
    next
      case False
      then show ?thesis using Cons div_op[of lx cs] char[of lx ch cs]
        by (auto simp: next_token_unfold[of fo lx])
    qed
  qed
qed

lemma skip_whitespace_rest_length:
  "lx_rest (skip_whitespace lx) = ch # cs \<Longrightarrow> length cs < length (lx_rest lx)"
  by (metis Suc_le_lessD length_Cons skip_whitespace_length)

lemma next_token_progress:
  "next_token fo lx = Inr (t, lx') \<Longrightarrow> t \<noteq> TEOF \<Longrightarrow> length (lx_rest lx') < length (lx_rest lx)"
proof (induction fo lx rule: next_token_rule)
  case (comment lx cs lx1)
  have "length (lx_rest lx1) \<le> Suc (length cs)"
    using skip_comment_length[of "skip_whitespace lx\<lparr>lx_rest := CHR ''/'' # cs\<rparr>"] comment(2) by simp
  moreover have "Suc (length cs) < length (lx_rest lx)"
    using skip_whitespace_rest_length[OF comment(1)] by simp
  ultimately show ?case using comment by simp
next
  case (char lx ch cs)
  then show ?case
    using skip_whitespace_rest_length[OF char(1)] by (fastforce dest: lex_char_length)
qed (auto dest: skip_whitespace_rest_length)

lemma next_token_EOF_rest: "next_token fo lx = Inr (TEOF, lx') \<Longrightarrow> lx_rest lx' = []"
  by (induction fo lx rule: next_token_rule) (auto simp: lex_char_not_EOF)

lemma next_token_length:
  "next_token fo lx = Inr (t, lx') \<Longrightarrow> length (lx_rest lx') \<le> length (lx_rest lx)"
  by (cases "t = TEOF") (use next_token_EOF_rest next_token_progress in fastforce)+

subsection \<open>Failures\<close>

lemma skip_whitespace_filename [simp]: "lx_filename (skip_whitespace lx) = lx_filename lx"
  by (simp add: skip_whitespace_def case_prod_unfold)

lemma skip_comment_filename [simp]: "lx_filename (skip_comment lx) = lx_filename lx"
  by (simp add: skip_comment_def split: list.split)

lemma lex_char_filename: "lex_char fo ch lx = Inr (t, lx') \<Longrightarrow> lx_filename lx' = lx_filename lx"
  unfolding lex_char_def
  by (auto simp: lex_trap_or_debruijn_def lex_string_def lex_number_def lex_identifier_def
      take_digits_def case_prod_unfold Let_def dest!: lex_arity_token_rest
      split: if_split_asm option.split_asm)

lemma next_token_filename: "next_token fo lx = Inr (t, lx') \<Longrightarrow> lx_filename lx' = lx_filename lx"
  by (induction fo lx rule: next_token_rule) (auto dest: lex_char_filename)

text \<open>
  The only error of the lexer is E001 for an invalid character; the other way to stop is the
  panic on a number literal that does not parse.
\<close>

definition lex_failure :: "lexer \<Rightarrow> fail \<Rightarrow> bool" where
  "lex_failure lx f \<longleftrightarrow>
     f = Panicked ''ParseFloatError'' \<or> f = Panicked ''ParseIntError'' \<or>
     (\<exists>ce. f = CErr ce \<and> starts_with (ce_code ce) ''E001: Invalid char '' \<and>
        ce_filename ce = lx_filename lx)"

lemma lex_char_failure: "lex_char fo ch lx = Inl f \<Longrightarrow> lex_failure lx f"
  unfolding lex_char_def
  by (auto simp: lex_failure_def lex_number_def invalid_char_def compile_error_new_def
      starts_with_def Let_def split: if_split_asm option.split_asm)

lemma next_token_failure: "next_token fo lx = Inl f \<Longrightarrow> lex_failure lx f"
  by (induction fo lx rule: next_token_rule)
     (auto simp: lex_failure_def dest!: lex_char_failure)

end
