(* ===== verification/Display.thy ===== *)
theory Display
  imports Syntax
begin

text \<open>
  The pretty printer of \<open>ast/display.rs\<close>: \<open>PrettyExpr { expr, depth }\<close> is the
  function \<open>pretty\<close> of the expression and the depth, \<open>fmt\<close> writes the string it
  returns.
\<close>

section \<open>The pretty printer\<close>

definition indent :: "nat \<Rightarrow> string" where
  "indent depth = concat (replicate depth ''    '')"

definition format_token :: "token \<Rightarrow> string" where
  "format_token t =
     (if t = TAdd then ''+'' else if t = TSub then ''-'' else if t = TMul then ''*''
      else if t = TDiv then ''/'' else if t = TEq then ''='' else if t = TLt then ''<''
      else if t = TGt then ''gt'' else if t = TBitAnd then ''&'' else if t = TBitOr then ''|''
      else if t = TBitXor then ''xor'' else ''???'')"

definition escape_char :: "char \<Rightarrow> string" where
  "escape_char c =
     (if c = backslash then [backslash, backslash]
      else if c = quote then [backslash, quote]
      else if c = newline then [backslash, CHR ''n'']
      else if c = tab then [backslash, CHR ''t'']
      else if c = carriage_return then [backslash, CHR ''r'']
      else [c])"

definition escape_string :: "string \<Rightarrow> string" where
  "escape_string s = concat (map escape_char s)"

definition show_float :: "f64_ops \<Rightarrow> f64 \<Rightarrow> string" where
  "show_float fo x = (let s = f64_show fo x in if CHR ''.'' \<in> set s then s else s @ ''.0'')"

definition show_param :: "param \<Rightarrow> string" where
  "show_param p =
     (if param_expand p then '' '' @ param_name p @ [CHR 0x60] else '' '' @ param_name p)"

definition show_export :: "bool \<Rightarrow> string" where
  "show_export exported = (if exported then ''X '' else [])"

definition quoted :: "string \<Rightarrow> string" where
  "quoted s = [quote] @ s @ [quote]"

text \<open>\<open>{} {} ... {}\<close> with a leading keyword.\<close>

definition spaced :: "string \<Rightarrow> string list \<Rightarrow> string" where
  "spaced kw parts = kw @ concat (map (\<lambda>s. '' '' @ s) parts)"

primrec pretty :: "f64_ops \<Rightarrow> expr \<Rightarrow> nat \<Rightarrow> string" where
  "pretty fo (Integer i) d = show_i64 i"
| "pretty fo (Float x) d = show_float fo x"
| "pretty fo (DeBruijn idx) d = ''^'' @ show_nat idx"
| "pretty fo (Identifier s) d = s"
| "pretty fo (BinaryOp tok l r) d = spaced (format_token tok) [pretty fo l d, pretty fo r d]"
| "pretty fo (Apply f args) d =
     spaced (''@'' @ show_nat (length args)) (pretty fo f d # map (\<lambda>g. g d) (map (pretty fo) args))"
| "pretty fo (Move e) d = spaced ''>'' [pretty fo e d]"
| "pretty fo (Borrow e) d = spaced ''$'' [pretty fo e d]"
| "pretty fo (MutBorrow e) d = spaced ''~'' [pretty fo e d]"
| "pretty fo (Define name params body exported) d =
     show_export exported @ '': '' @ name @ concat (map show_param params) @
     [newline] @ ''    '' @ indent d @ pretty fo body (Suc d)"
| "pretty fo (Shape name flds exported) d =
     show_export exported @ spaced ''#'' (name # flds)"
| "pretty fo (New shape cnt) d = spaced ''N'' [shape, pretty fo cnt d]"
| "pretty fo (Get inst field idx) d = spaced ''G'' [pretty fo inst d, field, pretty fo idx d]"
| "pretty fo (Set inst field idx val) d =
     spaced ''S'' [pretty fo inst d, field, pretty fo idx d, pretty fo val d]"
| "pretty fo (If c t f) d =
     ''? '' @ pretty fo c d @ [newline] @ ''    '' @ indent d @ pretty fo t (Suc d) @
     [newline] @ ''    '' @ indent d @ pretty fo f (Suc d)"
| "pretty fo (Expand name) d = CHR 0x60 # name"
| "pretty fo (Let name val body) d =
     spaced ''L'' [name, pretty fo val d] @ [newline] @ indent d @ pretty fo body d"
| "pretty fo (Import module symbol arity) d = spaced ''I'' [module, symbol]"
| "pretty fo (String s) d = quoted (escape_string s)"
| "pretty fo (Len e) d = spaced ''sl'' [pretty fo e d]"
| "pretty fo (Cat l r) d = spaced ''sc'' [pretty fo l d, pretty fo r d]"
| "pretty fo (Sub s st len) d = spaced ''ss'' [pretty fo s d, pretty fo st d, pretty fo len d]"
| "pretty fo (Loc s pat) d = spaced ''sf'' [pretty fo s d, pretty fo pat d]"
| "pretty fo (Reg s pat) d = spaced ''sr'' [pretty fo s d, pretty fo pat d]"
| "pretty fo (Read h) d = spaced ''('' [pretty fo h d]"
| "pretty fo (Write h s) d = spaced '')'' [pretty fo h d, pretty fo s d]"
| "pretty fo (Str e) d = spaced ''str'' [pretty fo e d]"
| "pretty fo (Split s dl i) d = spaced ''sp'' [pretty fo s d, pretty fo dl d, pretty fo i d]"
| "pretty fo TimeNow d = ''tn''"
| "pretty fo TimeNano d = ''tns''"
| "pretty fo (TimeGet t i) d = spaced ''tg'' [pretty fo t d, pretty fo i d]"
| "pretty fo (TimeSet y m dy h mn s) d =
     spaced ''ts'' [pretty fo y d, pretty fo m d, pretty fo dy d, pretty fo h d,
       pretty fo mn d, pretty fo s d]"
| "pretty fo (Env k) d = spaced ''env'' [pretty fo k d]"
| "pretty fo (Seq l r) d =
     spaced ''.'' [pretty fo l d] @ [newline] @ indent d @ pretty fo r d"
| "pretty fo (Pack e) d = spaced ''jp'' [pretty fo e d]"
| "pretty fo (Unpack e shape) d = spaced ''ju'' [pretty fo e d, quoted shape]"
| "pretty fo (Metadata tag val t) d = spaced ''M'' [pretty fo tag d, pretty fo val d, pretty fo t d]"
| "pretty fo (OtelEmit t a1 a2 a3) d =
     spaced ''oe'' [pretty fo t d, pretty fo a1 d, pretty fo a2 d, pretty fo a3 d]"
| "pretty fo (Map inst field func) d = spaced ''map'' [pretty fo inst d, quoted field, pretty fo func d]"
| "pretty fo (Filter inst func) d = spaced ''flt'' [pretty fo inst d, pretty fo func d]"
| "pretty fo (MoneyOp tok a b) d = spaced ''%'' [format_token tok, pretty fo a d, pretty fo b d]"
| "pretty fo (MoneyStr e) d = spaced ''% str'' [pretty fo e d]"
| "pretty fo (TimeOp tok a b) d = spaced ''tn'' [format_token tok, pretty fo a d, pretty fo b d]"
| "pretty fo TimeZone d = ''tz''"
| "pretty fo (Panic e) d = spaced ''!'' [pretty fo e d]"
| "pretty fo (Trap t f) d = spaced ''^'' [pretty fo t d, pretty fo f d]"
| "pretty fo (HttpClient m u b) d = spaced ''http'' [pretty fo m d, pretty fo u d, pretty fo b d]"
| "pretty fo (HttpServer op arg) d = spaced ''srv'' [pretty fo op d, pretty fo arg d]"
| "pretty fo (HttpHeader req name) d = spaced ''hdr'' [pretty fo req d, pretty fo name d]"
| "pretty fo (FileOpen p m) d = spaced ''fo'' [pretty fo p d, pretty fo m d]"

end
