(* ===== verification/Token_Stream.thy ===== *)
theory Token_Stream
  imports Lexer Display
begin

text \<open>
  The lexer as a function from text to the list of its tokens, and which tokens the pieces
  of printed text are read back as.  This is the lexical half of the round trip between
  \<open>ast/display.rs\<close> and the parser.
\<close>

section \<open>The tokens of a text\<close>

text \<open>The outcome of a lexer step: lines and file names only matter for errors.\<close>

definition outcome :: "fail + (token \<times> lexer) \<Rightarrow> (token \<times> string) option" where
  "outcome r = (case r of Inl f \<Rightarrow> None | Inr (t, lx) \<Rightarrow> Some (t, lx_rest lx))"

lemma outcome_simps [simp]:
  "outcome (Inl f) = None"
  "outcome (Inr (t, lx)) = Some (t, lx_rest lx)"
  by (simp_all add: outcome_def)

lemma skip_ws_rest: "fst (skip_ws s n) = dropWhile is_whitespace s"
  by (induction s n rule: skip_ws.induct) auto

lemma skip_whitespace_rest: "lx_rest (skip_whitespace lx) = dropWhile is_whitespace (lx_rest lx)"
  using skip_ws_rest[of "lx_rest lx" "lx_line lx"]
  by (simp add: skip_whitespace_def case_prod_unfold)

definition after_comment :: "string \<Rightarrow> string" where
  "after_comment s = tl (dropWhile (\<lambda>c. c \<noteq> newline) s)"

lemma skip_comment_rest: "lx_rest (skip_comment lx) = after_comment (lx_rest lx)"
  by (cases "dropWhile (\<lambda>c. c \<noteq> newline) (lx_rest lx)")
     (simp_all add: skip_comment_def after_comment_def del: dropWhile_eq_Nil_conv)

lemma lexer_new_rest [simp]: "lx_rest (lexer_new cs) = cs"
  by (simp add: lexer_new_def)

text \<open>The outcome of \<open>lex_char\<close>, from the rest of the text.\<close>

definition char_outcome :: "f64_ops \<Rightarrow> char \<Rightarrow> string \<Rightarrow> (token \<times> string) option" where
  "char_outcome fo ch cs = outcome (lex_char fo ch (lexer_new cs))"

lemma outcome_parts:
  assumes "lx_rest a = lx_rest b"
  shows "outcome (Inr (lex_arity_token d a)) = outcome (Inr (lex_arity_token d b))"
    "outcome (Inr (lex_trap_or_debruijn a)) = outcome (Inr (lex_trap_or_debruijn b))"
    "outcome (Inr (lex_string a)) = outcome (Inr (lex_string b))"
    "outcome (lex_number fo ch a) = outcome (lex_number fo ch b)"
    "outcome (Inr (lex_identifier ch a)) = outcome (Inr (lex_identifier ch b))"
    "outcome (Inr (t, a)) = outcome (Inr (t, b))"
  using assms
  by (simp_all add: lex_arity_token_def take_digits_def lex_trap_or_debruijn_def lex_string_def
      lex_number_def lex_identifier_def Let_def case_prod_unfold split: option.split)

lemma outcome_lex_char: "outcome (lex_char fo ch lx) = char_outcome fo ch (lx_rest lx)"
proof -
  have r: "lx_rest lx = lx_rest (lexer_new (lx_rest lx))" by simp
  note parts = outcome_parts[OF r]
  show ?thesis
    unfolding char_outcome_def lex_char_def if_distrib[of outcome] option.case_distrib[of outcome]
      parts outcome_simps(1)
    by simp
qed

definition next_outcome :: "f64_ops \<Rightarrow> string \<Rightarrow> (token \<times> string) option" where
  "next_outcome fo cs = outcome (next_token fo (lexer_new cs))"

lemma next_token_step:
  "lx_rest (skip_whitespace lx) = ch # cs \<Longrightarrow> next_token fo lx =
     (if ch = CHR ''/'' then
        (if cs \<noteq> [] \<and> hd cs = CHR ''/''
         then next_token fo (skip_comment (skip_whitespace lx\<lparr>lx_rest := cs\<rparr>))
         else Inr (TDiv, skip_whitespace lx\<lparr>lx_rest := cs\<rparr>))
      else lex_char fo ch (skip_whitespace lx\<lparr>lx_rest := cs\<rparr>))"
  by (simp add: next_token_unfold[of fo lx])

lemma outcome_next_token: "outcome (next_token fo lx) = next_outcome fo (lx_rest lx)"
proof -
  have "outcome (next_token fo lx) = outcome (next_token fo lx')" if "lx_rest lx = lx_rest lx'" for lx lx'
    using that
  proof (induction "length (lx_rest lx)" arbitrary: lx lx' rule: less_induct)
    case less
    show ?case
    proof (cases "dropWhile is_whitespace (lx_rest lx)")
      case Nil
      then have "lx_rest (skip_whitespace lx) = []" "lx_rest (skip_whitespace lx') = []"
        using less.prems by (simp_all only: skip_whitespace_rest)
      then show ?thesis by (simp add: next_token_unfold[of fo lx] next_token_unfold[of fo lx'])
    next
      case (Cons ch cs)
      let ?a = "skip_whitespace lx\<lparr>lx_rest := cs\<rparr>" and ?b = "skip_whitespace lx'\<lparr>lx_rest := cs\<rparr>"
      have r: "lx_rest (skip_whitespace lx) = ch # cs" "lx_rest (skip_whitespace lx') = ch # cs"
        using Cons less.prems by (simp_all add: skip_whitespace_rest)
      have "length (lx_rest (skip_comment ?a)) < length (lx_rest lx)"
        using skip_comment_length[of ?a] skip_whitespace_rest_length[OF r(1)] by simp
      from less.hyps[OF this, of "skip_comment ?b"]
      have E: "outcome (next_token fo (skip_comment ?a)) = outcome (next_token fo (skip_comment ?b))"
        by (simp add: skip_comment_rest)
      show ?thesis
        unfolding next_token_step[OF r(1)] next_token_step[OF r(2)] if_distrib[of outcome]
          outcome_lex_char outcome_simps E
        by simp
    qed
  qed
  from this[of lx "lexer_new (lx_rest lx)"] show ?thesis by (simp add: next_outcome_def)
qed

lemma next_outcome_nil [simp]: "next_outcome fo [] = Some (TEOF, [])"
  by (simp add: next_outcome_def next_token_unfold lexer_new_def skip_whitespace_def)

lemma next_outcome_ws [simp]:
  assumes "is_whitespace c" shows "next_outcome fo (c # cs) = next_outcome fo cs"
proof -
  have "lx_rest (skip_whitespace (lexer_new (c # cs))) = lx_rest (skip_whitespace (lexer_new cs))"
    using assms by (simp add: skip_whitespace_rest lexer_new_def)
  then have "outcome (next_token fo (lexer_new (c # cs))) = outcome (next_token fo (lexer_new cs))"
    by (simp add: next_token_unfold[of fo "lexer_new (c # cs)"] next_token_unfold[of fo "lexer_new cs"]
        outcome_next_token outcome_lex_char skip_comment_rest split: list.split)
  then show ?thesis by (simp add: next_outcome_def)
qed

lemma next_outcome_char:
  "\<not> is_whitespace c \<Longrightarrow> c \<noteq> CHR ''/'' \<Longrightarrow> next_outcome fo (c # cs) = char_outcome fo c cs"
  by (simp add: next_outcome_def next_token_unfold[of fo "lexer_new (c # cs)"] skip_whitespace_rest
      outcome_lex_char)

lemma next_outcome_div:
  "cs = [] \<or> hd cs \<noteq> CHR ''/'' \<Longrightarrow> next_outcome fo (CHR ''/'' # cs) = Some (TDiv, cs)"
  by (auto simp: next_outcome_def next_token_unfold[of fo "lexer_new (CHR ''/'' # cs)"]
      skip_whitespace_rest is_whitespace_def Let_def)

lemma next_outcome_length:
  "next_outcome fo cs = Some (t, r) \<Longrightarrow> t \<noteq> TEOF \<Longrightarrow> length r < length cs"
  using next_token_progress[of fo "lexer_new cs" t]
  by (auto simp: next_outcome_def outcome_def lexer_new_def split: sum.split_asm)

function scan :: "f64_ops \<Rightarrow> string \<Rightarrow> token list option" where
  "scan fo cs =
     (case next_outcome fo cs of
        None \<Rightarrow> None
      | Some (t, r) \<Rightarrow> if t = TEOF then Some [] else map_option ((#) t) (scan fo r))"
  by pat_completeness auto
termination
  by (relation "measure (\<lambda>(fo, cs). length cs)") (auto dest: next_outcome_length)

declare scan.simps [simp del]

lemma scan_length: "scan fo cs = Some ts \<Longrightarrow> length ts \<le> length cs"
proof (induction fo cs arbitrary: ts rule: scan.induct)
  case (1 fo cs)
  show ?case
  proof (cases "next_outcome fo cs")
    case None
    with "1.prems" show ?thesis by (simp add: scan.simps[of fo cs])
  next
    case (Some p)
    obtain t r where p: "p = (t, r)" by (cases p)
    show ?thesis
    proof (cases "t = TEOF")
      case True
      with "1.prems" Some p show ?thesis by (simp add: scan.simps[of fo cs])
    next
      case False
      with "1.prems" Some p obtain us where "scan fo r = Some us" "ts = t # us"
        by (auto simp: scan.simps[of fo cs])
      with "1.IH"[OF Some p[symmetric] False] next_outcome_length[of fo cs t r] False Some p show ?thesis by simp
    qed
  qed
qed

text \<open>A step that reads one token.\<close>

lemma scan_next:
  "next_outcome fo cs = Some (t, r) \<Longrightarrow> t \<noteq> TEOF \<Longrightarrow> scan fo cs = map_option ((#) t) (scan fo r)"
  by (subst scan.simps) simp

lemma scan_nil [simp]: "scan fo [] = Some []"
  by (subst scan.simps) simp

lemma scan_ws [simp]: "is_whitespace c \<Longrightarrow> scan fo (c # cs) = scan fo cs"
  by (subst (1 2) scan.simps) simp

lemma scan_spaces: "list_all is_whitespace w \<Longrightarrow> scan fo (w @ cs) = scan fo cs"
  by (induction w) simp_all

section \<open>Pieces of text\<close>

text \<open>
  \<open>spells fo cs ts\<close>: in front of a separator, the text \<open>cs\<close> is read as the tokens
  \<open>ts\<close>, and it does not end in white space.  White space separates, and so does a
  backquote.
\<close>

definition solid :: "string \<Rightarrow> bool" where
  "solid cs = (cs \<noteq> [] \<and> \<not> is_whitespace (last cs))"

definition separates :: "string \<Rightarrow> bool" where
  "separates r = (r = [] \<or> is_whitespace (hd r) \<or> hd r = CHR 0x60)"

definition spells :: "f64_ops \<Rightarrow> string \<Rightarrow> token list \<Rightarrow> bool" where
  "spells fo cs ts \<longleftrightarrow> solid cs \<and> (\<forall>r. separates r \<longrightarrow> scan fo (cs @ r) = map_option ((@) ts) (scan fo r))"

definition blank :: "string \<Rightarrow> bool" where
  "blank w = (w \<noteq> [] \<and> list_all is_whitespace w)"

lemma blank_separates: "blank w \<Longrightarrow> separates (w @ r)"
  by (cases w) (auto simp: blank_def separates_def)

lemma map_option_append [simp]:
  "map_option ((@) a) (map_option ((@) b) x) = map_option ((@) (a @ b)) x"
  by (cases x) simp_all

lemma solid_append [simp]: "solid b \<Longrightarrow> solid (a @ b)" "solid b \<Longrightarrow> solid (c # b)"
  by (simp_all add: solid_def)

lemma solid_single [simp]: "solid [c] \<longleftrightarrow> \<not> is_whitespace c"
  by (simp add: solid_def)

lemma solid_ident: "list_all is_ident_char cs \<Longrightarrow> cs \<noteq> [] \<Longrightarrow> solid cs"
  unfolding solid_def list_all_iff using whitespace_not_ident last_in_set by metis

lemma whitespace_not_number [simp]: "is_whitespace c \<Longrightarrow> \<not> is_number_char c"
  by (auto simp: is_number_char_def) (simp add: is_whitespace_def Let_def)

lemma solid_number: "list_all is_number_char cs \<Longrightarrow> cs \<noteq> [] \<Longrightarrow> solid cs"
  unfolding solid_def list_all_iff using whitespace_not_number last_in_set by metis

lemma spells_blank:
  "spells fo a ta \<Longrightarrow> blank w \<Longrightarrow> spells fo b tb \<Longrightarrow> spells fo (a @ w @ b) (ta @ tb)"
  using blank_separates[of w] by (simp add: spells_def scan_spaces blank_def)

lemma blank_simps [simp]:
  "blank '' ''" "blank [newline]" "blank [space, space, space, space]"
  by (simp_all add: blank_def is_whitespace_def Let_def)

lemma spells_space: "spells fo a ta \<Longrightarrow> spells fo b tb \<Longrightarrow> spells fo (a @ space # b) (ta @ tb)"
  using spells_blank[of fo a ta "'' ''" b tb] by simp

lemma indent_ws: "list_all is_whitespace (indent d)"
  by (induction d) (simp_all add: indent_def is_whitespace_def Let_def)

text \<open>Single tokens.\<close>

lemma spells_next:
  assumes "\<And>r. separates r \<Longrightarrow> next_outcome fo (cs @ r) = Some (t, r)" "t \<noteq> TEOF" "solid cs"
  shows "spells fo cs [t]"
proof -
  have "(#) t = (@) [t]" by (simp add: fun_eq_iff)
  with assms scan_next show ?thesis by (simp add: spells_def)
qed

lemma punctuation_not_eof: "map_of punctuation c = Some t \<Longrightarrow> t \<noteq> TEOF"
proof
  assume "map_of punctuation c = Some t" "t = TEOF"
  then have "TEOF \<in> snd ` set punctuation" by (force dest: map_of_SomeD)
  then show False by (simp add: punctuation_def)
qed

lemma punctuation_char:
  assumes "map_of punctuation c = Some t"
  shows "\<not> is_whitespace c" "c \<noteq> CHR ''/''" "c \<noteq> CHR ''@''"
  using map_of_SomeD[OF assms] by (auto simp: punctuation_def is_whitespace_def Let_def)

lemma next_punctuation:
  assumes "map_of punctuation c = Some t"
  shows "next_outcome fo (c # r) = Some (t, r)"
  using punctuation_char[OF assms] assms
  by (simp add: next_outcome_char char_outcome_def lex_char_def lexer_new_def)

lemma spells_punctuation: "map_of punctuation c = Some t \<Longrightarrow> spells fo [c] [t]"
  by (rule spells_next) (simp_all add: next_punctuation punctuation_not_eof punctuation_char)

lemma spells_div: "spells fo ''/'' [TDiv]"
  by (rule spells_next)
     (auto intro!: next_outcome_div simp: separates_def is_whitespace_def Let_def)

lemma show_nat_digits: "list_all is_digit (show_nat n)" "show_nat n \<noteq> []"
  by (simp_all add: show_nat_def show_dec_digits)

lemma solid_show_nat [simp]: "solid (show_nat n)"
  using show_nat_digits[of n] digit_ident by (blast intro: solid_ident list.pred_mono_strong)

text \<open>Runs of characters of one class.\<close>

lemma run_of_chars:
  assumes "list_all P ds" "r = [] \<or> \<not> P (hd r)"
  shows "takeWhile P (ds @ r) = ds" "dropWhile P (ds @ r) = r"
proof -
  have "takeWhile P r = []" "dropWhile P r = r" using assms(2) by (cases r; simp)+
  with assms(1) show "takeWhile P (ds @ r) = ds" "dropWhile P (ds @ r) = r"
    by (simp_all add: list_all_iff)
qed

lemma separates_classes:
  assumes "separates r"
  shows "r = [] \<or> \<not> is_digit (hd r)" "r = [] \<or> \<not> is_ident_char (hd r)"
    "r = [] \<or> \<not> is_number_char (hd r)"
proof -
  have "\<not> is_digit (CHR 0x60)" "\<not> is_ident_char (CHR 0x60)" "\<not> is_number_char (CHR 0x60)"
    by (simp_all add: is_number_char_def charclass_defs)
  then show "r = [] \<or> \<not> is_digit (hd r)" "r = [] \<or> \<not> is_ident_char (hd r)"
    "r = [] \<or> \<not> is_number_char (hd r)"
    using assms by (auto simp: separates_def)
qed

lemma punctuation_keys:
  "list_all (\<lambda>(c, t). \<not> is_digit c \<and> c \<noteq> CHR ''_'') punctuation"
  by code_simp

lemma not_punctuation: "is_digit c \<or> c = CHR ''_'' \<Longrightarrow> map_of punctuation c = None"
  using punctuation_keys by (auto simp: map_of_eq_None_iff list_all_iff)

lemma digit_facts:
  assumes "is_digit c"
  shows "\<not> is_whitespace c" "c \<noteq> CHR ''/''" "c \<noteq> CHR ''@''" "c \<noteq> CHR ''^''" "c \<noteq> quote"
    "map_of punctuation c = None" "is_number_char c"
  using assms whitespace_not_digit[of c]
  by (auto simp: not_punctuation is_number_char_def) (simp_all add: is_digit_def)

lemma spells_apply:
  assumes "n < 2 ^ 64" shows "spells fo (CHR ''@'' # show_nat n) [TApply n]"
proof (rule spells_next)
  fix r assume "separates r"
  with run_of_chars[OF show_nat_digits(1) separates_classes(1)]
  show "next_outcome fo ((CHR ''@'' # show_nat n) @ r) = Some (TApply n, r)"
    by (simp add: next_outcome_char is_whitespace_def Let_def char_outcome_def lex_char_def
        lex_arity_token_def take_digits_def show_nat_digits parse_usize_show_nat[OF assms])
qed simp_all

lemma spells_debruijn:
  assumes "n < 2 ^ 64" shows "spells fo (CHR ''^'' # show_nat n) [TDeBruijn n]"
proof (rule spells_next)
  fix r assume r: "separates r"
  obtain c cs where "show_nat n = c # cs" using show_nat_digits(2)[of n] by (cases "show_nat n") auto
  then have "show_nat n @ r \<noteq> []" "is_digit (hd (show_nat n @ r))"
    using show_nat_digits(1)[of n] by simp_all
  with r run_of_chars[OF show_nat_digits(1) separates_classes(1)]
  show "next_outcome fo ((CHR ''^'' # show_nat n) @ r) = Some (TDeBruijn n, r)"
    by (simp add: next_outcome_char is_whitespace_def Let_def char_outcome_def lex_char_def
        punctuation_def lex_trap_or_debruijn_def take_digits_def parse_usize_show_nat[OF assms])
qed simp_all

lemma spells_trap: "spells fo ''^'' [TTrap]"
proof (rule spells_next)
  fix r assume "separates r"
  from separates_classes(1)[OF this] show "next_outcome fo (''^'' @ r) = Some (TTrap, r)"
    by (auto simp: next_outcome_char is_whitespace_def Let_def char_outcome_def lex_char_def
        punctuation_def lex_trap_or_debruijn_def)
qed (simp_all add: is_whitespace_def)

lemma spells_number:
  assumes "s \<noteq> []" "is_digit (hd s)" "list_all is_number_char s" "t \<noteq> TEOF"
    and t: "(if CHR ''.'' \<in> set s then map_option TFloat (f64_parse fo s)
             else map_option TInteger (parse_i64_digits s)) = Some t"
  shows "spells fo s [t]"
proof (rule spells_next)
  fix r assume r: "separates r"
  obtain c cs where s: "s = c # cs" using assms(1) by (cases s) auto
  have "takeWhile is_number_char (cs @ r) = cs" "dropWhile is_number_char (cs @ r) = r"
    using run_of_chars[of is_number_char cs r] separates_classes(3)[OF r] assms(3) s by simp_all
  then have "lex_number fo c (lexer_new (cs @ r)) = Inr (t, lexer_new r)"
    using t s by (auto simp: lex_number_def lexer_new_def Let_def split: if_split_asm)
  then show "next_outcome fo (s @ r) = Some (t, r)"
    using digit_facts[of c] assms(2) s
    by (simp add: next_outcome_char char_outcome_def lex_char_def)
qed (use assms in \<open>simp_all add: solid_number\<close>)

definition ident_ok :: "string \<Rightarrow> bool" where
  "ident_ok x =
     (x \<noteq> [] \<and> (is_ascii_letter (hd x) \<or> hd x = CHR ''_'') \<and> map_of punctuation (hd x) = None \<and>
      list_all is_ident_char (tl x))"

lemma letter_facts:
  assumes "is_ascii_letter c \<or> c = CHR ''_''"
  shows "\<not> is_whitespace c" "c \<noteq> CHR ''/''" "c \<noteq> CHR ''@''" "c \<noteq> CHR ''^''" "c \<noteq> quote" "\<not> is_digit c"
  using assms by (auto simp: charclass_defs)

lemma spells_ident:
  assumes "ident_ok x" "keyword_token x = t" "t \<noteq> TEOF"
  shows "spells fo x [t]"
proof (rule spells_next)
  fix r assume r: "separates r"
  obtain c cs where x: "x = c # cs" using assms(1) by (cases x) (auto simp: ident_ok_def)
  have c: "is_ascii_letter c \<or> c = CHR ''_''" "map_of punctuation c = None" "list_all is_ident_char cs"
    using assms(1) x by (auto simp: ident_ok_def)
  from run_of_chars[OF c(3) separates_classes(2)[OF r]] c(2) letter_facts[OF c(1)] c(1) assms(2) x
  show "next_outcome fo (x @ r) = Some (t, r)"
    by (auto simp: next_outcome_char char_outcome_def lex_char_def lex_identifier_def)
next
  show "solid x"
  proof (cases "tl x")
    case Nil
    with assms(1) letter_facts(1)[of "hd x"] show ?thesis by (cases x) (auto simp: ident_ok_def)
  next
    case (Cons c cs)
    with assms(1) solid_ident[of "tl x"] have "solid (tl x)" by (simp add: ident_ok_def)
    with Cons show ?thesis by (cases x) simp_all
  qed
qed (rule assms(3))

lemma spells_name: "ident_ok x \<Longrightarrow> map_of keyword_table x = None \<Longrightarrow> spells fo x [TIdentifier x]"
  by (rule spells_ident) (simp_all add: keyword_token_def)

lemma keyword_facts:
  "list_all (\<lambda>(k, t). ident_ok k \<and> keyword_token k = t \<and> t \<noteq> TEOF) keyword_table"
  by code_simp

lemma spells_keyword: "(k, t) \<in> set keyword_table \<Longrightarrow> spells fo k [t]"
  using keyword_facts by (auto simp: list_all_iff intro: spells_ident)

text \<open>Strings.\<close>

lemma scan_escape: "scan_string (escape_string s @ quote # r) = (s, quote # r)"
proof (induction s)
  case (Cons c s)
  then show ?case
    by (auto simp: escape_string_def escape_char_def scan_string_step unescape_def)
qed (simp add: escape_string_def scan_string_step)

definition plain_text :: "string \<Rightarrow> bool" where
  "plain_text s = (quote \<notin> set s \<and> backslash \<notin> set s)"

lemma scan_plain: "plain_text s \<Longrightarrow> scan_string (s @ quote # r) = (s, quote # r)"
  by (induction s) (auto simp: plain_text_def scan_string_step)

lemma spells_quoted:
  assumes "\<And>r. scan_string (cs @ quote # r) = (s, quote # r)"
  shows "spells fo (quoted cs) [TString s]"
  by (rule spells_next)
     (simp_all add: quoted_def next_outcome_char is_whitespace_def Let_def char_outcome_def
        lex_char_def punctuation_def lex_string_def assms solid_def)

text \<open>The backquote needs no separator after it.\<close>

lemma scan_backquote: "scan fo (CHR 0x60 # r) = map_option ((#) TBang) (scan fo r)"
  by (rule scan_next[OF next_punctuation]) (simp_all add: punctuation_def)

lemma map_option_Cons: "map_option ((#) t) x = map_option ((@) [t]) x"
  by (cases x) simp_all

lemma spells_backquote: "spells fo cs ts \<Longrightarrow> spells fo (CHR 0x60 # cs) (TBang # ts)"
  by (simp add: spells_def scan_backquote map_option_Cons)

lemma spells_mark: "spells fo cs ts \<Longrightarrow> spells fo (cs @ [CHR 0x60]) (ts @ [TBang])"
  by (simp add: spells_def scan_backquote separates_def map_option_Cons is_whitespace_def)

lemma spells_spaced:
  "spells fo kw tk \<Longrightarrow> list_all2 (spells fo) parts tss \<Longrightarrow> spells fo (spaced kw parts) (tk @ concat tss)"
proof -
  assume kw: "spells fo kw tk" and parts: "list_all2 (spells fo) parts tss"
  have "spells fo (cs @ concat (map (\<lambda>s. '' '' @ s) parts)) (ts @ concat tss)"
    if "spells fo cs ts" for cs ts
    using parts that
  proof (induction arbitrary: cs ts rule: list_all2_induct)
    case (Cons p ps t tss)
    from Cons.IH[OF spells_space[OF Cons.prems Cons.hyps(1)]] show ?case by simp
  qed simp
  with kw show ?thesis by (simp add: spaced_def)
qed

end
