(* ===== verification/Printed.thy ===== *)
theory Printed
  imports Token_Stream
begin

text \<open>
  The tokens a printed expression is read back as: \<open>toks e\<close> is the expression in the
  prefix notation of the parser, and \<open>spells_pretty\<close> shows that the lexer reads the text of
  \<open>ast/display.rs\<close> as these tokens, for every expression whose names, numbers and strings
  have a spelling.
\<close>

section \<open>The tokens of an expression\<close>

definition param_toks :: "param \<Rightarrow> token list" where
  "param_toks p = TIdentifier (param_name p) # (if param_expand p then [TBang] else [])"

definition export_toks :: "bool \<Rightarrow> token list" where
  "export_toks exported = (if exported then [TExport] else [])"

primrec toks :: "expr \<Rightarrow> token list" where
  "toks (Integer i) = [TInteger i]"
| "toks (Float x) = [TFloat x]"
| "toks (DeBruijn idx) = [TDeBruijn idx]"
| "toks (Identifier s) = [TIdentifier s]"
| "toks (BinaryOp tok l r) = tok # toks l @ toks r"
| "toks (Apply f args) = TApply (length args) # toks f @ concat (map toks args)"
| "toks (Move e) = TMove # toks e"
| "toks (Borrow e) = TBorrow # toks e"
| "toks (MutBorrow e) = TMutBorrow # toks e"
| "toks (Define name params body exported) =
     export_toks exported @ TDefine # TIdentifier name # concat (map param_toks params) @ toks body"
| "toks (Shape name flds exported) =
     export_toks exported @ TShape # TIdentifier name # map TIdentifier flds"
| "toks (New shape cnt) = TNew # TIdentifier shape # toks cnt"
| "toks (Get inst field idx) = TGet # toks inst @ TIdentifier field # toks idx"
| "toks (Set inst field idx val) = TSet # toks inst @ TIdentifier field # toks idx @ toks val"
| "toks (If c t f) = TQuestion # toks c @ toks t @ toks f"
| "toks (Expand name) = [TBang, TIdentifier name]"
| "toks (Let name val body) = TLet # TIdentifier name # toks val @ toks body"
| "toks (Import module symbol arity) = [TImport, keyword_token module, TIdentifier symbol]"
| "toks (String s) = [TString s]"
| "toks (Len e) = TLen # toks e"
| "toks (Cat l r) = TCat # toks l @ toks r"
| "toks (Sub s st len) = TStrSub # toks s @ toks st @ toks len"
| "toks (Loc s pat) = TLoc # toks s @ toks pat"
| "toks (Reg s pat) = TReg # toks s @ toks pat"
| "toks (Read h) = TRead # toks h"
| "toks (Write h s) = TWrite # toks h @ toks s"
| "toks (Str e) = TStr # toks e"
| "toks (Split s dl i) = TSplit # toks s @ toks dl @ toks i"
| "toks TimeNow = [TTimeNow]"
| "toks TimeNano = [TTimeNano]"
| "toks (TimeGet t i) = TTimeGet # toks t @ toks i"
| "toks (TimeSet y m dy h mn s) =
     TTimeSet # toks y @ toks m @ toks dy @ toks h @ toks mn @ toks s"
| "toks (Env k) = TEnv # toks k"
| "toks (Seq l r) = TDot # toks l @ toks r"
| "toks (Pack e) = TPack 1 # toks e"
| "toks (Unpack e shape) = TPack 2 # toks e @ [TString shape]"
| "toks (Metadata tag val t) = TMetadata # toks tag @ toks val @ toks t"
| "toks (OtelEmit t a1 a2 a3) = TOtelEmit 4 # toks t @ toks a1 @ toks a2 @ toks a3"
| "toks (Map inst field func) = TMap # toks inst @ TString field # toks func"
| "toks (Filter inst func) = TFilter # toks inst @ toks func"
| "toks (MoneyOp tok a b) = TMoney # tok # toks a @ toks b"
| "toks (MoneyStr e) = TMoney # TStr # toks e"
| "toks (TimeOp tok a b) = TTimeNow # tok # toks a @ toks b"
| "toks TimeZone = [TTimeZone]"
| "toks (Panic e) = TPanic # toks e"
| "toks (Trap t f) = TTrap # toks t @ toks f"
| "toks (HttpClient m u b) = THttpClient # toks m @ toks u @ toks b"
| "toks (HttpServer op arg) = THttpServer # toks op @ toks arg"
| "toks (HttpHeader req name) = THttpHeader # toks req @ toks name"
| "toks (FileOpen p m) = TFileOpen # toks p @ toks m"

section \<open>Expressions with a spelling\<close>

text \<open>
  A name is spelled when the lexer reads it as that identifier; a module name may also be the
  keyword \<open>http\<close>, which \<open>parse_import\<close> accepts.  An integer literal has no sign, and a
  float must be read back by \<open>str::parse\<close>.  The field of a \<open>map\<close> and the shape of an
  \<open>unpack\<close> are printed between quotes without escapes.
\<close>

definition name_ok :: "string \<Rightarrow> bool" where
  "name_ok x = (ident_ok x \<and> map_of keyword_table x = None)"

definition float_ok :: "f64_ops \<Rightarrow> f64 \<Rightarrow> bool" where
  "float_ok fo x = (let s = show_float fo x in
     s \<noteq> [] \<and> is_digit (hd s) \<and> list_all is_number_char s \<and> f64_parse fo s = Some x)"

definition op_ok :: "token \<Rightarrow> bool" where
  "op_ok t = (t \<in> {TAdd, TSub, TMul, TDiv, TEq, TLt, TGt, TBitAnd, TBitOr, TBitXor})"

primrec spellable :: "f64_ops \<Rightarrow> expr \<Rightarrow> bool" where
  "spellable fo (Integer i) = (0 \<le> sint i)"
| "spellable fo (Float x) = float_ok fo x"
| "spellable fo (DeBruijn idx) = (idx < 2 ^ 64)"
| "spellable fo (Identifier s) = name_ok s"
| "spellable fo (BinaryOp tok l r) = (op_ok tok \<and> spellable fo l \<and> spellable fo r)"
| "spellable fo (Apply f args) =
     (length args < 2 ^ 64 \<and> spellable fo f \<and> list_all id (map (spellable fo) args))"
| "spellable fo (Move e) = spellable fo e"
| "spellable fo (Borrow e) = spellable fo e"
| "spellable fo (MutBorrow e) = spellable fo e"
| "spellable fo (Define name params body exported) =
     (name_ok name \<and> list_all (\<lambda>p. name_ok (param_name p)) params \<and> spellable fo body)"
| "spellable fo (Shape name flds exported) = (name_ok name \<and> list_all name_ok flds)"
| "spellable fo (New shape cnt) = (name_ok shape \<and> spellable fo cnt)"
| "spellable fo (Get inst field idx) = (name_ok field \<and> spellable fo inst \<and> spellable fo idx)"
| "spellable fo (Set inst field idx val) =
     (name_ok field \<and> spellable fo inst \<and> spellable fo idx \<and> spellable fo val)"
| "spellable fo (If c t f) = (spellable fo c \<and> spellable fo t \<and> spellable fo f)"
| "spellable fo (Expand name) = name_ok name"
| "spellable fo (Let name val body) = (name_ok name \<and> spellable fo val \<and> spellable fo body)"
| "spellable fo (Import module symbol arity) =
     ((name_ok module \<or> module = ''http'') \<and> name_ok symbol)"
| "spellable fo (String s) = True"
| "spellable fo (Len e) = spellable fo e"
| "spellable fo (Cat l r) = (spellable fo l \<and> spellable fo r)"
| "spellable fo (Sub s st len) = (spellable fo s \<and> spellable fo st \<and> spellable fo len)"
| "spellable fo (Loc s pat) = (spellable fo s \<and> spellable fo pat)"
| "spellable fo (Reg s pat) = (spellable fo s \<and> spellable fo pat)"
| "spellable fo (Read h) = spellable fo h"
| "spellable fo (Write h s) = (spellable fo h \<and> spellable fo s)"
| "spellable fo (Str e) = spellable fo e"
| "spellable fo (Split s dl i) = (spellable fo s \<and> spellable fo dl \<and> spellable fo i)"
| "spellable fo TimeNow = True"
| "spellable fo TimeNano = True"
| "spellable fo (TimeGet t i) = (spellable fo t \<and> spellable fo i)"
| "spellable fo (TimeSet y m dy h mn s) =
     (spellable fo y \<and> spellable fo m \<and> spellable fo dy \<and> spellable fo h \<and>
      spellable fo mn \<and> spellable fo s)"
| "spellable fo (Env k) = spellable fo k"
| "spellable fo (Seq l r) = (spellable fo l \<and> spellable fo r)"
| "spellable fo (Pack e) = spellable fo e"
| "spellable fo (Unpack e shape) = (plain_text shape \<and> spellable fo e)"
| "spellable fo (Metadata tag val t) = (spellable fo tag \<and> spellable fo val \<and> spellable fo t)"
| "spellable fo (OtelEmit t a1 a2 a3) =
     (spellable fo t \<and> spellable fo a1 \<and> spellable fo a2 \<and> spellable fo a3)"
| "spellable fo (Map inst field func) =
     (plain_text field \<and> spellable fo inst \<and> spellable fo func)"
| "spellable fo (Filter inst func) = (spellable fo inst \<and> spellable fo func)"
| "spellable fo (MoneyOp tok a b) =
     (tok \<in> {TAdd, TSub, TMul, TDiv} \<and> spellable fo a \<and> spellable fo b)"
| "spellable fo (MoneyStr e) = spellable fo e"
| "spellable fo (TimeOp tok a b) = (tok \<in> {TAdd, TSub} \<and> spellable fo a \<and> spellable fo b)"
| "spellable fo TimeZone = True"
| "spellable fo (Panic e) = spellable fo e"
| "spellable fo (Trap t f) = (spellable fo t \<and> spellable fo f)"
| "spellable fo (HttpClient m u b) = (spellable fo m \<and> spellable fo u \<and> spellable fo b)"
| "spellable fo (HttpServer op arg) = (spellable fo op \<and> spellable fo arg)"
| "spellable fo (HttpHeader req name) = (spellable fo req \<and> spellable fo name)"
| "spellable fo (FileOpen p m) = (spellable fo p \<and> spellable fo m)"

section \<open>Printed text is read as the tokens of the expression\<close>

named_theorems spelling "which tokens a piece of printed text is read as"

lemma spells_integer [spelling]:
  assumes "0 \<le> sint i" shows "spells fo (show_i64 i) [TInteger i]"
proof (rule spells_number)
  let ?s = "show_dec (sint i)"
  have s: "show_i64 i = ?s" using assms by (simp add: show_i64_def)
  have d: "list_all is_digit ?s" "?s \<noteq> []" using assms by (simp_all add: show_dec_digits)
  then have num: "list_all is_number_char ?s" "CHR ''.'' \<notin> set ?s"
    by (auto simp: list_all_iff is_number_char_def) (auto simp: is_digit_def)
  show "show_i64 i \<noteq> []" "is_digit (hd (show_i64 i))" "list_all is_number_char (show_i64 i)"
    using d num by (simp_all add: s list_all_iff)
  have "parse_i64_digits ?s = Some i"
    using sint_lt[of i] assms parse_bounded_show_dec[of "sint i" "2 ^ 63"]
    by (simp add: parse_i64_digits_def)
  with num show "(if CHR ''.'' \<in> set (show_i64 i) then map_option TFloat (f64_parse fo (show_i64 i))
      else map_option TInteger (parse_i64_digits (show_i64 i))) = Some (TInteger i)"
    by (simp add: s)
qed simp

lemma spells_float [spelling]: "float_ok fo x \<Longrightarrow> spells fo (show_float fo x) [TFloat x]"
  by (rule spells_number) (auto simp: float_ok_def Let_def show_float_def)

lemma spells_name_ok [spelling]: "name_ok x \<Longrightarrow> spells fo x [TIdentifier x]"
  by (simp add: name_ok_def spells_name)

lemma spells_quotes [spelling]:
  "spells fo (quoted (escape_string s)) [TString s]"
  "plain_text s \<Longrightarrow> spells fo (quoted s) [TString s]"
  by (simp_all add: spells_quoted scan_escape scan_plain)

lemma spells_spaced_parts:
  assumes "spells fo kw tk"
  shows "spells fo a ta \<Longrightarrow> spells fo (spaced kw [a]) (tk @ ta)"
    "spells fo a ta \<Longrightarrow> spells fo b tb \<Longrightarrow> spells fo (spaced kw [a, b]) (tk @ ta @ tb)"
    "spells fo a ta \<Longrightarrow> spells fo b tb \<Longrightarrow> spells fo c tc \<Longrightarrow>
       spells fo (spaced kw [a, b, c]) (tk @ ta @ tb @ tc)"
    "spells fo a ta \<Longrightarrow> spells fo b tb \<Longrightarrow> spells fo c tc \<Longrightarrow> spells fo d td \<Longrightarrow>
       spells fo (spaced kw [a, b, c, d]) (tk @ ta @ tb @ tc @ td)"
    "spells fo a ta \<Longrightarrow> spells fo b tb \<Longrightarrow> spells fo c tc \<Longrightarrow> spells fo d td \<Longrightarrow>
       spells fo e te \<Longrightarrow> spells fo f tf \<Longrightarrow>
       spells fo (spaced kw [a, b, c, d, e, f]) (tk @ ta @ tb @ tc @ td @ te @ tf)"
  using spells_spaced[OF assms, of "[a]" "[ta]"] spells_spaced[OF assms, of "[a, b]" "[ta, tb]"]
    spells_spaced[OF assms, of "[a, b, c]" "[ta, tb, tc]"]
    spells_spaced[OF assms, of "[a, b, c, d]" "[ta, tb, tc, td]"]
    spells_spaced[OF assms, of "[a, b, c, d, e, f]" "[ta, tb, tc, td, te, tf]"]
  by simp_all

lemmas spells_parts = spells_spaced_parts[of _ _ "[t]" for t, unfolded append_Cons append_Nil]

lemmas spells_parts_token =
  spells_parts(2)[where ta = "[u]" for u, unfolded append_Cons append_Nil]
  spells_parts(3)[where ta = "[u]" for u, unfolded append_Cons append_Nil]
  spells_parts(3)[where tb = "[u]" for u, unfolded append_Cons append_Nil]
  spells_parts(4)[where tb = "[u]" for u, unfolded append_Cons append_Nil]

text \<open>Every operator that is one character or one keyword.\<close>

definition operator_words :: "(string \<times> token) list" where
  "operator_words = map (\<lambda>(c, t). ([c], t)) punctuation @ keyword_table"

lemma spells_word: "(w, t) \<in> set operator_words \<Longrightarrow> spells fo w [t]"
proof -
  have "distinct (map fst punctuation)" by code_simp
  then have "spells fo [c] [t]" if "(c, t) \<in> set punctuation" for c t
    using that by (simp add: spells_punctuation)
  then show "(w, t) \<in> set operator_words \<Longrightarrow> spells fo w [t]"
    by (auto simp: operator_words_def spells_keyword)
qed

lemma operator_word [simp]: "map_of operator_words w = Some t \<Longrightarrow> spells fo w [t]"
  by (blast intro: spells_word map_of_SomeD)

lemma format_token_words:
  "list_all (\<lambda>t. t = TDiv \<or> map_of operator_words (format_token t) = Some t)
     [TAdd, TSub, TMul, TDiv, TEq, TLt, TGt, TBitAnd, TBitOr, TBitXor]"
  by code_simp

lemma spells_op: "op_ok t \<Longrightarrow> spells fo (format_token t) [t]"
proof (cases "t = TDiv")
  case False
  assume "op_ok t"
  with False format_token_words show ?thesis
    by (intro operator_word) (auto simp: op_ok_def simp del: operator_word)
qed (simp add: format_token_def spells_div)

text \<open>The words of the printer.\<close>

lemma printed_words:
  "list_all (\<lambda>(w, t). map_of operator_words w = Some t) [
     (''>'', TMove), (''$'', TBorrow), (''~'', TMutBorrow), ('':'', TDefine), (''#'', TShape),
     (''N'', TNew), (''G'', TGet), (''S'', TSet), (''?'', TQuestion), (''L'', TLet),
     (''I'', TImport), (''X'', TExport), (''M'', TMetadata), (''('', TRead), ('')'', TWrite),
     (''.'', TDot), (''%'', TMoney), (''!'', TPanic), (''sl'', TLen), (''sc'', TCat),
     (''ss'', TStrSub), (''sf'', TLoc), (''sr'', TReg), (''str'', TStr), (''sp'', TSplit),
     (''tn'', TTimeNow), (''tns'', TTimeNano), (''tg'', TTimeGet), (''ts'', TTimeSet),
     (''env'', TEnv), (''jp'', TPack 1), (''ju'', TPack 2), (''oe'', TOtelEmit 4),
     (''map'', TMap), (''flt'', TFilter), (''tz'', TTimeZone), (''http'', THttpClient),
     (''srv'', THttpServer), (''hdr'', THttpHeader), (''fo'', TFileOpen)]"
  by code_simp

lemma spells_printed_words [spelling]:
  "spells fo ''>'' [TMove]"  "spells fo ''$'' [TBorrow]"  "spells fo ''~'' [TMutBorrow]"
  "spells fo '':'' [TDefine]"  "spells fo ''#'' [TShape]"  "spells fo ''N'' [TNew]"
  "spells fo ''G'' [TGet]"  "spells fo ''S'' [TSet]"  "spells fo ''?'' [TQuestion]"
  "spells fo ''L'' [TLet]"  "spells fo ''I'' [TImport]"  "spells fo ''X'' [TExport]"
  "spells fo ''M'' [TMetadata]"  "spells fo ''('' [TRead]"  "spells fo '')'' [TWrite]"
  "spells fo ''.'' [TDot]"  "spells fo ''%'' [TMoney]"  "spells fo ''!'' [TPanic]"
  "spells fo ''sl'' [TLen]"  "spells fo ''sc'' [TCat]"  "spells fo ''ss'' [TStrSub]"
  "spells fo ''sf'' [TLoc]"  "spells fo ''sr'' [TReg]"  "spells fo ''str'' [TStr]"
  "spells fo ''sp'' [TSplit]"  "spells fo ''tn'' [TTimeNow]"  "spells fo ''tns'' [TTimeNano]"
  "spells fo ''tg'' [TTimeGet]"  "spells fo ''ts'' [TTimeSet]"  "spells fo ''env'' [TEnv]"
  "spells fo ''jp'' [TPack 1]"  "spells fo ''ju'' [TPack 2]"  "spells fo ''oe'' [TOtelEmit 4]"
  "spells fo ''map'' [TMap]"  "spells fo ''flt'' [TFilter]"  "spells fo ''tz'' [TTimeZone]"
  "spells fo ''http'' [THttpClient]"  "spells fo ''srv'' [THttpServer]"  "spells fo ''hdr'' [THttpHeader]"
  "spells fo ''fo'' [TFileOpen]"
  using printed_words by (simp_all only: list.pred_inject prod.case operator_word)

text \<open>Parameter lists, exports and the lines of a block.\<close>

lemma spells_snoc_space: "spells fo a ta \<Longrightarrow> spells fo b tb \<Longrightarrow> spells fo (a @ '' '' @ b) (ta @ tb)"
  using spells_space by simp

lemma spells_param:
  assumes "name_ok (param_name p)" "spells fo cs ts"
  shows "spells fo (cs @ show_param p) (ts @ param_toks p)"
proof -
  have "spells fo (cs @ space # param_name p) (ts @ [TIdentifier (param_name p)])"
    using assms spells_space spells_name_ok by blast
  from this spells_mark[OF this] show ?thesis by (simp add: show_param_def param_toks_def)
qed

lemma spells_params:
  "list_all (\<lambda>p. name_ok (param_name p)) ps \<Longrightarrow> spells fo cs ts \<Longrightarrow>
   spells fo (cs @ concat (map show_param ps)) (ts @ concat (map param_toks ps))"
proof (induction ps arbitrary: cs ts)
  case (Cons p ps)
  then show ?case using Cons.IH[OF _ spells_param[of p fo cs ts]] by simp
qed simp

lemma spells_export:
  "spells fo b tb \<Longrightarrow> spells fo (show_export exported @ b) (export_toks exported @ tb)"
  using spells_space[OF spells_printed_words(12)] by (simp add: show_export_def export_toks_def)

lemma blank_line [simp]:
  "blank (newline # indent d)" "blank (newline # space # space # space # space # indent d)"
  using indent_ws[of d] by (simp_all add: blank_def is_whitespace_def)

lemma spells_line:
  assumes "spells fo a ta" "spells fo b tb"
  shows "spells fo (a @ newline # indent d @ b) (ta @ tb)"
    "spells fo (a @ newline # space # space # space # space # indent d @ b) (ta @ tb)"
  using spells_blank[OF assms(1) _ assms(2), of "newline # indent d"]
    spells_blank[OF assms(1) _ assms(2), of "newline # space # space # space # space # indent d"]
  by simp_all

lemma spells_field_names: "list_all name_ok fs \<Longrightarrow> list_all2 (spells fo) fs (map (\<lambda>f. [TIdentifier f]) fs)"
  by (induction fs) (simp_all add: spells_name_ok)

lemma concat_singletons: "concat (map (\<lambda>x. [f x]) xs) = map f xs"
  by (induction xs) simp_all

lemma spells_define:
  assumes "name_ok name" "list_all (\<lambda>p. name_ok (param_name p)) ps" "spells fo b tb"
  shows "spells fo (show_export ex @ '': '' @ name @ concat (map show_param ps) @
      [newline] @ ''    '' @ indent d @ b)
    (export_toks ex @ TDefine # TIdentifier name # concat (map param_toks ps) @ tb)"
proof -
  have "spells fo ('': '' @ name) [TDefine, TIdentifier name]"
    using spells_space[of fo "'':''" "[TDefine]" name] assms(1) by (simp add: spelling)
  from spells_export[OF spells_line(2)[OF spells_params[OF assms(2) this] assms(3)]]
  show ?thesis by simp
qed

lemma spells_shape:
  assumes "name_ok name" "list_all name_ok fs"
  shows "spells fo (show_export ex @ spaced ''#'' (name # fs))
    (export_toks ex @ TShape # TIdentifier name # map TIdentifier fs)"
proof -
  have "list_all2 (spells fo) (name # fs) ([TIdentifier name] # map (\<lambda>f. [TIdentifier f]) fs)"
    using assms by (simp add: spells_field_names spelling)
  from spells_export[OF spells_spaced[OF spells_printed_words(5) this]] show ?thesis
    by (simp add: concat_singletons)
qed

lemma spells_apply_node:
  assumes "length args < 2 ^ 64" "spells fo f tf" "list_all2 (spells fo) args tas"
  shows "spells fo (spaced (''@'' @ show_nat (length args)) (f # args))
    (TApply (length args) # tf @ concat tas)"
  using spells_spaced[OF spells_apply[OF assms(1)], of fo "f # args" "tf # tas"] assms by simp

lemma keyword_http: "keyword_token ''http'' = THttpClient"
  by code_simp

lemma spells_pretty: "spellable fo e \<Longrightarrow> spells fo (pretty fo e d) (toks e)"
proof (induction e arbitrary: d)
  case (Apply f args)
  have "list_all2 (spells fo) (map (\<lambda>a. pretty fo a d) args) (map toks args)"
    using Apply by (simp add: list_all2_map1 list_all2_map2 list.rel_refl_strong list_all_iff)
  from spells_apply_node[of "map (\<lambda>a. pretty fo a d) args" fo, OF _ _ this] Apply
  show ?case by (simp add: o_def)
next
  case (If c t f)
  then have "spells fo (''?'' @ '' '' @ pretty fo c d) (TQuestion # toks c)"
    using spells_space[OF spells_printed_words(9)] by simp
  from spells_line(2)[OF spells_line(2)[OF this]] If show ?case by simp
next
  case (Let name val body)
  then have "spells fo (spaced ''L'' [name, pretty fo val d]) (TLet # TIdentifier name # toks val)"
    using spells_parts(2)[of fo "''L''" TLet name "[TIdentifier name]"] by (simp add: spelling)
  from spells_line(1)[OF this] Let show ?case by simp
next
  case (Define name params body exported)
  then show ?case using spells_define[of name params fo "pretty fo body (Suc d)" "toks body" exported d]
    by simp
next
  case (MoneyStr e)
  then have "spells fo (''% str'') [TMoney, TStr]"
    using spells_space[of fo "''%''" "[TMoney]" "''str''"] by (simp add: spelling)
  from spells_spaced_parts(1)[OF this] MoneyStr show ?case by simp
next
  case (MoneyOp tok a b)
  then have "op_ok tok" by (auto simp: op_ok_def)
  from spells_op[OF this, of fo] MoneyOp show ?case by (simp add: spells_parts_token spelling)
next
  case (TimeOp tok a b)
  then have "op_ok tok" by (auto simp: op_ok_def)
  from spells_op[OF this, of fo] TimeOp show ?case by (simp add: spells_parts_token spelling)
next
  case (Seq l r)
  then have "spells fo (spaced ''.'' [pretty fo l d]) (TDot # toks l)"
    by (simp add: spells_parts spelling)
  from spells_line(1)[OF this] Seq show ?case by simp
next
  case (Import module symbol arity)
  then have "spells fo module [keyword_token module]"
    using keyword_http by (auto simp: name_ok_def keyword_token_def spells_name spells_printed_words)
  with Import spells_parts(2)[of fo "''I''" TImport module "[keyword_token module]" symbol
      "[TIdentifier symbol]"] show ?case
    by (simp add: spelling)
qed (simp_all add: spells_define spells_shape spells_debruijn spells_parts spells_parts_token spelling spells_op
    spells_trap
    spells_backquote[of _ _ "[x]" for x] del: One_nat_def)

end
