(* ===== verification/Router.thy ===== *)
theory Router
  imports Syntax
begin

text \<open>
  The code that \<open>rt\<close> expands to: the second half of \<open>parse_router\<close> in
  \<open>parser/mod.rs\<close>, which turns the parsed port, routes and fallback into a looping
  server function and the expression that starts it.
\<close>

section \<open>The router expansion\<close>

definition is_param_segment :: "string \<Rightarrow> bool" where
  "is_param_segment seg = (starts_with seg '':'' \<and> length seg > 1)"

text \<open>
  The path template: the pattern of each segment, and for every \<open>:name\<close> segment its index
  among the non-empty segments.
\<close>

fun path_segments :: "string list \<Rightarrow> nat \<Rightarrow> string list \<times> nat list" where
  "path_segments [] strtok_idx = ([], [])"
| "path_segments (seg # segs) strtok_idx =
     (if seg = [] then
        (case path_segments segs strtok_idx of (ps, is) \<Rightarrow> ([] # ps, is))
      else
        (case path_segments segs (Suc strtok_idx) of (ps, is) \<Rightarrow>
           if is_param_segment seg then (''[^/]+'' # ps, strtok_idx # is)
           else (seg # ps, is)))"

definition path_template :: "string \<Rightarrow> string \<times> nat list" where
  "path_template s =
     (case path_segments (split_on (CHR ''/'') s) 0 of (ps, indices) \<Rightarrow>
        (''^'' @ join ''/'' ps @ ''$'', indices))"

definition method_pattern :: "string \<Rightarrow> string" where
  "method_pattern s = ''^'' @ s @ ''$''"

definition recurse_call :: "string \<Rightarrow> expr" where
  "recurse_call loop_name = Apply (Identifier loop_name) [Move (DeBruijn 4)]"

text \<open>\<open>request\<close>, \<open>raw path\<close>, \<open>path\<close> and \<open>method\<close> are the four variables in scope.\<close>

definition route_cond :: "string \<Rightarrow> string \<Rightarrow> expr" where
  "route_cond mp pp =
     BinaryOp TBitAnd
       (Reg (Borrow (DeBruijn 0)) (String mp))
       (Reg (Borrow (DeBruijn 1)) (String pp))"

definition handler_args :: "nat list \<Rightarrow> expr list" where
  "handler_args indices =
     Move (DeBruijn 3) #
     map (\<lambda>idx. Split (Borrow (DeBruijn 1)) (String ''/'') (Integer (word_of_nat idx))) indices"

text \<open>
  One step of the loop over the routes, which runs from the last route to the first.  A
  method or path that is not a string literal is the error E001.
\<close>

definition add_route :: "string \<Rightarrow> expr \<times> expr \<times> expr \<Rightarrow> expr \<Rightarrow> expr option" where
  "add_route loop_name route dispatch_tree =
     (case route of (method_expr, path_expr, handler_expr) \<Rightarrow>
        (case method_expr of
           String m \<Rightarrow>
             (case path_expr of
                String s \<Rightarrow>
                  (case path_template s of (pp, indices) \<Rightarrow>
                     Some (If (route_cond (method_pattern m) pp)
                       (Seq (Apply handler_expr (handler_args indices)) (recurse_call loop_name))
                       dispatch_tree))
              | _ \<Rightarrow> None)
         | _ \<Rightarrow> None))"

definition fallback_call :: "string \<Rightarrow> expr \<Rightarrow> expr" where
  "fallback_call loop_name fallback =
     Seq (Apply fallback [Move (DeBruijn 3)]) (recurse_call loop_name)"

fun add_routes :: "string \<Rightarrow> (expr \<times> expr \<times> expr) list \<Rightarrow> expr \<Rightarrow> expr option" where
  "add_routes loop_name [] dispatch_tree = Some dispatch_tree"
| "add_routes loop_name (r # rs) dispatch_tree =
     (case add_route loop_name r dispatch_tree of
        None \<Rightarrow> None | Some t \<Rightarrow> add_routes loop_name rs t)"

definition log_line :: "string \<Rightarrow> nat \<Rightarrow> expr" where
  "log_line label idx =
     Seq (Write (Integer 1) (Cat (String label) (Borrow (DeBruijn idx))))
         (Write (Integer 1) (String [newline]))"

definition debug_prints :: expr where
  "debug_prints =
     Seq (log_line ''raw_path: '' 2) (Seq (log_line ''path: '' 1) (log_line ''method: '' 0))"

text \<open>The stack layout: \<open>req\<close>, \<open>raw_path\<close>, \<open>path\<close>, \<open>method\<close> around the dispatch.\<close>

definition loop_body :: "expr \<Rightarrow> expr" where
  "loop_body dispatch_tree =
     Let ''req'' (Read (Borrow (DeBruijn 0)))
       (Let ''raw_path'' (HttpServer (Integer 2) (Borrow (DeBruijn 0)))
         (Let ''path'' (Split (Borrow (DeBruijn 0)) (String ''?'') (Integer 0))
           (Let ''method'' (HttpServer (Integer 1) (Borrow (DeBruijn 2)))
             (Seq debug_prints dispatch_tree))))"

definition loop_def :: "string \<Rightarrow> expr \<Rightarrow> expr" where
  "loop_def loop_name dispatch_tree =
     Define loop_name [\<lparr>param_name = ''server'', param_expand = False\<rparr>]
       (loop_body dispatch_tree) False"

definition router_entry :: "string \<Rightarrow> expr \<Rightarrow> expr" where
  "router_entry loop_name port_expr =
     Let ''s'' (HttpServer (Integer 0) port_expr)
       (Apply (Identifier loop_name) [Move (DeBruijn 0)])"

definition router_loop_name :: "nat \<Rightarrow> string" where
  "router_loop_name n = ''_rt_loop_'' @ show_nat (n + 1)"

text \<open>
  The whole expansion, from the number of functions generated so far: the loop function and
  the entry expression.
\<close>

definition expand_router ::
  "nat \<Rightarrow> expr \<Rightarrow> (expr \<times> expr \<times> expr) list \<Rightarrow> expr \<Rightarrow> (expr \<times> expr) option" where
  "expand_router n_generated port_expr routes fallback =
     (let loop_name = router_loop_name n_generated in
      case add_routes loop_name (rev routes) (fallback_call loop_name fallback) of
        None \<Rightarrow> None
      | Some tree \<Rightarrow> Some (loop_def loop_name tree, router_entry loop_name port_expr))"

end
