(* ===== verification/Parser.thy ===== *)
theory Parser
  imports Lexer Router
begin

text \<open>
  The recursive-descent parser of \<open>parser/mod.rs\<close>.  A parse action takes the parser
  state and returns an error or a value and the new state (the \<open>?\<close> of the code is
  \<open>pbind\<close>).  The body of \<open>parse_expr\<close> is \<open>parse_step\<close>, a function of the action
  \<open>pe\<close> for the recursive calls, one definition per arm or group of arms;
  \<open>parse_fuel\<close> closes the recursion with fuel, and \<open>parse_expr\<close> gives it more fuel
  than the number of tokens left, which \<open>Parser_Total\<close> shows is enough.
\<close>

section \<open>The parser\<close>

text \<open>
  What the parser asks the outside world: the \<open>f64\<close> operations, and the
  \<open>SignatureResolver\<close> (module, import paths, file name to the text of the signature or
  an error code).
\<close>

type_synonym resolver = "string \<Rightarrow> string list \<Rightarrow> string \<Rightarrow> string + string"

record parse_env =
  env_f64 :: f64_ops
  env_resolver :: resolver

record parser =
  px_lexer :: lexer
  px_token :: token
  px_filename :: string
  px_scopes :: "string list list"
  px_import_paths :: "string list"
  px_imported_shapes :: "(string \<times> string) list"
  px_generated :: "expr list"

type_synonym 'a parse = "parser \<Rightarrow> fail + ('a \<times> parser)"

definition preturn :: "'a \<Rightarrow> 'a parse" where
  "preturn x p = Inr (x, p)"

definition pbind :: "'a parse \<Rightarrow> ('a \<Rightarrow> 'b parse) \<Rightarrow> 'b parse" where
  "pbind m k p = rbind (m p) (\<lambda>(x, p'). k x p')"

definition perror :: "string \<Rightarrow> 'a parse" where
  "perror code p = Inl (CErr (compile_error_new code (px_filename p) (lx_line (px_lexer p))))"

definition pget :: "(parser \<Rightarrow> 'a) \<Rightarrow> 'a parse" where
  "pget f p = Inr (f p, p)"

definition pmodify :: "(parser \<Rightarrow> parser) \<Rightarrow> unit parse" where
  "pmodify f p = Inr ((), f p)"

definition parser_new :: "parse_env \<Rightarrow> lexer \<Rightarrow> string \<Rightarrow> fail + parser" where
  "parser_new env lx filename =
     (let lx1 = lx\<lparr>lx_filename := filename\<rparr> in
      rbind (next_token (env_f64 env) lx1) (\<lambda>(t, lx2).
        Inr \<lparr>px_lexer = lx2, px_token = t, px_filename = filename, px_scopes = [],
             px_import_paths = [], px_imported_shapes = [], px_generated = []\<rparr>))"

subsection \<open>Scopes\<close>

definition push_scope :: "string list list \<Rightarrow> string list list" where
  "push_scope scs = scs @ [[]]"

definition pop_scope :: "string list list \<Rightarrow> string list list" where
  "pop_scope scs = butlast scs"

definition add_variable :: "string \<Rightarrow> string list list \<Rightarrow> string list list" where
  "add_variable name scs = (if scs = [] then [] else butlast scs @ [last scs @ [name]])"

definition pop_variable :: "string list list \<Rightarrow> string list list" where
  "pop_variable scs = (if scs = [] then [] else butlast scs @ [butlast (last scs)])"

fun find_index :: "string \<Rightarrow> string list \<Rightarrow> nat option" where
  "find_index x [] = None"
| "find_index x (y # ys) = (if y = x then Some 0 else map_option Suc (find_index x ys))"

text \<open>The two nested loops of \<open>resolve_variable\<close>, over the scopes from the innermost one.\<close>

fun resolve_in :: "string \<Rightarrow> string list list \<Rightarrow> nat \<Rightarrow> usize option" where
  "resolve_in name [] index = None"
| "resolve_in name (scope # scopes) index =
     (case find_index name (rev scope) of
        Some i \<Rightarrow> Some (index + i)
      | None \<Rightarrow> resolve_in name scopes (index + length scope))"

definition resolve_variable :: "string list list \<Rightarrow> string \<Rightarrow> usize option" where
  "resolve_variable scs name = resolve_in name (rev scs) 0"

fun resolve_shape_name :: "(string \<times> string) list \<Rightarrow> string \<Rightarrow> string" where
  "resolve_shape_name [] name = name"
| "resolve_shape_name ((symbol, module) # rest) name =
     (if symbol = name then module @ ''_'' @ name else resolve_shape_name rest name)"

subsection \<open>Module signatures\<close>

type_synonym signature = "(string \<times> usize) list \<times> (string \<times> string list) list"

definition parse_sig_func :: "string \<Rightarrow> (string \<times> usize) option" where
  "parse_sig_func line =
     (let parts = split_whitespace (trim (drop 1 line)) in
      if length parts \<ge> 2
      then map_option (\<lambda>arity. (parts ! 0, arity)) (parse_usize (parts ! 1)) else None)"

definition parse_sig_shape :: "string \<Rightarrow> (string \<times> string list) option" where
  "parse_sig_shape line =
     (let parts = split_whitespace (trim line) in
      if length parts \<ge> 2 then Some (parts ! 1, drop 2 parts) else None)"

definition add_sig_line :: "string \<Rightarrow> signature \<Rightarrow> signature" where
  "add_sig_line line sg =
     (case sg of (funcs, shapes) \<Rightarrow>
        if starts_with line '':'' then
          (case parse_sig_func line of Some f \<Rightarrow> (funcs @ [f], shapes) | None \<Rightarrow> sg)
        else if starts_with line ''#'' then
          (case parse_sig_shape line of Some s \<Rightarrow> (funcs, shapes @ [s]) | None \<Rightarrow> sg)
        else sg)"

definition parse_signature :: "string \<Rightarrow> signature" where
  "parse_signature content = fold add_sig_line (str_lines content) ([], [])"

definition load_signature :: "parse_env \<Rightarrow> string \<Rightarrow> signature parse" where
  "load_signature env module p =
     (case env_resolver env module (px_import_paths p) (px_filename p) of
        Inl err_code \<Rightarrow> perror err_code p
      | Inr content \<Rightarrow> preturn (parse_signature content) p)"

subsection \<open>Tokens\<close>

definition consume :: "parse_env \<Rightarrow> token parse" where
  "consume env p =
     rbind (next_token (env_f64 env) (px_lexer p)) (\<lambda>(t, lx).
       Inr (px_token p, p\<lparr>px_token := t, px_lexer := lx\<rparr>))"

definition consume_ident :: "parse_env \<Rightarrow> string parse" where
  "consume_ident env =
     pbind (consume env) (\<lambda>t. case t of TIdentifier s \<Rightarrow> preturn s | _ \<Rightarrow> perror ''E002'')"

definition consume_string :: "parse_env \<Rightarrow> string parse" where
  "consume_string env =
     pbind (consume env) (\<lambda>t. case t of TString s \<Rightarrow> preturn s | _ \<Rightarrow> perror ''E002'')"

definition on_scopes :: "(string list list \<Rightarrow> string list list) \<Rightarrow> unit parse" where
  "on_scopes f = pmodify (\<lambda>p. p\<lparr>px_scopes := f (px_scopes p)\<rparr>)"

text \<open>
  The number of tokens that can still be read: the measure of the descent.
\<close>

definition tokens_left :: "parser \<Rightarrow> nat" where
  "tokens_left p = length (lx_rest (px_lexer p)) + (if px_token p = TEOF then 0 else 1)"

lemma consume_decreases:
  "consume env p = Inr (t, p') \<Longrightarrow> px_token p \<noteq> TEOF \<Longrightarrow> tokens_left p' < tokens_left p"
  by (auto simp: consume_def tokens_left_def rbind_Inr_iff dest: next_token_length next_token_progress)

lemma consume_not_increases: "consume env p = Inr (t, p') \<Longrightarrow> tokens_left p' \<le> tokens_left p"
proof (cases "px_token p = TEOF")
  case True
  assume "consume env p = Inr (t, p')"
  then show ?thesis
    by (cases "px_token p' = TEOF")
       (auto simp: consume_def tokens_left_def rbind_Inr_iff dest: next_token_length next_token_progress)
qed (auto dest: consume_decreases)

text \<open>The parameter list of a definition: names, each with an optional expansion mark.\<close>

function parse_params :: "parse_env \<Rightarrow> param list parse" where
  "parse_params env p =
     (case px_token p of
        TIdentifier p_name \<Rightarrow>
          rbind (consume env p) (\<lambda>(_, p1).
          if px_token p1 = TBang then
            rbind (consume env p1) (\<lambda>(_, p2).
            rbind (parse_params env (p2\<lparr>px_scopes := add_variable p_name (px_scopes p2)\<rparr>))
              (\<lambda>(ps, p3). Inr (\<lparr>param_name = p_name, param_expand = True\<rparr> # ps, p3)))
          else
            rbind (parse_params env (p1\<lparr>px_scopes := add_variable p_name (px_scopes p1)\<rparr>))
              (\<lambda>(ps, p3). Inr (\<lparr>param_name = p_name, param_expand = False\<rparr> # ps, p3)))
      | _ \<Rightarrow> Inr ([], p))"
  by pat_completeness auto
termination
proof (relation "measure (\<lambda>(env, p). tokens_left p)", goal_cases)
  case (2 env p x pr t p1 pr' t' p2)
  then have "tokens_left p1 < tokens_left p" "tokens_left p2 \<le> tokens_left p1"
    by (auto dest: consume_decreases consume_not_increases)
  then show ?case by (simp add: tokens_left_def)
next
  case (3 env p x pr t p1)
  then have "tokens_left p1 < tokens_left p" by (auto dest: consume_decreases)
  then show ?case by (simp add: tokens_left_def)
qed simp

declare parse_params.simps [simp del]

text \<open>The field list of a shape.\<close>

function parse_fields :: "parse_env \<Rightarrow> string list parse" where
  "parse_fields env p =
     (case px_token p of
        TIdentifier f \<Rightarrow>
          rbind (consume env p) (\<lambda>(_, p1).
          rbind (parse_fields env p1) (\<lambda>(fs, p2). Inr (f # fs, p2)))
      | _ \<Rightarrow> Inr ([], p))"
  by pat_completeness auto
termination
  by (relation "measure (\<lambda>(env, p). tokens_left p)") (auto dest: consume_decreases)

declare parse_fields.simps [simp del]

subsection \<open>The arms of \<open>parse_expr\<close>\<close>

definition parse_leaf :: "parse_env \<Rightarrow> expr \<Rightarrow> expr parse" where
  "parse_leaf env e = pbind (consume env) (\<lambda>_. preturn e)"

definition parse_identifier :: "parse_env \<Rightarrow> string \<Rightarrow> expr parse" where
  "parse_identifier env val p =
     (case resolve_variable (px_scopes p) val of
        Some idx \<Rightarrow> parse_leaf env (DeBruijn idx) p
      | None \<Rightarrow> parse_leaf env (Identifier val) p)"

definition parse_unary :: "parse_env \<Rightarrow> expr parse \<Rightarrow> (expr \<Rightarrow> expr) \<Rightarrow> expr parse" where
  "parse_unary env pe C = pbind (consume env) (\<lambda>_. pbind pe (\<lambda>a. preturn (C a)))"

definition parse_binary :: "parse_env \<Rightarrow> expr parse \<Rightarrow> (expr \<Rightarrow> expr \<Rightarrow> expr) \<Rightarrow> expr parse" where
  "parse_binary env pe C =
     pbind (consume env) (\<lambda>_. pbind pe (\<lambda>a. pbind pe (\<lambda>b. preturn (C a b))))"

definition parse_ternary ::
  "parse_env \<Rightarrow> expr parse \<Rightarrow> (expr \<Rightarrow> expr \<Rightarrow> expr \<Rightarrow> expr) \<Rightarrow> expr parse" where
  "parse_ternary env pe C =
     pbind (consume env) (\<lambda>_. pbind pe (\<lambda>a. pbind pe (\<lambda>b. pbind pe (\<lambda>c. preturn (C a b c)))))"

definition parse_operator ::
  "parse_env \<Rightarrow> expr parse \<Rightarrow> (token \<Rightarrow> expr \<Rightarrow> expr \<Rightarrow> expr) \<Rightarrow> expr parse" where
  "parse_operator env pe C =
     pbind (consume env) (\<lambda>op. pbind pe (\<lambda>left. pbind pe (\<lambda>right. preturn (C op left right))))"

definition parse_let :: "parse_env \<Rightarrow> expr parse \<Rightarrow> expr parse" where
  "parse_let env pe =
     pbind (consume env) (\<lambda>_.
     pbind (consume_ident env) (\<lambda>name.
     pbind pe (\<lambda>val.
     pbind (on_scopes (add_variable name)) (\<lambda>_.
     pbind pe (\<lambda>body.
     pbind (on_scopes pop_variable) (\<lambda>_.
     preturn (Let name val body)))))))"

definition parse_define :: "parse_env \<Rightarrow> expr parse \<Rightarrow> expr parse" where
  "parse_define env pe =
     pbind (consume env) (\<lambda>_.
     pbind (consume_ident env) (\<lambda>name.
     pbind (on_scopes push_scope) (\<lambda>_.
     pbind (parse_params env) (\<lambda>params.
     pbind pe (\<lambda>body.
     pbind (on_scopes pop_scope) (\<lambda>_.
     preturn (Define name params body False)))))))"

definition parse_shape :: "parse_env \<Rightarrow> expr parse" where
  "parse_shape env =
     pbind (consume env) (\<lambda>_.
     pbind (consume_ident env) (\<lambda>name.
     pbind (parse_fields env) (\<lambda>fs.
     preturn (Shape name fs False))))"

definition parse_new :: "parse_env \<Rightarrow> expr parse \<Rightarrow> expr parse" where
  "parse_new env pe =
     pbind (consume env) (\<lambda>_.
     pbind (consume_ident env) (\<lambda>name.
     pbind (pget (\<lambda>p. resolve_shape_name (px_imported_shapes p) name)) (\<lambda>resolved_name.
     pbind pe (\<lambda>cnt.
     preturn (New resolved_name cnt)))))"

definition parse_get :: "parse_env \<Rightarrow> expr parse \<Rightarrow> expr parse" where
  "parse_get env pe =
     pbind (consume env) (\<lambda>_.
     pbind pe (\<lambda>inst.
     pbind (consume_ident env) (\<lambda>field.
     pbind pe (\<lambda>idx.
     preturn (Get inst field idx)))))"

definition parse_set :: "parse_env \<Rightarrow> expr parse \<Rightarrow> expr parse" where
  "parse_set env pe =
     pbind (consume env) (\<lambda>_.
     pbind pe (\<lambda>inst.
     pbind (consume_ident env) (\<lambda>field.
     pbind pe (\<lambda>idx.
     pbind pe (\<lambda>val.
     preturn (Set inst field idx val))))))"

definition parse_expand :: "parse_env \<Rightarrow> expr parse" where
  "parse_expand env =
     pbind (consume env) (\<lambda>_. pbind (consume_ident env) (\<lambda>name. preturn (Expand name)))"

definition parse_metadata :: "parse_env \<Rightarrow> expr parse \<Rightarrow> expr parse" where
  "parse_metadata env pe =
     pbind (consume env) (\<lambda>_.
     pbind pe (\<lambda>tag.
     pbind pe (\<lambda>val.
     pbind pe (\<lambda>target.
     if tag = String ''test'' \<and> \<not> is_define (strip_metadata target)
     then perror ''E019''
     else preturn (Metadata tag val target)))))"

definition set_exported :: "expr \<Rightarrow> expr option" where
  "set_exported e =
     (case e of
        Define name params body exported \<Rightarrow> Some (Define name params body True)
      | Shape name fs exported \<Rightarrow> Some (Shape name fs True)
      | _ \<Rightarrow> None)"

definition parse_export :: "parse_env \<Rightarrow> expr parse \<Rightarrow> expr parse" where
  "parse_export env pe =
     pbind (consume env) (\<lambda>_.
     pbind pe (\<lambda>inner.
     case set_exported inner of Some e \<Rightarrow> preturn e | None \<Rightarrow> perror ''E015''))"

text \<open>\<open>val * 10000\<close> wraps, as in the release build.\<close>

definition parse_money :: "parse_env \<Rightarrow> expr parse \<Rightarrow> expr parse" where
  "parse_money env pe =
     pbind (consume env) (\<lambda>_.
     pbind (pget px_token) (\<lambda>t.
     case t of
       TStr \<Rightarrow> parse_unary env pe MoneyStr
     | TAdd \<Rightarrow> parse_operator env pe MoneyOp
     | TSub \<Rightarrow> parse_operator env pe MoneyOp
     | TMul \<Rightarrow> parse_operator env pe MoneyOp
     | TDiv \<Rightarrow> parse_operator env pe MoneyOp
     | TInteger i \<Rightarrow> parse_leaf env (Integer (i * 10000))
     | TFloat x \<Rightarrow> parse_leaf env (Integer (f64_money (env_f64 env) x))
     | _ \<Rightarrow> perror ''E002''))"

definition import_module_name :: "token \<Rightarrow> string option" where
  "import_module_name t =
     (case t of TIdentifier s \<Rightarrow> Some s | THttpClient \<Rightarrow> Some ''http'' | _ \<Rightarrow> None)"

definition parse_import :: "parse_env \<Rightarrow> expr parse" where
  "parse_import env =
     pbind (consume env) (\<lambda>_.
     pbind (consume env) (\<lambda>t.
     case import_module_name t of
       None \<Rightarrow> perror ''E002''
     | Some module \<Rightarrow>
         pbind (consume_ident env) (\<lambda>symbol.
         pbind (load_signature env module) (\<lambda>(funcs, shapes).
         case map_of shapes symbol of
           Some fs \<Rightarrow>
             pbind (pmodify (\<lambda>p. p\<lparr>px_imported_shapes := px_imported_shapes p @ [(symbol, module)]\<rparr>))
               (\<lambda>_. preturn (Shape (module @ ''_'' @ symbol) fs False))
         | None \<Rightarrow>
             (case map_of funcs symbol of
                Some arity \<Rightarrow> preturn (Import module symbol arity)
              | None \<Rightarrow> perror ''E018'')))))"

primrec parse_args :: "expr parse \<Rightarrow> nat \<Rightarrow> expr list parse" where
  "parse_args pe 0 = preturn []"
| "parse_args pe (Suc n) = pbind pe (\<lambda>a. pbind (parse_args pe n) (\<lambda>as. preturn (a # as)))"

definition parse_apply :: "parse_env \<Rightarrow> expr parse \<Rightarrow> usize \<Rightarrow> expr parse" where
  "parse_apply env pe arity =
     pbind (consume env) (\<lambda>_.
     pbind pe (\<lambda>func.
     pbind (parse_args pe arity) (\<lambda>args.
     preturn (Apply func args))))"

definition parse_pack :: "parse_env \<Rightarrow> expr parse \<Rightarrow> usize \<Rightarrow> expr parse" where
  "parse_pack env pe arity =
     (if arity = 1 then parse_unary env pe Pack
      else
        pbind (consume env) (\<lambda>_.
        pbind pe (\<lambda>e.
        pbind (consume_string env) (\<lambda>shape_name.
        pbind (pget (\<lambda>p. resolve_shape_name (px_imported_shapes p) shape_name)) (\<lambda>resolved_name.
        preturn (Unpack e resolved_name))))))"

definition parse_otel_emit :: "parse_env \<Rightarrow> expr parse \<Rightarrow> expr parse" where
  "parse_otel_emit env pe =
     pbind (consume env) (\<lambda>_.
     pbind pe (\<lambda>t. pbind pe (\<lambda>a1. pbind pe (\<lambda>a2. pbind pe (\<lambda>a3.
     preturn (OtelEmit t a1 a2 a3))))))"

definition parse_map :: "parse_env \<Rightarrow> expr parse \<Rightarrow> expr parse" where
  "parse_map env pe =
     pbind (consume env) (\<lambda>_.
     pbind pe (\<lambda>inst.
     pbind (consume_string env) (\<lambda>field.
     pbind pe (\<lambda>func.
     preturn (Map inst field func)))))"

definition parse_time_now :: "parse_env \<Rightarrow> expr parse \<Rightarrow> expr parse" where
  "parse_time_now env pe =
     pbind (consume env) (\<lambda>_.
     pbind (pget px_token) (\<lambda>t.
     if t = TAdd \<or> t = TSub then parse_operator env pe TimeOp else preturn TimeNow))"

definition parse_time_set :: "parse_env \<Rightarrow> expr parse \<Rightarrow> expr parse" where
  "parse_time_set env pe =
     pbind (consume env) (\<lambda>_.
     pbind pe (\<lambda>y. pbind pe (\<lambda>m. pbind pe (\<lambda>d.
     pbind pe (\<lambda>h. pbind pe (\<lambda>mn. pbind pe (\<lambda>sc.
     preturn (TimeSet y m d h mn sc))))))))"

text \<open>The loop over the routes: a method, a path and a handler each.\<close>

primrec parse_routes :: "expr parse \<Rightarrow> nat \<Rightarrow> (expr \<times> expr \<times> expr) list parse" where
  "parse_routes pe 0 = preturn []"
| "parse_routes pe (Suc n) =
     pbind pe (\<lambda>method. pbind pe (\<lambda>path. pbind pe (\<lambda>handler.
     pbind (parse_routes pe n) (\<lambda>rs. preturn ((method, path, handler) # rs)))))"

definition consume_route_count :: "parse_env \<Rightarrow> nat parse" where
  "consume_route_count env =
     pbind (consume env) (\<lambda>t.
     case t of TInteger n \<Rightarrow> preturn (nat (sint n)) | _ \<Rightarrow> perror ''E001'')"

definition parse_router :: "parse_env \<Rightarrow> expr parse \<Rightarrow> expr parse" where
  "parse_router env pe =
     pbind (consume env) (\<lambda>_.
     pbind pe (\<lambda>port_expr.
     pbind (consume_route_count env) (\<lambda>num_routes.
     pbind (parse_routes pe num_routes) (\<lambda>routes.
     pbind pe (\<lambda>fallback.
     pbind (pget (\<lambda>p. length (px_generated p))) (\<lambda>n.
     case expand_router n port_expr routes fallback of
       None \<Rightarrow> perror ''E001''
     | Some (loop, entry) \<Rightarrow>
         pbind (pmodify (\<lambda>p. p\<lparr>px_generated := px_generated p @ [loop]\<rparr>)) (\<lambda>_.
         preturn entry)))))))"

subsection \<open>\<open>parse_expr\<close>\<close>

text \<open>The tokens of the last arm, which \<open>parse_expr\<close> takes as binary operators.\<close>

definition is_binary_operator :: "token \<Rightarrow> bool" where
  "is_binary_operator t =
     (t \<in> {TAdd, TSub, TMul, TDiv, TEq, TLt, TGt, TBitAnd, TBitOr, TBitXor})"

definition parse_arm :: "parse_env \<Rightarrow> expr parse \<Rightarrow> token \<Rightarrow> expr parse" where
  "parse_arm env pe t =
     (case t of
        TInteger i \<Rightarrow> parse_leaf env (Integer i)
      | TFloat x \<Rightarrow> parse_leaf env (Float x)
      | TIdentifier s \<Rightarrow> parse_identifier env s
      | TString s \<Rightarrow> parse_leaf env (String s)
      | TMove \<Rightarrow> parse_unary env pe Move
      | TBorrow \<Rightarrow> parse_unary env pe Borrow
      | TMutBorrow \<Rightarrow> parse_unary env pe MutBorrow
      | TLen \<Rightarrow> parse_unary env pe Len
      | TStrSub \<Rightarrow> parse_ternary env pe Sub
      | TCat \<Rightarrow> parse_binary env pe Cat
      | TLet \<Rightarrow> parse_let env pe
      | TDefine \<Rightarrow> parse_define env pe
      | TShape \<Rightarrow> parse_shape env
      | TNew \<Rightarrow> parse_new env pe
      | TGet \<Rightarrow> parse_get env pe
      | TSet \<Rightarrow> parse_set env pe
      | TQuestion \<Rightarrow> parse_ternary env pe If
      | TBang \<Rightarrow> parse_expand env
      | TMetadata \<Rightarrow> parse_metadata env pe
      | TExport \<Rightarrow> parse_export env pe
      | TMoney \<Rightarrow> parse_money env pe
      | TImport \<Rightarrow> parse_import env
      | TApply arity \<Rightarrow> parse_apply env pe arity
      | TDeBruijn index \<Rightarrow> parse_leaf env (DeBruijn index)
      | TLoc \<Rightarrow> parse_binary env pe Loc
      | TReg \<Rightarrow> parse_binary env pe Reg
      | TRead \<Rightarrow> parse_unary env pe Read
      | TWrite \<Rightarrow> parse_binary env pe Write
      | TStr \<Rightarrow> parse_unary env pe Str
      | TSplit \<Rightarrow> parse_ternary env pe Split
      | TPack arity \<Rightarrow> parse_pack env pe arity
      | TOtelEmit _ \<Rightarrow> parse_otel_emit env pe
      | TMap \<Rightarrow> parse_map env pe
      | TFilter \<Rightarrow> parse_binary env pe Filter
      | TPanic \<Rightarrow> parse_unary env pe Panic
      | TTrap \<Rightarrow> parse_binary env pe Trap
      | TTimeNow \<Rightarrow> parse_time_now env pe
      | TTimeZone \<Rightarrow> parse_leaf env TimeZone
      | TTimeNano \<Rightarrow> parse_leaf env TimeNano
      | TTimeGet \<Rightarrow> parse_binary env pe TimeGet
      | TTimeSet \<Rightarrow> parse_time_set env pe
      | TEnv \<Rightarrow> parse_unary env pe Env
      | TFileOpen \<Rightarrow> parse_binary env pe FileOpen
      | THttpClient \<Rightarrow> parse_ternary env pe HttpClient
      | THttpServer \<Rightarrow> parse_binary env pe HttpServer
      | THttpHeader \<Rightarrow> parse_binary env pe HttpHeader
      | TRouter \<Rightarrow> parse_router env pe
      | TDot \<Rightarrow> parse_binary env pe Seq
      | _ \<Rightarrow>
          if is_binary_operator t then parse_operator env pe BinaryOp
          else perror ''E001'')"

definition parse_step :: "parse_env \<Rightarrow> expr parse \<Rightarrow> expr parse" where
  "parse_step env pe p = parse_arm env pe (px_token p) p"

primrec parse_fuel :: "parse_env \<Rightarrow> nat \<Rightarrow> expr parse" where
  "parse_fuel env 0 = (\<lambda>p. Inl NoFuel)"
| "parse_fuel env (Suc n) = parse_step env (parse_fuel env n)"

definition parse_expr :: "parse_env \<Rightarrow> expr parse" where
  "parse_expr env p = parse_fuel env (Suc (tokens_left p)) p"

subsection \<open>Modules\<close>

text \<open>
  \<open>parse_module\<close>: the functions generated while an expression is parsed come before it.
\<close>

primrec parse_module_fuel :: "parse_env \<Rightarrow> nat \<Rightarrow> expr list parse" where
  "parse_module_fuel env 0 p = Inl NoFuel"
| "parse_module_fuel env (Suc n) p =
     (if px_token p = TEOF then Inr ([], p)
      else
        rbind (parse_expr env p) (\<lambda>(e, p1).
        rbind (parse_module_fuel env n (p1\<lparr>px_generated := []\<rparr>)) (\<lambda>(es, p2).
        Inr (px_generated p1 @ e # es, p2))))"

definition parse_module :: "parse_env \<Rightarrow> expr list parse" where
  "parse_module env p = parse_module_fuel env (Suc (tokens_left p)) p"

text \<open>\<open>Parser::new(Lexer::new(src), filename)\<close> and \<open>parse_module\<close>, as every caller does.\<close>

definition parse_source ::
  "parse_env \<Rightarrow> string list \<Rightarrow> string \<Rightarrow> string \<Rightarrow> fail + expr list" where
  "parse_source env import_paths filename src =
     rbind (parser_new env (lexer_new src) filename) (\<lambda>p.
     rbind (parse_module env (p\<lparr>px_import_paths := import_paths\<rparr>)) (\<lambda>(es, _). Inr es))"

subsection \<open>The file-system resolver\<close>

text \<open>
  \<open>FsSignatureResolver\<close>: the signatures of the runtime's own modules, then \<open>m.llmi\<close> in
  the import paths, beside the file being compiled, and in the working directory.  The file
  system is a parameter: which paths exist, and what reading one returns.
\<close>

record file_system =
  fs_exists :: "string \<Rightarrow> bool"
  fs_read :: "string \<Rightarrow> string + string"

definition sig_lines :: "string list \<Rightarrow> string" where
  "sig_lines ls = concat (map (\<lambda>l. '': '' @ l @ [newline]) ls)"

definition builtin_signatures :: "(string \<times> string) list" where
  "builtin_signatures = [
     (''http'', sig_lines [''get 1'', ''post 2'', ''serve 1'', ''https_serve 4'', ''accept 1'',
        ''respond 2'', ''decode 1'', ''get_header 2'']),
     (''db'', sig_lines [''connect 2'', ''connect_binding 2'', ''query 4'', ''exec 3'',
        ''error 1'']),
     (''json'', sig_lines [''parse 1'', ''stringify 1'', ''get_int 2'', ''get_float 2'',
        ''get_str 2'', ''get_obj 2'', ''get_arr 2'', ''arr_len 1'', ''arr_get 2'']),
     (''file'', sig_lines [''open 2'', ''close 1'']),
     (''crypto'', sig_lines [''sign 2'', ''verify 3'', ''encrypt 2'', ''decrypt 2'']),
     (''cms'', sig_lines [''unwrap 2''])]"

text \<open>\<open>Path::join\<close> with a relative file name, and \<open>Path::parent\<close> of a plain file path.\<close>

definition path_join :: "string \<Rightarrow> string \<Rightarrow> string" where
  "path_join dir file =
     (if dir = [] \<or> last dir = CHR ''/'' then dir @ file else dir @ ''/'' @ file)"

definition path_parent :: "string \<Rightarrow> string option" where
  "path_parent p =
     (if p = [] \<or> list_all (\<lambda>c. c = CHR ''/'') p then None
      else (let up = dropWhile (\<lambda>c. c \<noteq> CHR ''/'') (dropWhile (\<lambda>c. c = CHR ''/'') (rev p));
                dir = rev (dropWhile (\<lambda>c. c = CHR ''/'') up) in
            Some (if dir = [] \<and> up \<noteq> [] then ''/'' else dir)))"

definition find_signature_path ::
  "file_system \<Rightarrow> string \<Rightarrow> string list \<Rightarrow> string \<Rightarrow> string option" where
  "find_signature_path fs sig_filename import_paths filename =
     (case find (\<lambda>p. fs_exists fs p) (map (\<lambda>d. path_join d sig_filename) import_paths) of
        Some p \<Rightarrow> Some p
      | None \<Rightarrow>
          (let beside = map_option (\<lambda>d. path_join d sig_filename) (path_parent filename) in
           case beside of
             Some p \<Rightarrow>
               if fs_exists fs p then Some p
               else if fs_exists fs sig_filename then Some sig_filename else None
           | None \<Rightarrow> if fs_exists fs sig_filename then Some sig_filename else None))"

definition fs_resolve :: "file_system \<Rightarrow> resolver" where
  "fs_resolve fs module import_paths filename =
     (case map_of builtin_signatures module of
        Some content \<Rightarrow> Inr content
      | None \<Rightarrow>
          (case find_signature_path fs (module @ ''.llmi'') import_paths filename of
             Some path \<Rightarrow> fs_read fs path
           | None \<Rightarrow> Inl ''E017''))"

end
