(* ===== verification/Parser_Total.thy ===== *)
theory Parser_Total
  imports Parser
begin

text \<open>
  The parser returns: the fuel of \<open>parse_expr\<close> and \<open>parse_module\<close> is never exhausted,
  every error names the file being compiled, the scopes are restored after every
  expression, and what is built satisfies the syntactic conditions \<open>wf_ast\<close> that the later
  stages rely on.

  The proof is a weakest-precondition calculus for parse actions (\<open>safe\<close>), and the
  interface the arms need from the recursive calls is the locale \<open>descent\<close>, which is
  interpreted on \<open>parse_fuel\<close>.
\<close>

section \<open>Well-formed syntax\<close>

primrec wf_ast :: "expr \<Rightarrow> bool" where
  "wf_ast (Integer i) = True"
| "wf_ast (Float x) = True"
| "wf_ast (DeBruijn idx) = True"
| "wf_ast (Identifier s) = True"
| "wf_ast (BinaryOp tok l r) = (is_binary_operator tok \<and> wf_ast l \<and> wf_ast r)"
| "wf_ast (Apply f args) = (wf_ast f \<and> list_all (\<lambda>b. b) (map wf_ast args))"
| "wf_ast (Move e) = wf_ast e"
| "wf_ast (Borrow e) = wf_ast e"
| "wf_ast (MutBorrow e) = wf_ast e"
| "wf_ast (Define name params body exported) = wf_ast body"
| "wf_ast (Shape name fs exported) = True"
| "wf_ast (New shape cnt) = wf_ast cnt"
| "wf_ast (Get inst field idx) = (wf_ast inst \<and> wf_ast idx)"
| "wf_ast (Set inst field idx val) = (wf_ast inst \<and> wf_ast idx \<and> wf_ast val)"
| "wf_ast (If c t f) = (wf_ast c \<and> wf_ast t \<and> wf_ast f)"
| "wf_ast (Expand name) = True"
| "wf_ast (Let name val body) = (wf_ast val \<and> wf_ast body)"
| "wf_ast (Import module symbol arity) = True"
| "wf_ast (String s) = True"
| "wf_ast (Len e) = wf_ast e"
| "wf_ast (Cat l r) = (wf_ast l \<and> wf_ast r)"
| "wf_ast (Sub s st len) = (wf_ast s \<and> wf_ast st \<and> wf_ast len)"
| "wf_ast (Loc s pat) = (wf_ast s \<and> wf_ast pat)"
| "wf_ast (Reg s pat) = (wf_ast s \<and> wf_ast pat)"
| "wf_ast (Read h) = wf_ast h"
| "wf_ast (Write h s) = (wf_ast h \<and> wf_ast s)"
| "wf_ast (Str e) = wf_ast e"
| "wf_ast (Split s dl i) = (wf_ast s \<and> wf_ast dl \<and> wf_ast i)"
| "wf_ast TimeNow = True"
| "wf_ast TimeNano = True"
| "wf_ast (TimeGet t i) = (wf_ast t \<and> wf_ast i)"
| "wf_ast (TimeSet y m dy h mn s) =
     (wf_ast y \<and> wf_ast m \<and> wf_ast dy \<and> wf_ast h \<and> wf_ast mn \<and> wf_ast s)"
| "wf_ast (Env k) = wf_ast k"
| "wf_ast (Seq l r) = (wf_ast l \<and> wf_ast r)"
| "wf_ast (Pack e) = wf_ast e"
| "wf_ast (Unpack e shape) = wf_ast e"
| "wf_ast (Metadata tag val t) =
     ((tag = String ''test'' \<longrightarrow> is_define (strip_metadata t)) \<and>
      wf_ast tag \<and> wf_ast val \<and> wf_ast t)"
| "wf_ast (OtelEmit t a1 a2 a3) = (wf_ast t \<and> wf_ast a1 \<and> wf_ast a2 \<and> wf_ast a3)"
| "wf_ast (Map inst field func) = (wf_ast inst \<and> wf_ast func)"
| "wf_ast (Filter inst func) = (wf_ast inst \<and> wf_ast func)"
| "wf_ast (MoneyOp tok a b) = (tok \<in> {TAdd, TSub, TMul, TDiv} \<and> wf_ast a \<and> wf_ast b)"
| "wf_ast (MoneyStr e) = wf_ast e"
| "wf_ast (TimeOp tok a b) = (tok \<in> {TAdd, TSub} \<and> wf_ast a \<and> wf_ast b)"
| "wf_ast TimeZone = True"
| "wf_ast (Panic e) = wf_ast e"
| "wf_ast (Trap t f) = (wf_ast t \<and> wf_ast f)"
| "wf_ast (HttpClient m u b) = (wf_ast m \<and> wf_ast u \<and> wf_ast b)"
| "wf_ast (HttpServer op arg) = (wf_ast op \<and> wf_ast arg)"
| "wf_ast (HttpHeader req name) = (wf_ast req \<and> wf_ast name)"
| "wf_ast (FileOpen p m) = (wf_ast p \<and> wf_ast m)"

lemma wf_add_route:
  "add_route ln (m, p, h) t = Some t' \<Longrightarrow> wf_ast h \<Longrightarrow> wf_ast t \<Longrightarrow> wf_ast t'"
  by (auto simp: add_route_def route_cond_def handler_args_def recurse_call_def
      is_binary_operator_def list_all_iff split: expr.split_asm prod.split_asm)

lemma wf_add_routes:
  "add_routes ln rs t = Some t' \<Longrightarrow> wf_ast t \<Longrightarrow> \<forall>(m, p, h) \<in> set rs. wf_ast h \<Longrightarrow> wf_ast t'"
proof (induction rs arbitrary: t)
  case (Cons r rs)
  then show ?case
    by (cases r) (auto split: option.split_asm dest: wf_add_route)
qed simp

lemma wf_expand_router:
  assumes "expand_router n port rs fb = Some (loop, entry)"
    and "wf_ast port" "\<forall>(m, p, h) \<in> set rs. wf_ast h" "wf_ast fb"
  shows "wf_ast loop" "wf_ast entry"
proof -
  let ?ln = "router_loop_name n"
  from assms(1) obtain t where t: "add_routes ?ln (rev rs) (fallback_call ?ln fb) = Some t"
    and loop: "loop = loop_def ?ln t" and entry: "entry = router_entry ?ln port"
    by (auto simp: expand_router_def Let_def split: option.split_asm)
  have "wf_ast (fallback_call ?ln fb)"
    using assms(4) by (simp add: fallback_call_def recurse_call_def)
  then have "wf_ast t"
    by (rule wf_add_routes[OF t]) (use assms(3) in simp)
  then show "wf_ast loop"
    by (simp add: loop loop_def_def loop_body_def debug_prints_def log_line_def)
  show "wf_ast entry" using assms(2) by (simp add: entry router_entry_def)
qed

section \<open>A weakest-precondition calculus for parse actions\<close>

definition state_ok :: "parser \<Rightarrow> bool" where
  "state_ok p \<longleftrightarrow> lx_filename (px_lexer p) = px_filename p \<and> (\<forall>e \<in> set (px_generated p). wf_ast e)"

fun failure_in :: "string \<Rightarrow> fail \<Rightarrow> bool" where
  "failure_in filename (CErr ce) = (ce_filename ce = filename)"
| "failure_in filename (Panicked m) = (m \<in> {''ParseFloatError'', ''ParseIntError''})"
| "failure_in filename NoFuel = False"

definition good_fail :: "parser \<Rightarrow> fail \<Rightarrow> bool" where
  "good_fail p f = failure_in (px_filename p) f"

definition next_ok :: "parser \<Rightarrow> parser \<Rightarrow> bool" where
  "next_ok p p' \<longleftrightarrow> state_ok p' \<and> px_filename p' = px_filename p \<and>
     px_import_paths p' = px_import_paths p"

text \<open>
  \<open>safe s n m Q\<close>: from every state with scopes \<open>s\<close> and at most \<open>n\<close> tokens left, \<open>m\<close>
  fails in a good way or returns a value and scopes that satisfy \<open>Q\<close>, with no more tokens
  left.  \<open>safe_at\<close> also fixes the current token, and \<open>arm\<close> is the same for an action
  that must read it.
\<close>

definition safe ::
  "string list list \<Rightarrow> nat \<Rightarrow> 'a parse \<Rightarrow> ('a \<Rightarrow> string list list \<Rightarrow> bool) \<Rightarrow> bool" where
  "safe s n m Q \<longleftrightarrow> (\<forall>p. state_ok p \<longrightarrow> px_scopes p = s \<longrightarrow> tokens_left p \<le> n \<longrightarrow>
     (case m p of
        Inl f \<Rightarrow> good_fail p f
      | Inr (x, p') \<Rightarrow> next_ok p p' \<and> tokens_left p' \<le> tokens_left p \<and> Q x (px_scopes p')))"

definition safe_at ::
  "string list list \<Rightarrow> nat \<Rightarrow> token \<Rightarrow> 'a parse \<Rightarrow> ('a \<Rightarrow> string list list \<Rightarrow> bool) \<Rightarrow> bool" where
  "safe_at s n t m Q \<longleftrightarrow> (\<forall>p. state_ok p \<longrightarrow> px_scopes p = s \<longrightarrow> px_token p = t \<longrightarrow>
     tokens_left p \<le> n \<longrightarrow>
     (case m p of
        Inl f \<Rightarrow> good_fail p f
      | Inr (x, p') \<Rightarrow> next_ok p p' \<and> tokens_left p' \<le> tokens_left p \<and> Q x (px_scopes p')))"

definition arm ::
  "string list list \<Rightarrow> nat \<Rightarrow> token \<Rightarrow> 'a parse \<Rightarrow> ('a \<Rightarrow> string list list \<Rightarrow> bool) \<Rightarrow> bool" where
  "arm s n t m Q \<longleftrightarrow> (\<forall>p. state_ok p \<longrightarrow> px_scopes p = s \<longrightarrow> px_token p = t \<longrightarrow> t \<noteq> TEOF \<longrightarrow>
     tokens_left p \<le> Suc n \<longrightarrow>
     (case m p of
        Inl f \<Rightarrow> good_fail p f
      | Inr (x, p') \<Rightarrow> next_ok p p' \<and> tokens_left p' < tokens_left p \<and> Q x (px_scopes p')))"

named_theorems wp "weakest-precondition rules for parse actions"

lemma safe_weaken: "safe s n m Q \<Longrightarrow> (\<And>x s'. Q x s' \<Longrightarrow> Q' x s') \<Longrightarrow> safe s n m Q'"
  unfolding safe_def by (fastforce split: sum.splits)

lemma safe_bind [wp]:
  assumes "safe s n m (\<lambda>x s1. safe s1 n (k x) Q)"
  shows "safe s n (pbind m k) Q"
  unfolding safe_def
proof (intro allI impI)
  fix p assume p: "state_ok p" "px_scopes p = s" "tokens_left p \<le> n"
  show "case pbind m k p of Inl f \<Rightarrow> good_fail p f
    | Inr (x, p') \<Rightarrow> next_ok p p' \<and> tokens_left p' \<le> tokens_left p \<and> Q x (px_scopes p')"
  proof (cases "m p")
    case (Inl f)
    with assms p show ?thesis unfolding safe_def by (fastforce simp: pbind_def)
  next
    case (Inr r)
    obtain x p1 where r: "r = (x, p1)" by (cases r)
    from assms p Inr r have 1: "next_ok p p1" "tokens_left p1 \<le> tokens_left p"
      and k: "safe (px_scopes p1) n (k x) Q"
      unfolding safe_def[of s] by fastforce+
    then have "state_ok p1" "tokens_left p1 \<le> n" using p(3) by (auto simp: next_ok_def)
    with k have "case k x p1 of Inl f \<Rightarrow> good_fail p1 f
      | Inr (y, p2) \<Rightarrow> next_ok p1 p2 \<and> tokens_left p2 \<le> tokens_left p1 \<and> Q y (px_scopes p2)"
      unfolding safe_def by blast
    with 1 show ?thesis
      by (auto simp: pbind_def Inr r next_ok_def good_fail_def split: sum.split_asm sum.split prod.split_asm)
  qed
qed

lemma safe_return [wp]: "Q x s \<Longrightarrow> safe s n (preturn x) Q"
  by (simp add: safe_def preturn_def next_ok_def)

lemma safe_error [wp]: "safe s n (perror code) Q"
  by (simp add: safe_def perror_def good_fail_def compile_error_new_def)

lemma safe_get [wp]: "(\<And>x. Q x s) \<Longrightarrow> safe s n (pget f) Q"
  by (simp add: safe_def pget_def next_ok_def)

lemma safe_on_scopes [wp]: "Q () (f s) \<Longrightarrow> safe s n (on_scopes f) Q"
  by (simp add: safe_def on_scopes_def pmodify_def next_ok_def state_ok_def tokens_left_def)

lemma consume_Inl_good: "consume env p = Inl f \<Longrightarrow> state_ok p \<Longrightarrow> good_fail p f"
  by (auto simp: consume_def rbind_Inl_iff good_fail_def state_ok_def lex_failure_def
      dest!: next_token_failure)

lemma consume_Inr_ok: "consume env p = Inr (t, p') \<Longrightarrow> state_ok p \<Longrightarrow> next_ok p p'"
  by (auto simp: consume_def rbind_Inr_iff next_ok_def state_ok_def dest: next_token_filename)

lemma consume_Inr_frame:
  "consume env p = Inr (t, p') \<Longrightarrow> px_scopes p' = px_scopes p \<and> t = px_token p"
  by (auto simp: consume_def rbind_Inr_iff)

lemma safe_consume [wp]: "(\<And>t. Q t s) \<Longrightarrow> safe s n (consume env) Q"
  unfolding safe_def
  by (auto split: sum.split intro: consume_Inl_good consume_Inr_ok
      dest: consume_Inr_frame consume_not_increases)

lemma arm_consume [wp]:
  assumes "safe s n (k t) Q"
  shows "arm s n t (pbind (consume env) k) Q"
  unfolding arm_def
proof (intro allI impI)
  fix p assume p: "state_ok p" "px_scopes p = s" "px_token p = t" "t \<noteq> TEOF"
    "tokens_left p \<le> Suc n"
  show "case pbind (consume env) k p of Inl f \<Rightarrow> good_fail p f
    | Inr (x, p') \<Rightarrow> next_ok p p' \<and> tokens_left p' < tokens_left p \<and> Q x (px_scopes p')"
  proof (cases "consume env p")
    case (Inl f)
    with p show ?thesis by (simp add: pbind_def consume_Inl_good)
  next
    case (Inr r)
    obtain t' p1 where "r = (t', p1)" by (cases r)
    with consume_Inr_frame[of env p t' p1] Inr p have r: "r = (t, p1)" by simp
    have 1: "next_ok p p1" "px_scopes p1 = s" "tokens_left p1 < tokens_left p"
      using Inr r p by (auto dest: consume_Inr_ok consume_Inr_frame consume_decreases)
    then have "state_ok p1" "tokens_left p1 \<le> n" using p(5) by (auto simp: next_ok_def)
    with 1 assms have "case k t p1 of Inl f \<Rightarrow> good_fail p1 f
      | Inr (y, p2) \<Rightarrow> next_ok p1 p2 \<and> tokens_left p2 \<le> tokens_left p1 \<and> Q y (px_scopes p2)"
      unfolding safe_def by blast
    with 1 show ?thesis
      by (auto simp: pbind_def Inr r next_ok_def good_fail_def split: sum.split_asm sum.split prod.split_asm)
  qed
qed

lemma safe_at_safe: "safe s n m Q \<Longrightarrow> safe_at s n t m Q"
  by (simp add: safe_def safe_at_def)

lemma safe_peek:
  "(\<And>t. safe_at s n t (k t) Q) \<Longrightarrow> safe s n (pbind (pget px_token) k) Q"
  by (simp add: safe_def safe_at_def pbind_def pget_def)

lemma safe_at_consume:
  assumes "safe s n (k t) Q"
  shows "safe_at s n t (pbind (consume env) k) Q"
proof -
  have "safe s n (pbind (consume env) (\<lambda>t'. if t' = t then k t else perror [])) Q"
    by (intro wp) (auto intro: wp assms)
  moreover have "pbind (consume env) (\<lambda>t'. if t' = t then k t else perror []) p
      = pbind (consume env) k p" if "px_token p = t" for p
    using that consume_Inr_frame[of env p]
    by (auto simp: pbind_def rbind_def split: sum.split)
  ultimately show ?thesis unfolding safe_def safe_at_def
    by (intro allI impI) (drule spec, drule mp, assumption, drule mp, assumption, simp)
qed

lemma safe_consume_ident [wp]: "(\<And>x. Q x s) \<Longrightarrow> safe s n (consume_ident env) Q"
  unfolding consume_ident_def
  by (intro wp, simp split: token.split) (blast intro: wp)

lemma safe_consume_string [wp]: "(\<And>x. Q x s) \<Longrightarrow> safe s n (consume_string env) Q"
  unfolding consume_string_def
  by (intro wp, simp split: token.split) (blast intro: wp)

lemma safe_route_count [wp]: "(\<And>x. Q x s) \<Longrightarrow> safe s n (consume_route_count env) Q"
  unfolding consume_route_count_def
  by (intro wp, simp split: token.split) (blast intro: wp)

lemma safe_load_signature [wp]: "(\<And>x. Q x s) \<Longrightarrow> safe s n (load_signature env m) Q"
  by (simp add: safe_def load_signature_def perror_def preturn_def good_fail_def next_ok_def
      compile_error_new_def split: sum.split)

text \<open>The two loops over identifiers.\<close>

definition param_scope :: "param list \<Rightarrow> string list list \<Rightarrow> string list list" where
  "param_scope params = fold add_variable (map param_name params)"

lemma safe_loop:
  assumes step: "\<And>k s p. (\<And>s'. safe s' k m (Q s')) \<Longrightarrow> state_ok p \<Longrightarrow> px_scopes p = s \<Longrightarrow>
      (m p = Inr (x, p) \<and> Q s x s) \<or> (px_token p \<noteq> TEOF \<and> (\<exists>a. m p = a p \<and> arm s k (px_token p) a (Q s)))"
    and stop: "\<And>p. px_token p = TEOF \<Longrightarrow> m p = Inr (x, p)" "\<And>s. Q s x s"
  shows "safe s n m (Q s)"
proof (induction n arbitrary: s)
  case 0
  show ?case
    by (auto simp: safe_def tokens_left_def stop next_ok_def split: if_split_asm)
next
  case (Suc k)
  show ?case
    unfolding safe_def
  proof (intro allI impI)
    fix p assume p: "state_ok p" "px_scopes p = s" "tokens_left p \<le> Suc k"
    from step[of k p s, OF Suc p(1,2)]
    show "case m p of Inl f \<Rightarrow> good_fail p f
      | Inr (y, p') \<Rightarrow> next_ok p p' \<and> tokens_left p' \<le> tokens_left p \<and> Q s y (px_scopes p')"
    proof (elim disjE conjE exE)
      assume "m p = Inr (x, p)" "Q s x s"
      with p show ?thesis by (simp add: next_ok_def)
    next
      fix a assume "px_token p \<noteq> TEOF" "m p = a p" "arm s k (px_token p) a (Q s)"
      with p show ?thesis
        unfolding arm_def by (fastforce split: sum.split_asm sum.split)
    qed
  qed
qed

lemma parse_params_unfold:
  "parse_params env p =
     (case px_token p of
        TIdentifier x \<Rightarrow>
          pbind (consume env) (\<lambda>_. pbind (pget px_token) (\<lambda>t.
            if t = TBang then
              pbind (consume env) (\<lambda>_. pbind (on_scopes (add_variable x)) (\<lambda>_.
              pbind (parse_params env) (\<lambda>ps.
              preturn (\<lparr>param_name = x, param_expand = True\<rparr> # ps))))
            else
              pbind (on_scopes (add_variable x)) (\<lambda>_.
              pbind (parse_params env) (\<lambda>ps.
              preturn (\<lparr>param_name = x, param_expand = False\<rparr> # ps))))) p
      | _ \<Rightarrow> Inr ([], p))"
  by (simp add: parse_params.simps[of env p] pbind_def pget_def on_scopes_def pmodify_def
      preturn_def case_prod_unfold rbind_def split: token.split sum.split)

lemma parse_fields_unfold:
  "parse_fields env p =
     (case px_token p of
        TIdentifier f \<Rightarrow>
          pbind (consume env) (\<lambda>_. pbind (parse_fields env) (\<lambda>fs. preturn (f # fs))) p
      | _ \<Rightarrow> Inr ([], p))"
  by (simp add: parse_fields.simps[of env p] pbind_def preturn_def case_prod_unfold rbind_def
      split: token.split sum.split)

lemma param_scope_simps [simp]:
  "param_scope [] s = s"
  "param_scope (p # ps) s = param_scope ps (add_variable (param_name p) s)"
  by (simp_all add: param_scope_def)

lemma parse_params_safe: "safe s n (parse_params env) (\<lambda>ps s'. s' = param_scope ps s)"
proof (rule safe_loop[where x = "[]"])
  fix k s p assume IH: "\<And>s'. safe s' k (parse_params env) (\<lambda>ps s''. s'' = param_scope ps s')"
  have rec: "safe s' k (parse_params env) R" if "\<And>ps. R ps (param_scope ps s')" for s' R
    by (rule safe_weaken[OF IH]) (simp add: that)
  show "parse_params env p = Inr ([], p) \<and> s = param_scope [] s \<or>
    px_token p \<noteq> TEOF \<and>
    (\<exists>a. parse_params env p = a p \<and> arm s k (px_token p) a (\<lambda>ps s'. s' = param_scope ps s))"
  proof (cases "\<exists>x. px_token p = TIdentifier x")
    case True
    then obtain x where x: "px_token p = TIdentifier x" by blast
    show ?thesis
      unfolding parse_params_unfold[of env p]
      by (auto simp: x intro!: exI wp rec)
  qed (simp add: parse_params_unfold[of env p] split: token.split)
qed (simp_all add: parse_params_unfold)

lemma parse_fields_safe: "safe s n (parse_fields env) (\<lambda>_ s'. s' = s)"
proof (rule safe_loop[where x = "[]" and Q = "\<lambda>s _ s'. s' = s"])
  fix k s p assume IH: "\<And>s'. safe s' k (parse_fields env) (\<lambda>_ s''. s'' = s')"
  have rec: "safe s' k (parse_fields env) R" if "\<And>fs. R fs s'" for s' R
    by (rule safe_weaken[OF IH]) (simp add: that)
  show "parse_fields env p = Inr ([], p) \<and> s = s \<or>
    px_token p \<noteq> TEOF \<and> (\<exists>a. parse_fields env p = a p \<and> arm s k (px_token p) a (\<lambda>_ s'. s' = s))"
  proof (cases "\<exists>x. px_token p = TIdentifier x")
    case True
    then obtain x where x: "px_token p = TIdentifier x" by blast
    show ?thesis
      unfolding parse_fields_unfold[of env p]
      by (auto simp: x intro!: exI wp rec)
  qed (simp add: parse_fields_unfold[of env p] split: token.split)
qed (simp_all add: parse_fields_unfold)

lemma safe_params [wp]:
  "(\<And>ps. Q ps (param_scope ps s)) \<Longrightarrow> safe s n (parse_params env) Q"
  by (rule safe_weaken[OF parse_params_safe]) simp

lemma safe_fields [wp]: "(\<And>fs. Q fs s) \<Longrightarrow> safe s n (parse_fields env) Q"
  by (rule safe_weaken[OF parse_fields_safe]) simp

text \<open>A scope that is pushed, filled with parameters and popped leaves the scopes as they were.\<close>

lemma add_variable_push: "add_variable x (scs @ [vs]) = scs @ [vs @ [x]]"
  by (simp add: add_variable_def)

lemma param_scope_push: "\<exists>vs'. param_scope ps (scs @ [vs]) = scs @ [vs']"
  by (induction ps arbitrary: vs) (auto simp: add_variable_push)

lemma pop_param_scope [simp]: "pop_scope (param_scope ps (push_scope scs)) = scs"
  using param_scope_push[of ps scs "[]"] by (auto simp: push_scope_def pop_scope_def)

lemma pop_add_variable [simp]: "pop_variable (add_variable x scs) = scs"
  by (cases scs rule: rev_cases) (simp_all add: pop_variable_def add_variable_def)

section \<open>The arms, over any action for the recursive calls\<close>

locale descent =
  fixes pe :: "expr parse" and n :: nat
  assumes pe_safe: "safe s n pe (\<lambda>e s'. wf_ast e \<and> s' = s)"
begin

lemma safe_pe [wp]: "(\<And>e. wf_ast e \<Longrightarrow> Q e s) \<Longrightarrow> safe s n pe Q"
  by (rule safe_weaken[OF pe_safe]) simp

lemma safe_args [wp]:
  assumes "\<And>as. list_all wf_ast as \<Longrightarrow> Q as s"
  shows "safe s n (parse_args pe k) Q"
  using assms
proof (induction k arbitrary: Q)
  case (Suc k)
  show ?case
    unfolding parse_args.simps
    by (rule safe_bind, rule safe_pe, rule safe_bind, rule Suc.IH, rule safe_return, rule Suc.prems)
      simp
qed (auto intro: wp)

lemma safe_routes [wp]:
  assumes "\<And>rs. \<forall>(m, p, h) \<in> set rs. wf_ast h \<Longrightarrow> Q rs s"
  shows "safe s n (parse_routes pe k) Q"
  using assms
proof (induction k arbitrary: Q)
  case (Suc k)
  show ?case
    unfolding parse_routes.simps
    by (rule safe_bind, rule safe_pe, rule safe_bind, rule safe_pe, rule safe_bind, rule safe_pe,
        rule safe_bind, rule Suc.IH, rule safe_return, rule Suc.prems) simp
qed (auto intro: wp)

lemma arm_leaf: "wf_ast e \<Longrightarrow> arm s n t (parse_leaf env e) (\<lambda>e s'. wf_ast e \<and> s' = s)"
  unfolding parse_leaf_def by (intro wp) simp

lemma arm_unary:
  "(\<And>e. wf_ast e \<Longrightarrow> wf_ast (C e)) \<Longrightarrow>
   arm s n t (parse_unary env pe C) (\<lambda>e s'. wf_ast e \<and> s' = s)"
  unfolding parse_unary_def by (intro wp) simp

lemma arm_binary:
  "(\<And>a b. wf_ast a \<Longrightarrow> wf_ast b \<Longrightarrow> wf_ast (C a b)) \<Longrightarrow>
   arm s n t (parse_binary env pe C) (\<lambda>e s'. wf_ast e \<and> s' = s)"
  unfolding parse_binary_def by (intro wp) simp

lemma arm_ternary:
  "(\<And>a b c. wf_ast a \<Longrightarrow> wf_ast b \<Longrightarrow> wf_ast c \<Longrightarrow> wf_ast (C a b c)) \<Longrightarrow>
   arm s n t (parse_ternary env pe C) (\<lambda>e s'. wf_ast e \<and> s' = s)"
  unfolding parse_ternary_def by (intro wp) simp

lemma arm_let: "arm s n t (parse_let env pe) (\<lambda>e s'. wf_ast e \<and> s' = s)"
  unfolding parse_let_def by (intro wp) simp

lemma arm_define: "arm s n t (parse_define env pe) (\<lambda>e s'. wf_ast e \<and> s' = s)"
  unfolding parse_define_def by (intro wp) simp

lemma arm_shape: "arm s n t (parse_shape env) (\<lambda>e s'. wf_ast e \<and> s' = s)"
  unfolding parse_shape_def by (intro wp) simp

lemma arm_new: "arm s n t (parse_new env pe) (\<lambda>e s'. wf_ast e \<and> s' = s)"
  unfolding parse_new_def by (intro wp) simp

lemma arm_get: "arm s n t (parse_get env pe) (\<lambda>e s'. wf_ast e \<and> s' = s)"
  unfolding parse_get_def by (intro wp) simp

lemma arm_set: "arm s n t (parse_set env pe) (\<lambda>e s'. wf_ast e \<and> s' = s)"
  unfolding parse_set_def by (intro wp) simp

lemma arm_expand: "arm s n t (parse_expand env) (\<lambda>e s'. wf_ast e \<and> s' = s)"
  unfolding parse_expand_def by (intro wp) simp

lemma arm_metadata: "arm s n t (parse_metadata env pe) (\<lambda>e s'. wf_ast e \<and> s' = s)"
  unfolding parse_metadata_def by (auto intro!: wp)

lemma wf_set_exported: "set_exported e = Some e' \<Longrightarrow> wf_ast e \<Longrightarrow> wf_ast e'"
  by (cases e) (auto simp: set_exported_def)

lemma arm_export: "arm s n t (parse_export env pe) (\<lambda>e s'. wf_ast e \<and> s' = s)"
  unfolding parse_export_def by (auto intro!: wp split: option.split dest: wf_set_exported)

lemma arm_operator:
  "(\<And>a b. wf_ast a \<Longrightarrow> wf_ast b \<Longrightarrow> wf_ast (C t a b)) \<Longrightarrow>
   arm s n t (parse_operator env pe C) (\<lambda>e s'. wf_ast e \<and> s' = s)"
  unfolding parse_operator_def by (intro wp) simp

lemma safe_at_operator:
  "(\<And>a b. wf_ast a \<Longrightarrow> wf_ast b \<Longrightarrow> wf_ast (C t a b)) \<Longrightarrow>
   safe_at s n t (parse_operator env pe C) (\<lambda>e s'. wf_ast e \<and> s' = s)"
  unfolding parse_operator_def by (intro safe_at_consume wp) simp

lemma arm_money: "arm s n t (parse_money env pe) (\<lambda>e s'. wf_ast e \<and> s' = s)"
  unfolding parse_money_def
  by (intro arm_consume safe_peek)
    (auto simp: parse_unary_def parse_leaf_def split: token.split
      intro!: safe_at_operator safe_at_consume wp safe_at_safe[OF safe_error])

lemma arm_apply: "arm s n t (parse_apply env pe k) (\<lambda>e s'. wf_ast e \<and> s' = s)"
  unfolding parse_apply_def by (intro wp) (simp add: list_all_iff)

lemma arm_pack: "arm s n t (parse_pack env pe k) (\<lambda>e s'. wf_ast e \<and> s' = s)"
  unfolding parse_pack_def parse_unary_def by (auto intro!: wp)

lemma arm_otel_emit: "arm s n t (parse_otel_emit env pe) (\<lambda>e s'. wf_ast e \<and> s' = s)"
  unfolding parse_otel_emit_def by (intro wp) simp

lemma arm_map: "arm s n t (parse_map env pe) (\<lambda>e s'. wf_ast e \<and> s' = s)"
  unfolding parse_map_def by (intro wp) simp

lemma arm_time_now: "arm s n t (parse_time_now env pe) (\<lambda>e s'. wf_ast e \<and> s' = s)"
  unfolding parse_time_now_def
  by (intro arm_consume safe_peek)
    (auto intro!: safe_at_operator safe_at_safe[OF safe_return])

lemma arm_time_set: "arm s n t (parse_time_set env pe) (\<lambda>e s'. wf_ast e \<and> s' = s)"
  unfolding parse_time_set_def by (intro wp) simp

lemma safe_imported [wp]:
  "Q () s \<Longrightarrow> safe s n (pmodify (\<lambda>p. p\<lparr>px_imported_shapes := f (px_imported_shapes p)\<rparr>)) Q"
  by (simp add: safe_def pmodify_def next_ok_def state_ok_def tokens_left_def)

lemma arm_import: "arm s n t (parse_import env) (\<lambda>e s'. wf_ast e \<and> s' = s)"
  unfolding parse_import_def
  by (auto intro!: wp split: option.split)

lemma safe_generate [wp]:
  "wf_ast e \<Longrightarrow> Q () s \<Longrightarrow>
   safe s n (pmodify (\<lambda>p. p\<lparr>px_generated := px_generated p @ [e]\<rparr>)) Q"
  by (simp add: safe_def pmodify_def next_ok_def state_ok_def tokens_left_def)

lemma arm_router: "arm s n t (parse_router env pe) (\<lambda>e s'. wf_ast e \<and> s' = s)"
  unfolding parse_router_def
  by (auto intro!: wp split: option.split dest: wf_expand_router)

lemma arm_identifier: "arm s n t (parse_identifier env x) (\<lambda>e s'. wf_ast e \<and> s' = s)"
proof -
  let ?e = "case resolve_variable s x of Some idx \<Rightarrow> DeBruijn idx | None \<Rightarrow> Identifier x"
  have "parse_identifier env x p = parse_leaf env ?e p" if "px_scopes p = s" for p
    using that by (simp add: parse_identifier_def split: option.split)
  moreover have "arm s n t (parse_leaf env ?e) (\<lambda>e s'. wf_ast e \<and> s' = s)"
    by (rule arm_leaf) (simp split: option.split)
  ultimately show ?thesis unfolding arm_def by (intro allI impI) simp
qed

lemma arm_perror: "arm s n t (perror code) Q"
  using safe_error[of s _ code Q] by (auto simp: safe_def arm_def perror_def)

lemmas arms = arm_leaf arm_unary arm_binary arm_ternary arm_let arm_define arm_shape arm_new
  arm_get arm_set arm_expand arm_metadata arm_export arm_money arm_import arm_apply arm_pack
  arm_otel_emit arm_map arm_time_now arm_time_set arm_router arm_identifier arm_operator
  arm_perror

lemma arm_parse_arm: "arm s n t (parse_arm env pe t) (\<lambda>e s'. wf_ast e \<and> s' = s)"
  by (cases t) (simp_all add: parse_arm_def is_binary_operator_def arms)

lemma safe_step: "safe s (Suc n) (parse_step env pe) (\<lambda>e s'. wf_ast e \<and> s' = s)"
  unfolding safe_def
proof (intro allI impI)
  fix p assume p: "state_ok p" "px_scopes p = s" "tokens_left p \<le> Suc n"
  show "case parse_step env pe p of Inl f \<Rightarrow> good_fail p f
    | Inr (e, p') \<Rightarrow> next_ok p p' \<and> tokens_left p' \<le> tokens_left p \<and>
        wf_ast e \<and> px_scopes p' = s"
  proof (cases "px_token p = TEOF")
    case True
    have "safe s (Suc n) (perror ''E001'') (\<lambda>e s'. wf_ast e \<and> s' = s)" by (rule wp)
    with p True show ?thesis
      by (simp add: parse_step_def parse_arm_def is_binary_operator_def safe_def)
  next
    case False
    have "case parse_arm env pe (px_token p) p of Inl f \<Rightarrow> good_fail p f
      | Inr (e, p') \<Rightarrow> next_ok p p' \<and> tokens_left p' < tokens_left p \<and>
          wf_ast e \<and> px_scopes p' = s"
      using arm_parse_arm[of s "px_token p" env] p False unfolding arm_def by blast
    then show ?thesis
      unfolding parse_step_def by (simp split: sum.split_asm sum.split prod.split_asm)
  qed
qed

end

section \<open>Totality\<close>

text \<open>With no token left the fuel is not needed; every recursive call has one token less.\<close>

lemma parse_fuel_safe: "safe s n (parse_fuel env (Suc n)) (\<lambda>e s'. wf_ast e \<and> s' = s)"
proof (induction n arbitrary: s)
  case 0
  have "parse_step env m p = perror ''E001'' p" if "tokens_left p \<le> 0" for m p
    using that
    by (simp add: tokens_left_def parse_step_def parse_arm_def is_binary_operator_def
        split: if_split_asm)
  with safe_error[of s 0 "''E001''" "\<lambda>e s'. wf_ast e \<and> s' = s"] show ?case
    by (simp add: safe_def)
next
  case (Suc n)
  show ?case
    unfolding parse_fuel.simps(2)[of env "Suc n"]
    by (rule descent.safe_step[OF descent.intro], rule Suc)
qed

interpretation parse_rec: descent "parse_fuel env (Suc n)" n for env n
  by unfold_locales (rule parse_fuel_safe)

lemma parse_expr_step:
  assumes "state_ok p" "px_token p \<noteq> TEOF"
  shows "case parse_expr env p of Inl f \<Rightarrow> good_fail p f
    | Inr (e, p') \<Rightarrow> next_ok p p' \<and> tokens_left p' < tokens_left p \<and>
        wf_ast e \<and> px_scopes p' = px_scopes p"
proof -
  obtain k where k: "tokens_left p = Suc k"
    using assms(2) by (simp add: tokens_left_def)
  have "case parse_arm env (parse_fuel env (Suc k)) (px_token p) p of Inl f \<Rightarrow> good_fail p f
    | Inr (e, p') \<Rightarrow> next_ok p p' \<and> tokens_left p' < tokens_left p \<and>
        wf_ast e \<and> px_scopes p' = px_scopes p"
    by (rule parse_rec.arm_parse_arm[of "px_scopes p" k "px_token p" env env, unfolded arm_def,
          rule_format, OF assms(1) refl refl assms(2)]) (simp add: k)
  then show ?thesis
    unfolding parse_expr_def k parse_fuel.simps(2)[of env "Suc k"] parse_step_def .
qed

lemma parse_module_fuel_safe:
  "state_ok p \<Longrightarrow> tokens_left p < n \<Longrightarrow>
   (case parse_module_fuel env n p of Inl f \<Rightarrow> good_fail p f
    | Inr (es, p') \<Rightarrow> next_ok p p' \<and> list_all wf_ast es \<and> px_scopes p' = px_scopes p \<and>
        px_token p' = TEOF)"
proof (induction n arbitrary: p)
  case (Suc n)
  show ?case
  proof (cases "px_token p = TEOF")
    case True
    with Suc.prems show ?thesis by (simp add: next_ok_def)
  next
    case False
    note step = parse_expr_step[OF Suc.prems(1) False, of env]
    show ?thesis
    proof (cases "parse_expr env p")
      case (Inl f)
      with step False show ?thesis by simp
    next
      case (Inr r)
      obtain e p1 where r: "r = (e, p1)" by (cases r)
      let ?p1 = "p1\<lparr>px_generated := []\<rparr>"
      from step Inr r have 1: "next_ok p p1" "tokens_left p1 < tokens_left p" "wf_ast e"
        "px_scopes p1 = px_scopes p" by auto
      then have ok: "state_ok ?p1" and lt: "tokens_left ?p1 < n"
        and gen: "list_all wf_ast (px_generated p1)"
        using Suc.prems(2) by (auto simp: next_ok_def state_ok_def tokens_left_def list_all_iff)
      from Suc.IH[OF ok lt] 1 gen show ?thesis
        by (auto simp: False Inr r next_ok_def good_fail_def split: sum.split_asm sum.split)
    qed
  qed
qed simp

lemma parse_source_safe:
  "case parse_source env import_paths filename src of
     Inl f \<Rightarrow> failure_in filename f
   | Inr es \<Rightarrow> list_all wf_ast es"
proof -
  define lx where "lx = lexer_new src\<lparr>lx_filename := filename\<rparr>"
  show ?thesis
  proof (cases "next_token (env_f64 env) lx")
    case (Inl f)
    then have "lex_failure lx f" by (rule next_token_failure)
    with Inl show ?thesis
      by (auto simp: parse_source_def parser_new_def lx_def lex_failure_def)
  next
    case (Inr r)
    obtain t lx2 where r: "r = (t, lx2)" by (cases r)
    let ?p = "\<lparr>px_lexer = lx2, px_token = t, px_filename = filename, px_scopes = [],
       px_import_paths = import_paths, px_imported_shapes = [], px_generated = []\<rparr>"
    have "state_ok ?p"
      using Inr r next_token_filename[of "env_f64 env" lx t lx2] by (simp add: state_ok_def lx_def)
    from parse_module_fuel_safe[OF this, of "Suc (tokens_left ?p)" env] Inr r show ?thesis
      by (auto simp: parse_source_def parser_new_def lx_def[symmetric] parse_module_def
          good_fail_def split: sum.split_asm sum.split)
  qed
qed

lemma parse_source_wf:
  "parse_source env import_paths filename src = Inr es \<Longrightarrow> list_all wf_ast es"
  using parse_source_safe[where env = env and import_paths = import_paths and filename = filename
      and src = src] by simp

text \<open>C3: the parser returns on every source text.  Whatever the input, the import paths and
  the answers of the signature resolver, \<open>parse_module\<close> on a fresh parser ends, never by
  running out of the fuel that stands for the depth of the descent; an error it reports
  names the file being compiled, the only panics are those of the number literals, and the
  expressions it returns satisfy the conditions the later stages rely on.\<close>

theorem parse_source_total:
  "case parse_source env import_paths filename src of
     Inl f \<Rightarrow> failure_in filename f
   | Inr es \<Rightarrow> list_all wf_ast es"
  by (rule parse_source_safe)

text \<open>C7: an expression is parsed in the scopes it is found in and leaves them as it found
  them, on every arm of \<open>parse_expr\<close>: the variables a \<open>Let\<close> or a definition adds
  are removed again.  It also takes at least one token, and the fuel is enough.\<close>

theorem parse_expr_scopes:
  assumes "lx_filename (px_lexer p) = px_filename p" "px_token p \<noteq> TEOF" "px_generated p = []"
  shows "case parse_expr env p of
      Inl f \<Rightarrow> failure_in (px_filename p) f
    | Inr (e, p') \<Rightarrow> px_scopes p' = px_scopes p \<and> tokens_left p' < tokens_left p \<and> wf_ast e"
proof -
  have "state_ok p" using assms by (simp add: state_ok_def)
  from parse_expr_step[OF this assms(2), of env] show ?thesis
    by (auto simp: good_fail_def split: sum.split_asm sum.split)
qed

text \<open>An environment for concrete runs: no importable module and no float literals.\<close>

definition plain_env :: parse_env where
  "plain_env = \<lparr>env_f64 = \<lparr>f64_parse = (\<lambda>_. None), f64_show = (\<lambda>_. ''0''), f64_money = (\<lambda>_. 0)\<rparr>,
     env_resolver = (\<lambda>_ _ _. Inl ''E017'')\<rparr>"

definition demo_parser :: parser where
  "demo_parser = \<lparr>px_lexer = \<lparr>lx_rest = ''x'', lx_line = 1, lx_filename = ''f''\<rparr>,
     px_token = TBorrow, px_filename = ''f'', px_scopes = [[''x'']], px_import_paths = [],
     px_imported_shapes = [], px_generated = []\<rparr>"

lemma parse_expr_scopes_witness:
  "case parse_expr plain_env demo_parser of
     Inl f \<Rightarrow> failure_in ''f'' f
   | Inr (e, p') \<Rightarrow> px_scopes p' = [[''x'']] \<and> tokens_left p' < 2 \<and> wf_ast e"
  using parse_expr_scopes[of demo_parser plain_env]
  by (simp add: demo_parser_def tokens_left_def numeral_2_eq_2
      split: sum.split_asm sum.split prod.split)

end
