(* ===== verification/Reparse.thy ===== *)
theory Reparse
  imports Printed Parser_Total
begin

text \<open>
  The parser on the tokens of a printed expression.  \<open>reads\<close> says what a parse action does
  in front of a given stream of tokens; the locale \<open>reparser\<close> states the law of the
  recursive calls, its lemmas give the law for one more step of the descent, and the
  interpretation \<open>reparse\<close> discharges it for \<open>parse_fuel\<close> at every fuel.  The
  result is the round trip from expressions to text and back.
\<close>

section \<open>Parsing a stream of tokens\<close>

definition starts :: "token list \<Rightarrow> token" where
  "starts ts = (case ts of [] \<Rightarrow> TEOF | t # _ \<Rightarrow> t)"

lemma starts_simps [simp]: "starts [] = TEOF" "starts (t # ts) = t"
  by (simp_all add: starts_def)

text \<open>The tokens the parser will see, if the rest of the text has no error.\<close>

definition upcoming :: "f64_ops \<Rightarrow> parser \<Rightarrow> token list option" where
  "upcoming fo p =
     (if px_token p = TEOF then Some []
      else map_option ((#) (px_token p)) (scan fo (lx_rest (px_lexer p))))"

definition ready ::
  "parse_env \<Rightarrow> string list \<Rightarrow> string \<Rightarrow> string list list \<Rightarrow> token list \<Rightarrow> parser \<Rightarrow> bool" where
  "ready env paths file scs ts p \<longleftrightarrow>
     upcoming (env_f64 env) p = Some ts \<and> px_scopes p = scs \<and> px_import_paths p = paths \<and>
     px_filename p = file \<and> px_imported_shapes p = [] \<and> px_generated p = []"

definition reads ::
  "parse_env \<Rightarrow> string list \<Rightarrow> string \<Rightarrow> string list list \<Rightarrow> token list \<Rightarrow> 'a parse \<Rightarrow>
   'a \<Rightarrow> string list list \<Rightarrow> token list \<Rightarrow> bool" where
  "reads env paths file scs ts m x scs' ts' \<longleftrightarrow>
     (\<forall>p. ready env paths file scs ts p \<longrightarrow>
        (\<exists>p'. m p = Inr (x, p') \<and> ready env paths file scs' ts' p'))"

lemma ready_starts: "ready env paths file scs ts p \<Longrightarrow> px_token p = starts ts"
  by (auto simp: ready_def upcoming_def split: if_split_asm)

lemma upcoming_length: "upcoming fo p = Some ts \<Longrightarrow> length ts \<le> tokens_left p"
  by (auto simp: upcoming_def tokens_left_def dest: scan_length split: if_split_asm)

named_theorems reading "how the parse actions read a stream of tokens"

lemma reads_return [reading]: "reads env paths file scs ts (preturn x) x scs ts"
  by (simp add: reads_def preturn_def)

lemma reads_bind:
  assumes "reads env paths file scs ts m x scs1 ts1"
    and "reads env paths file scs1 ts1 (k x) y scs2 ts2"
  shows "reads env paths file scs ts (pbind m k) y scs2 ts2"
  unfolding reads_def
proof (intro allI impI)
  fix p assume "ready env paths file scs ts p"
  with assms(1) obtain p1 where "m p = Inr (x, p1)" "ready env paths file scs1 ts1 p1"
    by (auto simp: reads_def)
  moreover from assms(2) this(2) obtain p2 where
    "k x p1 = Inr (y, p2)" "ready env paths file scs2 ts2 p2"
    by (auto simp: reads_def)
  ultimately show "\<exists>p'. pbind m k p = Inr (y, p') \<and> ready env paths file scs2 ts2 p'"
    by (simp add: pbind_def)
qed

lemma consume_ready:
  assumes "ready env paths file scs (t # ts) p"
  shows "\<exists>p'. consume env p = Inr (t, p') \<and> ready env paths file scs ts p'"
proof -
  let ?fo = "env_f64 env"
  have p: "px_token p = t" "t \<noteq> TEOF" "scan ?fo (lx_rest (px_lexer p)) = Some ts"
    using assms by (auto simp: ready_def upcoming_def split: if_split_asm)
  then obtain u r where u: "next_outcome ?fo (lx_rest (px_lexer p)) = Some (u, r)"
    by (auto simp: scan.simps[of ?fo "lx_rest (px_lexer p)"] split: option.split_asm)
  with p(3) have ts: "(if u = TEOF then Some [] else map_option ((#) u) (scan ?fo r)) = Some ts"
    by (simp add: scan.simps[of ?fo "lx_rest (px_lexer p)"])
  obtain lx where lx: "next_token ?fo (px_lexer p) = Inr (u, lx)" "lx_rest lx = r"
    using u outcome_next_token[of ?fo "px_lexer p"]
    by (auto simp: outcome_def split: sum.split_asm)
  let ?p = "p\<lparr>px_token := u, px_lexer := lx\<rparr>"
  have "consume env p = Inr (t, ?p)" by (simp add: consume_def lx p)
  moreover have "ready env paths file scs ts ?p"
    using assms ts by (auto simp: ready_def upcoming_def lx split: if_split_asm)
  ultimately show ?thesis by blast
qed

lemma reads_consume [reading]: "reads env paths file scs (t # ts) (consume env) t scs ts"
  by (simp add: reads_def consume_ready)

lemma reads_consume_ident [reading]:
  "reads env paths file scs (TIdentifier s # ts) (consume_ident env) s scs ts"
  unfolding consume_ident_def by (rule reads_bind[OF reads_consume]) (simp add: reads_return)

lemma reads_consume_string [reading]:
  "reads env paths file scs (TString s # ts) (consume_string env) s scs ts"
  unfolding consume_string_def by (rule reads_bind[OF reads_consume]) (simp add: reads_return)

lemma reads_on_scopes [reading]:
  "reads env paths file scs ts (on_scopes f) () (f scs) ts"
  by (simp add: reads_def on_scopes_def pmodify_def ready_def upcoming_def)

lemma reads_scoped:
  "reads env paths file scs ts (pbind (on_scopes f) (\<lambda>_. preturn x)) x (f scs) ts"
  by (rule reads_bind[OF reads_on_scopes reads_return])

lemma reads_token [reading]:
  "reads env paths file scs ts (pget px_token) (starts ts) scs ts"
  by (auto simp: reads_def pget_def dest: ready_starts)

lemma reads_shape_name [reading]:
  "reads env paths file scs ts
     (pget (\<lambda>p. resolve_shape_name (px_imported_shapes p) name)) name scs ts"
  by (auto simp: reads_def pget_def ready_def)

text \<open>A parse action of the form \<open>pbind (consume env) (\<lambda>_. ...)\<close>.\<close>

lemma reads_after:
  "reads env paths file scs ts (k t) x scs' ts' \<Longrightarrow>
   reads env paths file scs (t # ts) (pbind (consume env) k) x scs' ts'"
  by (rule reads_bind[OF reads_consume])

lemma reads_state:
  "(\<And>p. px_scopes p = scs \<Longrightarrow> m p = m' p) \<Longrightarrow> reads env paths file scs ts m' x scs' ts' \<Longrightarrow>
   reads env paths file scs ts m x scs' ts'"
  by (simp add: reads_def ready_def)

subsection \<open>Parameter and field lists\<close>

text \<open>
  \<open>parse_params\<close> stops at the first token that is not an identifier, or at a backquote if
  the last parameter has none of its own.
\<close>

definition ends_fields :: "token list \<Rightarrow> bool" where
  "ends_fields ts = (case starts ts of TIdentifier x \<Rightarrow> False | _ \<Rightarrow> True)"

lemma ends_fields_iff: "ends_fields ts \<longleftrightarrow> (\<forall>x. starts ts \<noteq> TIdentifier x)"
  by (simp add: ends_fields_def split: token.split)

definition ends_params :: "param list \<Rightarrow> token list \<Rightarrow> bool" where
  "ends_params ps ts \<longleftrightarrow> ends_fields ts \<and>
     (ps \<noteq> [] \<and> \<not> param_expand (last ps) \<longrightarrow> starts ts \<noteq> TBang)"

lemma parse_params_stop:
  "\<forall>x. px_token p \<noteq> TIdentifier x \<Longrightarrow> parse_params env p = Inr ([], p)"
  by (subst parse_params.simps) (simp split: token.split)

lemma starts_param_toks:
  "ps \<noteq> [] \<Longrightarrow> starts (concat (map param_toks ps) @ ts) = TIdentifier (param_name (hd ps))"
  by (cases ps) (simp_all add: param_toks_def)

lemma reads_params [reading]:
  "ends_params ps ts \<Longrightarrow>
   reads env paths file scs (concat (map param_toks ps) @ ts) (parse_params env) ps
     (fold (\<lambda>q. add_variable (param_name q)) ps scs) ts"
proof (induction ps arbitrary: scs)
  case Nil
  have "parse_params env p = Inr ([], p)" if "ready env paths file scs ts p" for p
    using Nil
    by (intro parse_params_stop) (simp add: ready_starts[OF that] ends_params_def ends_fields_iff)
  then show ?case by (simp add: reads_def)
next
  case (Cons q ps)
  let ?rest = "concat (map param_toks ps) @ ts" and ?x = "param_name q"
  have ps: "ends_params ps ts" using Cons.prems by (auto simp: ends_params_def split: if_split_asm)
  show ?case
    unfolding reads_def
  proof (intro allI impI)
    fix p assume p: "ready env paths file scs (concat (map param_toks (q # ps)) @ ts) p"
    then have tok: "px_token p = TIdentifier ?x"
      by (auto simp: param_toks_def dest: ready_starts)
    have "ready env paths file scs
        (TIdentifier ?x # (if param_expand q then [TBang] else []) @ ?rest) p"
      using p by (simp add: param_toks_def)
    from consume_ready[OF this] obtain p1 where p1: "consume env p = Inr (TIdentifier ?x, p1)"
      "ready env paths file scs ((if param_expand q then [TBang] else []) @ ?rest) p1"
      by blast
    have add: "ready env paths file (add_variable ?x scs) us (p2\<lparr>px_scopes := add_variable ?x (px_scopes p2)\<rparr>)"
      if "ready env paths file scs us p2" for us p2
      using that by (auto simp: ready_def upcoming_def split: if_split_asm)
    show "\<exists>p'. parse_params env p = Inr (q # ps, p') \<and>
        ready env paths file (fold (\<lambda>q. add_variable (param_name q)) (q # ps) scs) ts p'"
    proof (cases "param_expand q")
      case True
      with p1(2) obtain p2 where p2: "consume env p1 = Inr (TBang, p2)" "ready env paths file scs ?rest p2"
        using consume_ready by fastforce
      have "px_token p1 = TBang" using p1(2) True by (auto dest: ready_starts)
      with Cons.IH[OF ps] add[OF p2(2)] True tok p1(1) p2(1) show ?thesis
        by (subst parse_params.simps) (fastforce simp: reads_def)
    next
      case False
      with Cons.prems have "starts ?rest \<noteq> TBang"
        by (cases "ps = []") (simp_all add: ends_params_def starts_param_toks)
      then have "px_token p1 \<noteq> TBang" using p1(2) False by (auto dest: ready_starts)
      with Cons.IH[OF ps] add[of ?rest p1] p1 False tok show ?thesis
        by (subst parse_params.simps) (fastforce simp: reads_def)
    qed
  qed
qed

lemma reads_fields [reading]:
  assumes "ends_fields ts"
  shows "reads env paths file scs (map TIdentifier fs @ ts) (parse_fields env) fs scs ts"
proof (induction fs)
  case Nil
  have "parse_fields env p = Inr ([], p)" if "ready env paths file scs ts p" for p
    using assms
    by (subst parse_fields.simps)
       (simp add: ready_starts[OF that] ends_fields_iff split: token.split)
  then show ?case by (simp add: reads_def)
next
  case (Cons f fs)
  show ?case
    unfolding reads_def
  proof (intro allI impI)
    fix p assume p: "ready env paths file scs (map TIdentifier (f # fs) @ ts) p"
    then have "ready env paths file scs (TIdentifier f # map TIdentifier fs @ ts) p" by simp
    from consume_ready[OF this] obtain p1 where "consume env p = Inr (TIdentifier f, p1)"
      "ready env paths file scs (map TIdentifier fs @ ts) p1"
      by blast
    with Cons.IH ready_starts[OF p] show "\<exists>p'. parse_fields env p = Inr (f # fs, p') \<and>
        ready env paths file scs ts p'"
      by (subst parse_fields.simps) (fastforce simp: reads_def)
  qed
qed

text \<open>The scopes around the body of a definition.\<close>

lemma param_scopes:
  "fold (\<lambda>q. add_variable (param_name q)) ps (scs @ [xs]) = scs @ [xs @ map param_name ps]"
  by (induction ps arbitrary: xs) (simp_all add: add_variable_def)

section \<open>Where an expression may stand\<close>

text \<open>
  \<open>fits sg e scs ts\<close>: the tokens of \<open>e\<close>, in the scopes \<open>scs\<close> and in front of
  \<open>ts\<close>, are parsed as \<open>e\<close>.  An identifier must not be a variable in scope (it would be
  an index), the body of a definition must not look like a parameter, a shape must not be
  followed by an identifier nor \<open>tn\<close> by a sign, an imported function must be one, and the
  target of a test must be a definition.  \<open>sg\<close> is the resolver at the paths in force.
\<close>

definition ends_tn :: "token list \<Rightarrow> bool" where
  "ends_tn ts = (starts ts \<noteq> TAdd \<and> starts ts \<noteq> TSub)"

definition importable :: "(string \<Rightarrow> string + string) \<Rightarrow> string \<Rightarrow> string \<Rightarrow> usize \<Rightarrow> bool" where
  "importable sg module symbol arity =
     (case sg module of
        Inl _ \<Rightarrow> False
      | Inr content \<Rightarrow> (case parse_signature content of (funcs, shapes) \<Rightarrow>
          map_of shapes symbol = None \<and> map_of funcs symbol = Some arity))"

type_synonym place = "string list list \<Rightarrow> token list \<Rightarrow> bool"

primrec fits_all :: "place list \<Rightarrow> token list list \<Rightarrow> place" where
  "fits_all [] tss scs ts = True"
| "fits_all (f # fs) tss scs ts = (f scs (concat (tl tss) @ ts) \<and> fits_all fs (tl tss) scs ts)"

primrec fits :: "(string \<Rightarrow> string + string) \<Rightarrow> expr \<Rightarrow> place" where
  "fits sg (Integer i) scs ts = True"
| "fits sg (Float x) scs ts = True"
| "fits sg (DeBruijn idx) scs ts = True"
| "fits sg (Identifier s) scs ts = (resolve_variable scs s = None)"
| "fits sg (BinaryOp tok l r) scs ts = (fits sg l scs (toks r @ ts) \<and> fits sg r scs ts)"
| "fits sg (Apply f args) scs ts =
     (fits sg f scs (concat (map toks args) @ ts) \<and>
      fits_all (map (fits sg) args) (map toks args) scs ts)"
| "fits sg (Move a) scs ts = fits sg a scs ts"
| "fits sg (Borrow a) scs ts = fits sg a scs ts"
| "fits sg (MutBorrow a) scs ts = fits sg a scs ts"
| "fits sg (Define name params body exported) scs ts =
     (ends_params params (toks body @ ts) \<and>
      fits sg body (scs @ [map param_name params]) ts)"
| "fits sg (Shape name flds exported) scs ts = ends_fields ts"
| "fits sg (New shape cnt) scs ts = fits sg cnt scs ts"
| "fits sg (Get inst field idx) scs ts =
     (fits sg inst scs (TIdentifier field # toks idx @ ts) \<and> fits sg idx scs ts)"
| "fits sg (Set inst field idx val) scs ts =
     (fits sg inst scs (TIdentifier field # toks idx @ toks val @ ts) \<and>
      fits sg idx scs (toks val @ ts) \<and> fits sg val scs ts)"
| "fits sg (If c t f) scs ts =
     (fits sg c scs (toks t @ toks f @ ts) \<and> fits sg t scs (toks f @ ts) \<and>
      fits sg f scs ts)"
| "fits sg (Expand name) scs ts = True"
| "fits sg (Let name val body) scs ts =
     (fits sg val scs (toks body @ ts) \<and> fits sg body (add_variable name scs) ts)"
| "fits sg (Import module symbol arity) scs ts = importable sg module symbol arity"
| "fits sg (String s) scs ts = True"
| "fits sg (Len a) scs ts = fits sg a scs ts"
| "fits sg (Cat l r) scs ts = (fits sg l scs (toks r @ ts) \<and> fits sg r scs ts)"
| "fits sg (Sub s st len) scs ts =
     (fits sg s scs (toks st @ toks len @ ts) \<and> fits sg st scs (toks len @ ts) \<and>
      fits sg len scs ts)"
| "fits sg (Loc s pat) scs ts = (fits sg s scs (toks pat @ ts) \<and> fits sg pat scs ts)"
| "fits sg (Reg s pat) scs ts = (fits sg s scs (toks pat @ ts) \<and> fits sg pat scs ts)"
| "fits sg (Read a) scs ts = fits sg a scs ts"
| "fits sg (Write h s) scs ts = (fits sg h scs (toks s @ ts) \<and> fits sg s scs ts)"
| "fits sg (Str a) scs ts = fits sg a scs ts"
| "fits sg (Split s dl i) scs ts =
     (fits sg s scs (toks dl @ toks i @ ts) \<and> fits sg dl scs (toks i @ ts) \<and>
      fits sg i scs ts)"
| "fits sg TimeNow scs ts = ends_tn ts"
| "fits sg TimeNano scs ts = True"
| "fits sg (TimeGet t i) scs ts = (fits sg t scs (toks i @ ts) \<and> fits sg i scs ts)"
| "fits sg (TimeSet y m dy h mn s) scs ts =
     (fits sg y scs (toks m @ toks dy @ toks h @ toks mn @ toks s @ ts) \<and>
      fits sg m scs (toks dy @ toks h @ toks mn @ toks s @ ts) \<and>
      fits sg dy scs (toks h @ toks mn @ toks s @ ts) \<and>
      fits sg h scs (toks mn @ toks s @ ts) \<and> fits sg mn scs (toks s @ ts) \<and>
      fits sg s scs ts)"
| "fits sg (Env a) scs ts = fits sg a scs ts"
| "fits sg (Seq l r) scs ts = (fits sg l scs (toks r @ ts) \<and> fits sg r scs ts)"
| "fits sg (Pack a) scs ts = fits sg a scs ts"
| "fits sg (Unpack a shape) scs ts = fits sg a scs (TString shape # ts)"
| "fits sg (Metadata tag val t) scs ts =
     ((tag = String ''test'' \<longrightarrow> is_define (strip_metadata t)) \<and>
      fits sg tag scs (toks val @ toks t @ ts) \<and> fits sg val scs (toks t @ ts) \<and>
      fits sg t scs ts)"
| "fits sg (OtelEmit t a1 a2 a3) scs ts =
     (fits sg t scs (toks a1 @ toks a2 @ toks a3 @ ts) \<and>
      fits sg a1 scs (toks a2 @ toks a3 @ ts) \<and> fits sg a2 scs (toks a3 @ ts) \<and>
      fits sg a3 scs ts)"
| "fits sg (Map inst field func) scs ts =
     (fits sg inst scs (TString field # toks func @ ts) \<and> fits sg func scs ts)"
| "fits sg (Filter inst func) scs ts =
     (fits sg inst scs (toks func @ ts) \<and> fits sg func scs ts)"
| "fits sg (MoneyOp tok a b) scs ts = (fits sg a scs (toks b @ ts) \<and> fits sg b scs ts)"
| "fits sg (MoneyStr a) scs ts = fits sg a scs ts"
| "fits sg (TimeOp tok a b) scs ts = (fits sg a scs (toks b @ ts) \<and> fits sg b scs ts)"
| "fits sg TimeZone scs ts = True"
| "fits sg (Panic a) scs ts = fits sg a scs ts"
| "fits sg (Trap t f) scs ts = (fits sg t scs (toks f @ ts) \<and> fits sg f scs ts)"
| "fits sg (HttpClient m u b) scs ts =
     (fits sg m scs (toks u @ toks b @ ts) \<and> fits sg u scs (toks b @ ts) \<and>
      fits sg b scs ts)"
| "fits sg (HttpServer op arg) scs ts =
     (fits sg op scs (toks arg @ ts) \<and> fits sg arg scs ts)"
| "fits sg (HttpHeader req name) scs ts =
     (fits sg req scs (toks name @ ts) \<and> fits sg name scs ts)"
| "fits sg (FileOpen p m) scs ts = (fits sg p scs (toks m @ ts) \<and> fits sg m scs ts)"

section \<open>One step of the descent\<close>

locale reparser =
  fixes pe :: "expr parse" and env :: parse_env and n :: nat
  assumes pe_reads:
    "length (toks e) \<le> n \<Longrightarrow> spellable (env_f64 env) e \<Longrightarrow>
     fits (\<lambda>m. env_resolver env m paths file) e scs ts \<Longrightarrow>
     reads env paths file scs (toks e @ ts) pe e scs ts"
begin

lemma reads_pe:
  assumes "length (toks a) \<le> n" "spellable (env_f64 env) a"
    "fits (\<lambda>m. env_resolver env m paths file) a scs ts"
    "reads env paths file scs ts (k a) x scs' ts'"
  shows "reads env paths file scs (toks a @ ts) (pbind pe k) x scs' ts'"
  by (rule reads_bind) (rule pe_reads[OF assms(1,2,3)], rule assms(4))

lemma reads_arm:
  "reads env paths file scs (t # ts) (parse_arm env pe t) x scs' ts' \<Longrightarrow>
   reads env paths file scs (t # ts) (parse_step env pe) x scs' ts'"
  unfolding reads_def parse_step_def by (metis ready_starts starts_simps(2))

lemma reads_args:
  assumes "list_all (\<lambda>a. length (toks a) \<le> n \<and> spellable (env_f64 env) a) args"
    "fits_all (map (fits (\<lambda>m. env_resolver env m paths file)) args) (map toks args) scs ts"
  shows "reads env paths file scs (concat (map toks args) @ ts) (parse_args pe (length args)) args scs ts"
  using assms
proof (induction args)
  case (Cons a args)
  from Cons have "reads env paths file scs (concat (map toks args) @ ts)
      (pbind (parse_args pe (length args)) (\<lambda>as. preturn (a # as))) (a # args) scs ts"
    by (intro reads_bind[OF Cons.IH reads_return]) auto
  with Cons.prems show ?case by (auto intro!: reads_pe)
qed (simp add: reads_return)

lemmas arm_defs = parse_arm_def parse_leaf_def parse_unary_def parse_binary_def
  parse_ternary_def parse_operator_def

lemma reads_params_body:
  assumes "ends_params ps (toks b @ ts)" "length (toks b) \<le> n" "spellable (env_f64 env) b"
    "fits (\<lambda>m. env_resolver env m paths file) b (scs @ [map param_name ps]) ts"
  shows "reads env paths file scs (TDefine # TIdentifier name # concat (map param_toks ps) @ toks b @ ts)
    (parse_define env pe) (Define name ps b False) scs ts"
proof -
  let ?in = "scs @ [map param_name ps]"
  have "reads env paths file ?in ts (pbind (on_scopes pop_scope) (\<lambda>_. preturn (Define name ps b False)))
      (Define name ps b False) scs ts"
    using reads_scoped[of env paths "file" ?in ts pop_scope "Define name ps b False"]
    by (simp add: pop_scope_def)
  with assms(2-4) have "reads env paths file ?in (toks b @ ts)
      (pbind pe (\<lambda>b. pbind (on_scopes pop_scope) (\<lambda>_. preturn (Define name ps b False))))
      (Define name ps b False) scs ts"
    by (rule reads_pe)
  then show ?thesis
    unfolding parse_define_def
    by (intro reads_after reads_bind[OF reads_consume_ident] reads_bind[OF reads_on_scopes]
        reads_bind[OF reads_params[OF assms(1)]]) (simp add: push_scope_def param_scopes)
qed

lemma reads_shape:
  assumes "ends_fields ts"
  shows "reads env paths file scs (TShape # TIdentifier name # map TIdentifier fs @ ts)
    (parse_shape env) (Shape name fs False) scs ts"
  unfolding parse_shape_def
  by (intro reads_after reads_bind[OF reads_consume_ident] reads_bind[OF _ reads_return])
     (rule reads_fields[OF assms])

lemma reads_export:
  assumes "reads env paths file scs us pe e scs ts" "set_exported e = Some e'"
  shows "reads env paths file scs (TExport # us) (parse_export env pe) e' scs ts"
  unfolding parse_export_def
  by (intro reads_after reads_bind[OF assms(1)]) (simp add: assms(2) reads_return)

lemma reads_importable:
  assumes "importable (\<lambda>m. env_resolver env m paths file) module symbol arity"
    "name_ok module \<or> module = ''http''"
  shows "reads env paths file scs (TImport # keyword_token module # TIdentifier symbol # ts)
    (parse_import env) (Import module symbol arity) scs ts"
proof -
  obtain funcs shapes content where c: "env_resolver env module paths file = Inr content"
    "parse_signature content = (funcs, shapes)" "map_of shapes symbol = None"
    "map_of funcs symbol = Some arity"
    using assms(1) by (auto simp: importable_def split: sum.split_asm)
  have m: "import_module_name (keyword_token module) = Some module"
    using assms(2) keyword_http by (auto simp: import_module_name_def name_ok_def keyword_token_def)
  have "reads env paths file scs ts (load_signature env module) (funcs, shapes) scs ts"
    by (simp add: reads_def ready_def load_signature_def preturn_def c)
  then have "reads env paths file scs ts
      (pbind (load_signature env module) (\<lambda>(funcs, shapes). case map_of shapes symbol of
         Some fs \<Rightarrow>
           pbind (pmodify (\<lambda>p. p\<lparr>px_imported_shapes := px_imported_shapes p @ [(symbol, module)]\<rparr>))
             (\<lambda>_. preturn (Shape (module @ ''_'' @ symbol) fs False))
       | None \<Rightarrow> (case map_of funcs symbol of
           Some arity \<Rightarrow> preturn (Import module symbol arity) | None \<Rightarrow> perror ''E018'')))
      (Import module symbol arity) scs ts"
    by (rule reads_bind) (simp add: c reads_return)
  then show ?thesis
    unfolding parse_import_def
    by (intro reads_after) (simp add: m reads_bind[where x = symbol, OF reads_consume_ident])
qed

lemma reads_step:
  assumes "length (toks e) \<le> Suc n" "spellable (env_f64 env) e"
    "fits (\<lambda>m. env_resolver env m paths file) e scs ts"
  shows "reads env paths file scs (toks e @ ts) (parse_step env pe) e scs ts"
  using assms
proof (cases e)
  case (Define name ps b ex)
  note inner = assms(1,2,3)[unfolded Define, simplified]
  show ?thesis
  proof (cases ex)
    case True
    have "reads env paths file scs (toks (Define name ps b False) @ ts) pe (Define name ps b False) scs ts"
      by (rule pe_reads) (use inner True in \<open>simp_all add: export_toks_def\<close>)
    from reads_export[OF this, of "Define name ps b True"] True show ?thesis
      by (auto intro!: reads_arm simp: Define parse_arm_def export_toks_def set_exported_def)
  next
    case False
    with reads_params_body[of ps b ts paths "file" scs name] inner show ?thesis
      by (auto intro!: reads_arm simp: Define parse_arm_def export_toks_def)
  qed
next
  case (Shape name fs ex)
  note inner = assms(1,2,3)[unfolded Shape, simplified]
  show ?thesis
  proof (cases ex)
    case True
    have "reads env paths file scs (toks (Shape name fs False) @ ts) pe (Shape name fs False) scs ts"
      by (rule pe_reads) (use inner True in \<open>simp_all add: export_toks_def\<close>)
    from reads_export[OF this, of "Shape name fs True"] True show ?thesis
      by (auto intro!: reads_arm simp: Shape parse_arm_def export_toks_def set_exported_def)
  next
    case False
    with reads_shape[of ts paths "file" scs name fs] inner show ?thesis
      by (auto intro!: reads_arm simp: Shape parse_arm_def export_toks_def)
  qed
next
  case (Identifier x)
  have "reads env paths file scs (TIdentifier x # ts) (parse_leaf env (Identifier x)) (Identifier x) scs ts"
    by (simp add: parse_leaf_def reads_after reads_return)
  from reads_state[OF _ this, of "parse_identifier env x"] assms(3) Identifier show ?thesis
    by (auto intro!: reads_arm simp: parse_arm_def parse_identifier_def)
next
  case (Apply f args)
  have "list_all (\<lambda>a. length (toks a) \<le> n \<and> spellable (env_f64 env) a) args"
    using assms(1,2) Apply member_le_sum_list[of _ "map length (map toks args)"]
    by (fastforce simp: list_all_iff length_concat)
  with assms Apply reads_bind[OF reads_args reads_return] show ?thesis
    by (auto intro!: reads_arm reads_after reads_pe simp: parse_arm_def parse_apply_def)
next
  case TimeNow
  then show ?thesis using assms(3)
    by (auto intro!: reads_arm reads_after reads_bind[OF reads_token]
        simp: parse_arm_def parse_time_now_def ends_tn_def reads_return)
next
  case (TimeOp t a b)
  then have "t = TAdd \<or> t = TSub" using assms(2) by simp
  with TimeOp assms show ?thesis
    by (auto intro!: reads_arm reads_after reads_bind[OF reads_token] reads_pe reads_return
        simp: parse_arm_def parse_time_now_def parse_operator_def)
next
  case (MoneyOp t a b)
  then have "t = TAdd \<or> t = TSub \<or> t = TMul \<or> t = TDiv" using assms(2) by simp
  with MoneyOp assms show ?thesis
    by (auto intro!: reads_arm reads_after reads_bind[OF reads_token] reads_pe reads_return
        simp: parse_arm_def parse_money_def parse_operator_def)
next
  case (BinaryOp t a b)
  then have t: "op_ok t" using assms(2) by simp
  then have "parse_arm env pe t = parse_operator env pe BinaryOp"
    by (auto simp: op_ok_def parse_arm_def is_binary_operator_def)
  with BinaryOp assms show ?thesis
    by (auto intro!: reads_arm reads_after reads_pe reads_return simp: parse_operator_def)
next
  case (Let x v b)
  have "reads env paths file (add_variable x scs) ts
      (pbind (on_scopes pop_variable) (\<lambda>_. preturn e)) e scs ts"
    using reads_scoped[of env paths "file" "add_variable x scs" ts pop_variable e] by simp
  with Let assms show ?thesis
    by (auto intro!: reads_arm reads_after reads_pe reads_bind[OF reads_consume_ident]
        reads_bind[OF reads_on_scopes] simp: parse_arm_def parse_let_def)
next
  case (Metadata tag v t)
  with assms show ?thesis
    by (auto intro!: reads_arm reads_after reads_pe reads_return
        simp: parse_arm_def parse_metadata_def)
qed (auto intro!: reads_arm reads_after reads_pe reads_return reads_importable
      reads_bind[OF reads_consume_ident] reads_bind[OF reads_consume_string]
      reads_bind[OF reads_token] reads_bind[OF reads_shape_name]
      simp: arm_defs parse_new_def parse_get_def parse_set_def parse_expand_def parse_pack_def
        parse_otel_emit_def parse_map_def parse_time_set_def parse_money_def)

end

section \<open>The descent and the module\<close>

lemma toks_nonempty [simp]: "toks e \<noteq> []"
  by (cases e) simp_all

lemma fuel_reader: "reparser (parse_fuel env n) env n"
proof (induction n)
  case (Suc n)
  show ?case
    using reparser.reads_step[OF Suc] by (simp add: reparser_def)
qed (unfold_locales, simp)

interpretation reparse: reparser "parse_fuel env n" env n for env n
  by (rule fuel_reader)

lemma reads_parse_expr:
  assumes "spellable (env_f64 env) e" "fits (\<lambda>m. env_resolver env m paths file) e scs ts"
  shows "reads env paths file scs (toks e @ ts) (parse_expr env) e scs ts"
  unfolding reads_def
proof (intro allI impI)
  fix p assume p: "ready env paths file scs (toks e @ ts) p"
  then have "length (toks e) \<le> Suc (tokens_left p)"
    using upcoming_length[of "env_f64 env" p "toks e @ ts"] by (simp add: ready_def)
  from reparse.pe_reads[OF this assms] p
  show "\<exists>p'. parse_expr env p = Inr (e, p') \<and> ready env paths file scs ts p'"
    by (simp add: reads_def parse_expr_def)
qed

text \<open>Every expression of a module, in front of the ones that follow it.\<close>

primrec fits_module :: "(string \<Rightarrow> string + string) \<Rightarrow> expr list \<Rightarrow> bool" where
  "fits_module sg [] = True"
| "fits_module sg (e # es) = (fits sg e [] (concat (map toks es)) \<and> fits_module sg es)"

lemma ready_eof_iff: "ready env paths file scs ts p \<Longrightarrow> px_token p = TEOF \<longleftrightarrow> ts = []"
  by (auto simp: ready_def upcoming_def split: if_split_asm)

lemma parse_module_fuel_reads:
  assumes "list_all (spellable (env_f64 env)) es"
    "fits_module (\<lambda>m. env_resolver env m paths file) es"
    "ready env paths file [] (concat (map toks es)) p" "length es < n"
  shows "\<exists>p'. parse_module_fuel env n p = Inr (es, p')"
  using assms
proof (induction es arbitrary: n p)
  case Nil
  then show ?case by (cases n) (simp_all add: ready_eof_iff)
next
  case (Cons e es)
  obtain m where n: "n = Suc m" using Cons.prems(4) by (cases n) simp_all
  let ?ts = "concat (map toks es)"
  have ne: "px_token p \<noteq> TEOF" using Cons.prems(3) by (simp add: ready_eof_iff)
  have "reads env paths file [] (toks e @ ?ts) (parse_expr env) e [] ?ts"
    by (rule reads_parse_expr) (use Cons.prems in simp_all)
  with Cons.prems(3) obtain p1 where p1: "parse_expr env p = Inr (e, p1)"
    "ready env paths file [] ?ts p1"
    by (auto simp: reads_def)
  then have gen: "px_generated p1 = []" and
    "ready env paths file [] ?ts (p1\<lparr>px_generated := []\<rparr>)"
    by (auto simp: ready_def upcoming_def split: if_split_asm)
  from Cons.IH[OF _ _ this(2), of m] Cons.prems n obtain p2 where
    "parse_module_fuel env m (p1\<lparr>px_generated := []\<rparr>) = Inr (es, p2)" by auto
  with ne p1 gen show ?case by (simp add: n)
qed

lemma sum_list_nonempty: "length es \<le> length (concat (map toks es))"
proof (induction es)
  case (Cons e es)
  then show ?case using toks_nonempty[of e] by (cases "toks e") auto
qed simp

text \<open>A new parser is in front of the tokens of its text.\<close>

lemma parser_new_ready:
  assumes "scan (env_f64 env) src = Some ts"
  shows "\<exists>p. parser_new env (lexer_new src) file = Inr p \<and>
    ready env paths file [] ts (p\<lparr>px_import_paths := paths\<rparr>)"
proof -
  let ?fo = "env_f64 env" and ?lx = "lexer_new src\<lparr>lx_filename := file\<rparr>"
  obtain t r where t: "next_outcome ?fo src = Some (t, r)"
    using assms by (auto simp: scan.simps[of ?fo src] split: option.split_asm)
  then obtain lx where lx: "next_token ?fo ?lx = Inr (t, lx)" "lx_rest lx = r"
    using outcome_next_token[of ?fo ?lx] by (auto simp: outcome_def split: sum.split_asm)
  then show ?thesis
    using assms t
    by (auto simp: parser_new_def ready_def upcoming_def scan.simps[of ?fo src] split: if_split_asm)
qed

text \<open>A text whose tokens are those of a list of expressions is parsed as this list.\<close>

lemma parse_source_reads:
  assumes "scan (env_f64 env) src = Some (concat (map toks es))"
    "list_all (spellable (env_f64 env)) es"
    "fits_module (\<lambda>m. env_resolver env m paths file) es"
  shows "parse_source env paths file src = Inr es"
proof -
  obtain p where p: "parser_new env (lexer_new src) file = Inr p"
    "ready env paths file [] (concat (map toks es)) (p\<lparr>px_import_paths := paths\<rparr>)"
    using parser_new_ready[OF assms(1)] by blast
  let ?p = "p\<lparr>px_import_paths := paths\<rparr>"
  from p(2) have "length es < Suc (tokens_left ?p)"
    using upcoming_length[of "env_f64 env" ?p "concat (map toks es)"] sum_list_nonempty[of es] by (simp add: ready_def)
  from parse_module_fuel_reads[OF assms(2,3) p(2) this] show ?thesis
    by (auto simp: parse_source_def p(1) parse_module_def)
qed

end
