(* ===== verification/Analysis.thy ===== *)
theory Analysis
  imports Syntax
begin

text \<open>
  The analyses of \<open>analysis/mod.rs\<close> on one expression: which expressions return an owned
  pointer, which are pure, their complexity, the names they call, and the structural
  fingerprint.  The \<open>&mut Vec\<close> and \<open>&mut String\<close> of the collecting functions are passed in
  and returned.  \<open>subs\<close> is a reference notion of subexpression the lemmas compare with.
\<close>

section \<open>The analyses\<close>

text \<open>A list of state transformers, applied from the left.\<close>

definition in_order :: "('a \<Rightarrow> 'a) list \<Rightarrow> 'a \<Rightarrow> 'a" where
  "in_order fs x = fold (\<lambda>f. f) fs x"

lemma in_order_simps [simp]:
  "in_order [] x = x"
  "in_order (f # fs) x = in_order fs (f x)"
  by (simp_all add: in_order_def)

subsection \<open>Owned pointers\<close>

definition ptr_fn_names :: "string list" where
  "ptr_fn_names = [
     ''http_get'', ''http_post'', ''get'', ''post'', ''json_parse'', ''parse'',
     ''json_stringify'', ''stringify'', ''json_get_str'', ''get_str'',
     ''sign'', ''encrypt'', ''decrypt'', ''unwrap'', ''serve'', ''https_serve'', ''accept'',
     ''decode'', ''encode_b64url'', ''decode_b64url'', ''greet'',
     ''connect'', ''connect_binding'', ''query'', ''error'',
     ''db_connect'', ''db_connect_binding'', ''db_query'', ''db_error'']"

definition ptr_fn_suffixes :: "string list" where
  "ptr_fn_suffixes = [
     ''_get'', ''_post'', ''_parse'', ''_stringify'', ''_get_str'', ''_sign'', ''_encrypt'',
     ''_decrypt'', ''_unwrap'', ''_serve'', ''_https_serve'', ''_accept'', ''_decode'',
     ''_encode_b64url'', ''_decode_b64url'', ''_greet'', ''_connect'', ''_connect_binding'',
     ''_query'', ''_error'']"

definition is_ptr_fn :: "string \<Rightarrow> bool" where
  "is_ptr_fn name =
     (name \<in> set ptr_fn_names \<or> list_ex (\<lambda>suffix. ends_with name suffix) ptr_fn_suffixes)"

definition apply_returns_ptr :: "expr \<Rightarrow> (string \<Rightarrow> bool option) \<Rightarrow> bool" where
  "apply_returns_ptr f fns =
     (case f of
        Identifier name \<Rightarrow>
          is_ptr_fn name \<or> (case fns name of Some ret \<Rightarrow> ret | None \<Rightarrow> False)
      | _ \<Rightarrow> False)"

primrec returns_ptr_with_stack :: "expr \<Rightarrow> bool list \<Rightarrow> (string \<Rightarrow> bool option) \<Rightarrow> bool" where
  "returns_ptr_with_stack (Integer i) stack_ptrs fns = False"
| "returns_ptr_with_stack (Float x) stack_ptrs fns = False"
| "returns_ptr_with_stack (DeBruijn idx) stack_ptrs fns =
     (if idx < length stack_ptrs then stack_ptrs ! (length stack_ptrs - 1 - idx) else False)"
| "returns_ptr_with_stack (Identifier s) stack_ptrs fns = False"
| "returns_ptr_with_stack (BinaryOp tok l r) stack_ptrs fns = False"
| "returns_ptr_with_stack (Apply f args) stack_ptrs fns = apply_returns_ptr f fns"
| "returns_ptr_with_stack (Move e) stack_ptrs fns = returns_ptr_with_stack e stack_ptrs fns"
| "returns_ptr_with_stack (Borrow e) stack_ptrs fns = returns_ptr_with_stack e stack_ptrs fns"
| "returns_ptr_with_stack (MutBorrow e) stack_ptrs fns = returns_ptr_with_stack e stack_ptrs fns"
| "returns_ptr_with_stack (Define name params body exported) stack_ptrs fns = False"
| "returns_ptr_with_stack (Shape name fs exported) stack_ptrs fns = False"
| "returns_ptr_with_stack (New shape cnt) stack_ptrs fns = True"
| "returns_ptr_with_stack (Get inst field idx) stack_ptrs fns = False"
| "returns_ptr_with_stack (Set inst field idx val) stack_ptrs fns =
     returns_ptr_with_stack val stack_ptrs fns"
| "returns_ptr_with_stack (If c t f) stack_ptrs fns =
     (returns_ptr_with_stack t stack_ptrs fns \<or> returns_ptr_with_stack f stack_ptrs fns)"
| "returns_ptr_with_stack (Expand name) stack_ptrs fns = False"
| "returns_ptr_with_stack (Let name val body) stack_ptrs fns =
     returns_ptr_with_stack body (stack_ptrs @ [returns_ptr_with_stack val stack_ptrs fns]) fns"
| "returns_ptr_with_stack (Import module symbol arity) stack_ptrs fns = False"
| "returns_ptr_with_stack (String s) stack_ptrs fns = True"
| "returns_ptr_with_stack (Len e) stack_ptrs fns = False"
| "returns_ptr_with_stack (Cat l r) stack_ptrs fns = True"
| "returns_ptr_with_stack (Sub s st len) stack_ptrs fns = True"
| "returns_ptr_with_stack (Loc s pat) stack_ptrs fns = False"
| "returns_ptr_with_stack (Reg s pat) stack_ptrs fns = False"
| "returns_ptr_with_stack (Read h) stack_ptrs fns = True"
| "returns_ptr_with_stack (Write h s) stack_ptrs fns = False"
| "returns_ptr_with_stack (Str e) stack_ptrs fns = True"
| "returns_ptr_with_stack (Split s dl i) stack_ptrs fns = True"
| "returns_ptr_with_stack TimeNow stack_ptrs fns = False"
| "returns_ptr_with_stack TimeNano stack_ptrs fns = False"
| "returns_ptr_with_stack (TimeGet t i) stack_ptrs fns = False"
| "returns_ptr_with_stack (TimeSet y m dy h mn s) stack_ptrs fns = False"
| "returns_ptr_with_stack (Env k) stack_ptrs fns = True"
| "returns_ptr_with_stack (Seq l r) stack_ptrs fns = returns_ptr_with_stack r stack_ptrs fns"
| "returns_ptr_with_stack (Pack e) stack_ptrs fns = True"
| "returns_ptr_with_stack (Unpack e shape) stack_ptrs fns = True"
| "returns_ptr_with_stack (Metadata tag val t) stack_ptrs fns = returns_ptr_with_stack t stack_ptrs fns"
| "returns_ptr_with_stack (OtelEmit t a1 a2 a3) stack_ptrs fns = True"
| "returns_ptr_with_stack (Map inst field func) stack_ptrs fns = True"
| "returns_ptr_with_stack (Filter inst func) stack_ptrs fns = True"
| "returns_ptr_with_stack (MoneyOp tok a b) stack_ptrs fns = False"
| "returns_ptr_with_stack (MoneyStr e) stack_ptrs fns = True"
| "returns_ptr_with_stack (TimeOp tok a b) stack_ptrs fns = False"
| "returns_ptr_with_stack TimeZone stack_ptrs fns = True"
| "returns_ptr_with_stack (Panic e) stack_ptrs fns = False"
| "returns_ptr_with_stack (Trap t f) stack_ptrs fns =
     (returns_ptr_with_stack t stack_ptrs fns \<or> returns_ptr_with_stack f stack_ptrs fns)"
| "returns_ptr_with_stack (HttpClient m u b) stack_ptrs fns = True"
| "returns_ptr_with_stack (HttpServer op arg) stack_ptrs fns =
     (op \<in> {Integer 0, Integer 1, Integer 2, Integer 3})"
| "returns_ptr_with_stack (HttpHeader req name) stack_ptrs fns = True"
| "returns_ptr_with_stack (FileOpen p m) stack_ptrs fns = True"

definition returns_ptr :: "expr \<Rightarrow> bool" where
  "returns_ptr e = returns_ptr_with_stack e [] Map.empty"

subsection \<open>Purity and complexity\<close>

primrec is_pure :: "expr \<Rightarrow> bool" where
  "is_pure (Integer i) = True"
| "is_pure (Float x) = True"
| "is_pure (DeBruijn idx) = True"
| "is_pure (Identifier s) = True"
| "is_pure (BinaryOp tok l r) = (is_pure l \<and> is_pure r)"
| "is_pure (Apply f args) = (is_pure f \<and> list_all (\<lambda>b. b) (map is_pure args))"
| "is_pure (Move e) = is_pure e"
| "is_pure (Borrow e) = is_pure e"
| "is_pure (MutBorrow e) = is_pure e"
| "is_pure (Define name params body exported) = is_pure body"
| "is_pure (Shape name fs exported) = True"
| "is_pure (New shape cnt) = is_pure cnt"
| "is_pure (Get inst field idx) = (is_pure inst \<and> is_pure idx)"
| "is_pure (Set inst field idx val) = False"
| "is_pure (If c t f) = (is_pure c \<and> is_pure t \<and> is_pure f)"
| "is_pure (Expand name) = True"
| "is_pure (Let name val body) = (is_pure val \<and> is_pure body)"
| "is_pure (Import module symbol arity) = False"
| "is_pure (String s) = True"
| "is_pure (Len e) = is_pure e"
| "is_pure (Cat l r) = (is_pure l \<and> is_pure r)"
| "is_pure (Sub s st len) = (is_pure s \<and> is_pure st \<and> is_pure len)"
| "is_pure (Loc s pat) = (is_pure s \<and> is_pure pat)"
| "is_pure (Reg s pat) = (is_pure s \<and> is_pure pat)"
| "is_pure (Read h) = False"
| "is_pure (Write h s) = False"
| "is_pure (Str e) = is_pure e"
| "is_pure (Split s dl i) = (is_pure s \<and> is_pure dl \<and> is_pure i)"
| "is_pure TimeNow = False"
| "is_pure TimeNano = False"
| "is_pure (TimeGet t i) = (is_pure t \<and> is_pure i)"
| "is_pure (TimeSet y m dy h mn s) =
     (is_pure y \<and> is_pure m \<and> is_pure dy \<and> is_pure h \<and> is_pure mn \<and> is_pure s)"
| "is_pure (Env k) = False"
| "is_pure (Seq l r) = (is_pure l \<and> is_pure r)"
| "is_pure (Pack e) = is_pure e"
| "is_pure (Unpack e shape) = is_pure e"
| "is_pure (Metadata tag val t) = is_pure t"
| "is_pure (OtelEmit t a1 a2 a3) = False"
| "is_pure (Map inst field func) = (is_pure inst \<and> is_pure func)"
| "is_pure (Filter inst func) = (is_pure inst \<and> is_pure func)"
| "is_pure (MoneyOp tok a b) = (is_pure a \<and> is_pure b)"
| "is_pure (MoneyStr e) = is_pure e"
| "is_pure (TimeOp tok a b) = (is_pure a \<and> is_pure b)"
| "is_pure TimeZone = True"
| "is_pure (Panic e) = False"
| "is_pure (Trap t f) = False"
| "is_pure (HttpClient m u b) = False"
| "is_pure (HttpServer op arg) = False"
| "is_pure (HttpHeader req name) = False"
| "is_pure (FileOpen p m) = False"

primrec complexity :: "expr \<Rightarrow> nat" where
  "complexity (Integer i) = 1"
| "complexity (Float x) = 1"
| "complexity (DeBruijn idx) = 1"
| "complexity (Identifier s) = 1"
| "complexity (BinaryOp tok l r) = 5 + complexity l + complexity r"
| "complexity (Apply f args) = complexity f + sum_list (map complexity args) + 5"
| "complexity (Move e) = 1 + complexity e"
| "complexity (Borrow e) = 1 + complexity e"
| "complexity (MutBorrow e) = 1 + complexity e"
| "complexity (Define name params body exported) = complexity body"
| "complexity (Shape name fs exported) = 1"
| "complexity (New shape cnt) = 10 + complexity cnt"
| "complexity (Get inst field idx) = 2 + complexity inst + complexity idx"
| "complexity (Set inst field idx val) = 2 + complexity inst + complexity idx + complexity val"
| "complexity (If c t f) = 1 + complexity c + complexity t + complexity f"
| "complexity (Expand name) = 1"
| "complexity (Let name val body) = 1 + complexity val + complexity body"
| "complexity (Import module symbol arity) = 1"
| "complexity (String s) = 1"
| "complexity (Len e) = 1 + complexity e"
| "complexity (Cat l r) = 5 + complexity l + complexity r"
| "complexity (Sub s st len) = 5 + complexity s + complexity st + complexity len"
| "complexity (Loc s pat) = 5 + complexity s + complexity pat"
| "complexity (Reg s pat) = 5 + complexity s + complexity pat"
| "complexity (Read h) = 1 + complexity h"
| "complexity (Write h s) = 1 + complexity h + complexity s"
| "complexity (Str e) = 1 + complexity e"
| "complexity (Split s dl i) = 5 + complexity s + complexity dl + complexity i"
| "complexity TimeNow = 5"
| "complexity TimeNano = 5"
| "complexity (TimeGet t i) = 5 + complexity t + complexity i"
| "complexity (TimeSet y m dy h mn s) =
     10 + complexity y + complexity m + complexity dy + complexity h + complexity mn + complexity s"
| "complexity (Env k) = 5"
| "complexity (Seq l r) = 5 + complexity l + complexity r"
| "complexity (Pack e) = 10 + complexity e"
| "complexity (Unpack e shape) = 10 + complexity e"
| "complexity (Metadata tag val t) = complexity tag + complexity val + complexity t"
| "complexity (OtelEmit t a1 a2 a3) = 10 + complexity t + complexity a1 + complexity a2 + complexity a3"
| "complexity (Map inst field func) = 20 + complexity inst + complexity func"
| "complexity (Filter inst func) = 20 + complexity inst + complexity func"
| "complexity (MoneyOp tok a b) = 5 + complexity a + complexity b"
| "complexity (MoneyStr e) = 10 + complexity e"
| "complexity (TimeOp tok a b) = 5 + complexity a + complexity b"
| "complexity TimeZone = 5"
| "complexity (Panic e) = 10 + complexity e"
| "complexity (Trap t f) = 20 + complexity t + complexity f"
| "complexity (HttpClient m u b) = 10 + complexity m + complexity u + complexity b"
| "complexity (HttpServer op arg) = 10 + complexity op + complexity arg"
| "complexity (HttpHeader req name) = 10 + complexity req + complexity name"
| "complexity (FileOpen p m) = 10 + complexity p + complexity m"

subsection \<open>Calls\<close>

text \<open>The arm for \<open>Cat\<close> is the default one of the code, which collects nothing.\<close>

primrec collect_calls :: "expr \<Rightarrow> string list \<Rightarrow> string list" where
  "collect_calls (Integer i) calls = calls"
| "collect_calls (Float x) calls = calls"
| "collect_calls (DeBruijn idx) calls = calls"
| "collect_calls (Identifier s) calls = calls @ [s]"
| "collect_calls (BinaryOp tok l r) calls = in_order [collect_calls l, collect_calls r] calls"
| "collect_calls (Apply f args) calls = in_order (collect_calls f # map collect_calls args) calls"
| "collect_calls (Move e) calls = collect_calls e calls"
| "collect_calls (Borrow e) calls = collect_calls e calls"
| "collect_calls (MutBorrow e) calls = collect_calls e calls"
| "collect_calls (Define name params body exported) calls = collect_calls body calls"
| "collect_calls (Shape name fs exported) calls = calls"
| "collect_calls (New shape cnt) calls = collect_calls cnt (calls @ [shape])"
| "collect_calls (Get inst field idx) calls = in_order [collect_calls inst,
       collect_calls idx] calls"
| "collect_calls (Set inst field idx val) calls =
     in_order [collect_calls inst, collect_calls idx, collect_calls val] calls"
| "collect_calls (If c t f) calls = in_order [collect_calls c, collect_calls t,
       collect_calls f] calls"
| "collect_calls (Expand name) calls = calls @ [name]"
| "collect_calls (Let name val body) calls = in_order [collect_calls val, collect_calls body] calls"
| "collect_calls (Import module symbol arity) calls = calls"
| "collect_calls (String s) calls = calls"
| "collect_calls (Len e) calls = collect_calls e calls"
| "collect_calls (Cat l r) calls = calls"
| "collect_calls (Sub s st len) calls =
     in_order [collect_calls s, collect_calls st, collect_calls len] calls"
| "collect_calls (Loc s pat) calls = in_order [collect_calls s, collect_calls pat] calls"
| "collect_calls (Reg s pat) calls = in_order [collect_calls s, collect_calls pat] calls"
| "collect_calls (Read h) calls = collect_calls h calls"
| "collect_calls (Write h s) calls = in_order [collect_calls h, collect_calls s] calls"
| "collect_calls (Str e) calls = collect_calls e calls"
| "collect_calls (Split s dl i) calls =
     in_order [collect_calls s, collect_calls dl, collect_calls i] calls"
| "collect_calls TimeNow calls = calls"
| "collect_calls TimeNano calls = calls"
| "collect_calls (TimeGet t i) calls = in_order [collect_calls t, collect_calls i] calls"
| "collect_calls (TimeSet y m dy h mn s) calls =
     in_order [collect_calls y, collect_calls m, collect_calls dy, collect_calls h,
       collect_calls mn, collect_calls s] calls"
| "collect_calls (Env k) calls = collect_calls k calls"
| "collect_calls (Seq l r) calls = in_order [collect_calls l, collect_calls r] calls"
| "collect_calls (Pack e) calls = collect_calls e calls"
| "collect_calls (Unpack e shape) calls = collect_calls e (calls @ [shape])"
| "collect_calls (Metadata tag val t) calls =
     in_order [collect_calls tag, collect_calls val, collect_calls t] calls"
| "collect_calls (OtelEmit t a1 a2 a3) calls =
     in_order [collect_calls t, collect_calls a1, collect_calls a2, collect_calls a3] calls"
| "collect_calls (Map inst field func) calls = in_order [collect_calls inst,
       collect_calls func] calls"
| "collect_calls (Filter inst func) calls = in_order [collect_calls inst, collect_calls func] calls"
| "collect_calls (MoneyOp tok a b) calls = in_order [collect_calls a, collect_calls b] calls"
| "collect_calls (MoneyStr e) calls = collect_calls e calls"
| "collect_calls (TimeOp tok a b) calls = in_order [collect_calls a, collect_calls b] calls"
| "collect_calls TimeZone calls = calls"
| "collect_calls (Panic e) calls = collect_calls e calls"
| "collect_calls (Trap t f) calls = in_order [collect_calls t, collect_calls f] calls"
| "collect_calls (HttpClient m u b) calls =
     in_order [collect_calls m, collect_calls u, collect_calls b] calls"
| "collect_calls (HttpServer op arg) calls = in_order [collect_calls op, collect_calls arg] calls"
| "collect_calls (HttpHeader req name) calls = in_order [collect_calls req,
       collect_calls name] calls"
| "collect_calls (FileOpen p m) calls = in_order [collect_calls p, collect_calls m] calls"

definition get_calls :: "expr \<Rightarrow> string list" where
  "get_calls e = collect_calls e []"

subsection \<open>Fingerprints\<close>

text \<open>
  \<open>format!("{:?}", op)\<close>.  How \<open>f64\<close> prints itself for debugging is the parameter \<open>fd\<close>;
  no operator of a parsed program carries a float.
\<close>

definition escape_debug :: "char \<Rightarrow> string" where
  "escape_debug c =
     (let n = (of_char c :: nat) in
      if c = quote then [backslash, quote]
      else if c = backslash then [backslash, backslash]
      else if c = newline then [backslash, CHR ''n'']
      else if c = tab then [backslash, CHR ''t'']
      else if c = carriage_return then [backslash, CHR ''r'']
      else if n = 0 then [backslash, CHR ''0'']
      else if n < 32 \<or> (127 \<le> n \<and> n \<le> 160) \<or> n = 173
        then [backslash] @ ''u{'' @ show_hex n @ ''}''
      else [c])"

definition debug_string :: "string \<Rightarrow> string" where
  "debug_string s = [quote] @ concat (map escape_debug s) @ [quote]"

definition token_debug :: "(f64 \<Rightarrow> string) \<Rightarrow> token \<Rightarrow> string" where
  "token_debug fd t =
     (case t of
        TApply n \<Rightarrow> ''Apply('' @ show_nat n @ '')'' | TAdd \<Rightarrow> ''Add'' | TSub \<Rightarrow> ''Sub'' | TMul \<Rightarrow> ''Mul''
      | TDiv \<Rightarrow> ''Div'' | TMove \<Rightarrow> ''Move'' | TBorrow \<Rightarrow> ''Borrow'' | TMutBorrow \<Rightarrow> ''MutBorrow''
      | TDefine \<Rightarrow> ''Define'' | TShape \<Rightarrow> ''Shape'' | TDeBruijn n \<Rightarrow> ''DeBruijn('' @ show_nat n @ '')''
      | TQuestion \<Rightarrow> ''Question'' | TBang \<Rightarrow> ''Bang'' | TNew \<Rightarrow> ''New'' | TGet \<Rightarrow> ''Get'' | TSet \<Rightarrow> ''Set''
      | TExport \<Rightarrow> ''Export'' | TLet \<Rightarrow> ''Let'' | TImport \<Rightarrow> ''Import'' | TEq \<Rightarrow> ''Eq'' | TLt \<Rightarrow> ''Lt''
      | TGt \<Rightarrow> ''Gt'' | TDot \<Rightarrow> ''Dot'' | TBitAnd \<Rightarrow> ''BitAnd'' | TBitOr \<Rightarrow> ''BitOr''
      | TBitXor \<Rightarrow> ''BitXor'' | TString s \<Rightarrow> ''String('' @ debug_string s @ '')'' | TLen \<Rightarrow> ''Len''
      | TCat \<Rightarrow> ''Cat'' | TStrSub \<Rightarrow> ''StrSub'' | TOtelEmit n \<Rightarrow> ''OtelEmit('' @ show_nat n @ '')''
      | TLoc \<Rightarrow> ''Loc'' | TReg \<Rightarrow> ''Reg'' | TRead \<Rightarrow> ''Read'' | TWrite \<Rightarrow> ''Write'' | TStr \<Rightarrow> ''Str''
      | TSplit \<Rightarrow> ''Split'' | TPack n \<Rightarrow> ''Pack('' @ show_nat n @ '')'' | TMap \<Rightarrow> ''Map''
      | TFilter \<Rightarrow> ''Filter'' | TMoney \<Rightarrow> ''Money'' | TPanic \<Rightarrow> ''Panic'' | TTrap \<Rightarrow> ''Trap''
      | TTimeNow \<Rightarrow> ''TimeNow'' | TTimeNano \<Rightarrow> ''TimeNano'' | TTimeZone \<Rightarrow> ''TimeZone''
      | TTimeGet \<Rightarrow> ''TimeGet'' | TTimeSet \<Rightarrow> ''TimeSet'' | TMetadata \<Rightarrow> ''Metadata'' | TEnv \<Rightarrow> ''Env''
      | THttpClient \<Rightarrow> ''HttpClient'' | THttpServer \<Rightarrow> ''HttpServer'' | TFileOpen \<Rightarrow> ''FileOpen''
      | TRouter \<Rightarrow> ''Router'' | THttpHeader \<Rightarrow> ''HttpHeader''
      | TIdentifier s \<Rightarrow> ''Identifier('' @ debug_string s @ '')''
      | TInteger i \<Rightarrow> ''Integer('' @ show_i64 i @ '')'' | TFloat x \<Rightarrow> ''Float('' @ fd x @ '')''
      | TEOF \<Rightarrow> ''EOF'')"

primrec collect_fingerprint :: "(f64 \<Rightarrow> string) \<Rightarrow> expr \<Rightarrow> string \<Rightarrow> string" where
  "collect_fingerprint fd (Integer i) acc = acc @ ''i''"
| "collect_fingerprint fd (Float x) acc = acc @ ''f''"
| "collect_fingerprint fd (DeBruijn idx) acc = acc @ ''^'' @ show_nat idx"
| "collect_fingerprint fd (Identifier s) acc = acc @ ''v''"
| "collect_fingerprint fd (BinaryOp tok l r) acc =
     in_order [collect_fingerprint fd l, collect_fingerprint fd r] (acc @ token_debug fd tok)"
| "collect_fingerprint fd (Apply f args) acc =
     in_order (map (collect_fingerprint fd) args) (acc @ ''@'' @ show_nat (length args))"
| "collect_fingerprint fd (Move e) acc = collect_fingerprint fd e (acc @ ''>'')"
| "collect_fingerprint fd (Borrow e) acc = collect_fingerprint fd e (acc @ ''$'')"
| "collect_fingerprint fd (MutBorrow e) acc = collect_fingerprint fd e (acc @ ''~'')"
| "collect_fingerprint fd (Define name params body exported) acc =
     collect_fingerprint fd body (acc @ '':'' @ concat (map (\<lambda>_. ''p'') params))"
| "collect_fingerprint fd (Shape name fs exported) acc =
     acc @ ''#'' @ concat (map (\<lambda>_. ''t'') fs)"
| "collect_fingerprint fd (New shape cnt) acc = collect_fingerprint fd cnt (acc @ ''N'')"
| "collect_fingerprint fd (Get inst field idx) acc =
     in_order [collect_fingerprint fd inst, collect_fingerprint fd idx] (acc @ ''G'')"
| "collect_fingerprint fd (Set inst field idx val) acc =
     in_order [collect_fingerprint fd inst, collect_fingerprint fd idx,
       collect_fingerprint fd val] (acc @ ''S'')"
| "collect_fingerprint fd (If c t f) acc =
     in_order [collect_fingerprint fd c, collect_fingerprint fd t,
       collect_fingerprint fd f] (acc @ ''?'')"
| "collect_fingerprint fd (Expand name) acc = acc @ ''!''"
| "collect_fingerprint fd (Let name val body) acc =
     in_order [collect_fingerprint fd val, collect_fingerprint fd body] (acc @ ''L'')"
| "collect_fingerprint fd (Import module symbol arity) acc = acc @ ''I''"
| "collect_fingerprint fd (String s) acc = acc @ ''s''"
| "collect_fingerprint fd (Len e) acc = acc @ ''?''"
| "collect_fingerprint fd (Cat l r) acc = acc @ ''?''"
| "collect_fingerprint fd (Sub s st len) acc = acc @ ''?''"
| "collect_fingerprint fd (Loc s pat) acc = acc @ ''?''"
| "collect_fingerprint fd (Reg s pat) acc = acc @ ''?''"
| "collect_fingerprint fd (Read h) acc = acc @ ''?''"
| "collect_fingerprint fd (Write h s) acc = acc @ ''?''"
| "collect_fingerprint fd (Str e) acc = acc @ ''?''"
| "collect_fingerprint fd (Split s dl i) acc = acc @ ''?''"
| "collect_fingerprint fd TimeNow acc = acc @ ''?''"
| "collect_fingerprint fd TimeNano acc = acc @ ''?''"
| "collect_fingerprint fd (TimeGet t i) acc = acc @ ''?''"
| "collect_fingerprint fd (TimeSet y m dy h mn s) acc = acc @ ''?''"
| "collect_fingerprint fd (Env k) acc = acc @ ''?''"
| "collect_fingerprint fd (Seq l r) acc =
     in_order [collect_fingerprint fd l, collect_fingerprint fd r] (acc @ ''.'')"
| "collect_fingerprint fd (Pack e) acc = collect_fingerprint fd e (acc @ ''jp'')"
| "collect_fingerprint fd (Unpack e shape) acc = collect_fingerprint fd e (acc @ ''ju'' @ shape)"
| "collect_fingerprint fd (Metadata tag val t) acc = acc @ ''?''"
| "collect_fingerprint fd (OtelEmit t a1 a2 a3) acc =
     in_order [collect_fingerprint fd t, collect_fingerprint fd a1, collect_fingerprint fd a2,
       collect_fingerprint fd a3] (acc @ ''oe'')"
| "collect_fingerprint fd (Map inst field func) acc =
     in_order [collect_fingerprint fd inst, collect_fingerprint fd func] (acc @ ''map'')"
| "collect_fingerprint fd (Filter inst func) acc =
     in_order [collect_fingerprint fd inst, collect_fingerprint fd func] (acc @ ''flt'')"
| "collect_fingerprint fd (MoneyOp tok a b) acc = acc @ ''?''"
| "collect_fingerprint fd (MoneyStr e) acc = acc @ ''?''"
| "collect_fingerprint fd (TimeOp tok a b) acc = acc @ ''?''"
| "collect_fingerprint fd TimeZone acc = acc @ ''?''"
| "collect_fingerprint fd (Panic e) acc = acc @ ''?''"
| "collect_fingerprint fd (Trap t f) acc = acc @ ''?''"
| "collect_fingerprint fd (HttpClient m u b) acc =
     in_order [collect_fingerprint fd m, collect_fingerprint fd u,
       collect_fingerprint fd b] (acc @ ''http'')"
| "collect_fingerprint fd (HttpServer op arg) acc =
     in_order [collect_fingerprint fd op, collect_fingerprint fd arg] (acc @ ''srv'')"
| "collect_fingerprint fd (HttpHeader req name) acc =
     in_order [collect_fingerprint fd req, collect_fingerprint fd name] (acc @ ''hdr'')"
| "collect_fingerprint fd (FileOpen p m) acc = acc @ ''?''"

definition structural_fingerprint :: "(f64 \<Rightarrow> string) \<Rightarrow> expr \<Rightarrow> string" where
  "structural_fingerprint fd e = collect_fingerprint fd e []"

section \<open>Subexpressions\<close>

definition children :: "expr \<Rightarrow> expr list" where
  "children e =
     (case e of
        BinaryOp tok l r \<Rightarrow> [l, r] | Apply f args \<Rightarrow> f # args
      | Move e \<Rightarrow> [e] | Borrow e \<Rightarrow> [e] | MutBorrow e \<Rightarrow> [e]
      | Define name params body exported \<Rightarrow> [body] | New shape cnt \<Rightarrow> [cnt]
      | Get inst field idx \<Rightarrow> [inst, idx]
      | Set inst field idx val \<Rightarrow> [inst, idx, val] | If c t f \<Rightarrow> [c, t, f]
      | Let name val body \<Rightarrow> [val, body] | Len e \<Rightarrow> [e]
      | Cat l r \<Rightarrow> [l, r] | Sub s st len \<Rightarrow> [s, st, len]
      | Loc s pat \<Rightarrow> [s, pat] | Reg s pat \<Rightarrow> [s, pat]
      | Read h \<Rightarrow> [h] | Write h s \<Rightarrow> [h, s] | Str e \<Rightarrow> [e]
      | Split s dl i \<Rightarrow> [s, dl, i] | TimeGet t i \<Rightarrow> [t, i]
      | TimeSet y m dy h mn s \<Rightarrow> [y, m, dy, h, mn, s] | Env k \<Rightarrow> [k]
      | Seq l r \<Rightarrow> [l, r] | Pack e \<Rightarrow> [e] | Unpack e shape \<Rightarrow> [e]
      | Metadata tag val t \<Rightarrow> [tag, val, t]
      | OtelEmit t a1 a2 a3 \<Rightarrow> [t, a1, a2, a3]
      | Map inst field func \<Rightarrow> [inst, func]
      | Filter inst func \<Rightarrow> [inst, func] | MoneyOp tok a b \<Rightarrow> [a, b]
      | MoneyStr e \<Rightarrow> [e] | TimeOp tok a b \<Rightarrow> [a, b]
      | Panic e \<Rightarrow> [e] | Trap t f \<Rightarrow> [t, f]
      | HttpClient m u b \<Rightarrow> [m, u, b] | HttpServer op arg \<Rightarrow> [op, arg]
      | HttpHeader req name \<Rightarrow> [req, name] | FileOpen p m \<Rightarrow> [p, m]
      | _ \<Rightarrow> [])"

lemma children_size: "e' \<in> set (children e) \<Longrightarrow> size e' < size e"
  by (cases e) (auto simp: children_def dest: size_member)

text \<open>\<open>within P e s\<close>: \<open>s\<close> is \<open>e\<close>, or inside \<open>e\<close> below nodes that all satisfy \<open>P\<close>.\<close>

inductive within :: "(expr \<Rightarrow> bool) \<Rightarrow> expr \<Rightarrow> expr \<Rightarrow> bool" for P :: "expr \<Rightarrow> bool" where
  here: "within P e e"
| below: "P e \<Longrightarrow> c \<in> set (children e) \<Longrightarrow> within P c s \<Longrightarrow> within P e s"

lemma within_unfold: "within P e s \<longleftrightarrow> s = e \<or> (P e \<and> (\<exists>c \<in> set (children e). within P c s))"
  by (subst within.simps) auto

text \<open>An induction over the immediate subexpressions, for all constructors at once.\<close>

lemma expr_children_induct [case_names node]:
  assumes "\<And>e. (\<And>c. c \<in> set (children e) \<Longrightarrow> P c) \<Longrightarrow> P e"
  shows "P e"
  by (induction "size e" arbitrary: e rule: less_induct) (blast intro: assms children_size)

section \<open>What the analyses compute\<close>

subsection \<open>Calls\<close>

definition names_of :: "expr \<Rightarrow> string list" where
  "names_of e =
     (case e of Identifier s \<Rightarrow> [s] | Expand s \<Rightarrow> [s] | New s cnt \<Rightarrow> [s] | Unpack a s \<Rightarrow> [s] | _ \<Rightarrow> [])"

definition is_cat :: "expr \<Rightarrow> bool" where
  "is_cat e = (case e of Cat l r \<Rightarrow> True | _ \<Rightarrow> False)"

lemma collect_calls_append: "collect_calls e (xs @ ys) = xs @ collect_calls e ys"
proof (induction e arbitrary: xs ys)
  case (Apply f args)
  have "in_order (map collect_calls args) (xs @ ys) = xs @ in_order (map collect_calls args) ys"
    for xs ys
    using Apply(2) by (induction args arbitrary: ys) simp_all
  then show ?case by (simp add: Apply(1))
qed simp_all

lemma collect_calls_acc: "collect_calls e calls = calls @ get_calls e"
  using collect_calls_append[of e calls "[]"] by (simp add: get_calls_def)

lemma in_order_collect: "in_order (map collect_calls es) cs = cs @ concat (map get_calls es)"
  by (induction es arbitrary: cs) (simp_all add: collect_calls_acc)

text \<open>Below a node that is not a \<open>Cat\<close>, the calls are those of the immediate subexpressions.\<close>

lemma get_calls_node:
  "set (get_calls e) = set (names_of e) \<union>
     (if is_cat e then {} else (\<Union>c \<in> set (children e). set (get_calls c)))"
  unfolding get_calls_def[of e]
  by (cases e; hypsubst; simp only: collect_calls.simps;
      auto simp: names_of_def is_cat_def children_def in_order_collect collect_calls_acc)

lemma get_calls_within:
  "x \<in> set (get_calls e) \<longleftrightarrow> (\<exists>s. within (\<lambda>n. \<not> is_cat n) e s \<and> x \<in> set (names_of s))"
proof (induction e rule: expr_children_induct)
  case (node e)
  have "(\<exists>s. within (\<lambda>n. \<not> is_cat n) e s \<and> x \<in> set (names_of s)) \<longleftrightarrow>
      x \<in> set (names_of e) \<or>
      (\<not> is_cat e \<and> (\<exists>c \<in> set (children e). \<exists>s. within (\<lambda>n. \<not> is_cat n) c s \<and> x \<in> set (names_of s)))"
    by (subst within_unfold) blast
  also have "\<dots> \<longleftrightarrow> x \<in> set (names_of e) \<or>
      (\<not> is_cat e \<and> (\<exists>c \<in> set (children e). x \<in> set (get_calls c)))"
    using node by blast
  finally show ?case by (simp add: get_calls_node[of e])
qed

text \<open>C8: the names an expression calls.  \<open>get_calls\<close> collects the identifiers, expansion
  references and shape names that occur anywhere in the expression, at any depth and in every
  construct, except below a \<open>Cat\<close>.\<close>

theorem get_calls_spec:
  "x \<in> set (get_calls e) \<longleftrightarrow> (\<exists>s. within (\<lambda>n. \<not> is_cat n) e s \<and> x \<in> set (names_of s))"
  by (rule get_calls_within)

subsection \<open>Purity\<close>

definition effect_node :: "expr \<Rightarrow> bool" where
  "effect_node e =
     (case e of Set a f i v \<Rightarrow> True | Write h s \<Rightarrow> True | Read h \<Rightarrow> True | TimeNow \<Rightarrow> True
      | TimeNano \<Rightarrow> True | Env k \<Rightarrow> True | Panic m \<Rightarrow> True | Trap t f \<Rightarrow> True
      | HttpClient m u b \<Rightarrow> True | HttpServer op arg \<Rightarrow> True | HttpHeader req n \<Rightarrow> True
      | FileOpen p m \<Rightarrow> True | OtelEmit t a b c \<Rightarrow> True | Import m s a \<Rightarrow> True | _ \<Rightarrow> False)"

text \<open>
  The subexpressions for which code is generated: the tag and the value of a metadata node are
  not, whatever they are.
\<close>

definition evaluated :: "expr \<Rightarrow> expr list" where
  "evaluated e = (case e of Metadata tag val t \<Rightarrow> [t] | _ \<Rightarrow> children e)"

inductive part_of :: "expr \<Rightarrow> expr \<Rightarrow> bool" where
  itself: "part_of e e"
| deeper: "c \<in> set (evaluated e) \<Longrightarrow> part_of c s \<Longrightarrow> part_of e s"

lemma part_of_unfold: "part_of e s \<longleftrightarrow> s = e \<or> (\<exists>c \<in> set (evaluated e). part_of c s)"
  by (subst part_of.simps) auto

lemma evaluated_children: "set (evaluated e) \<subseteq> set (children e)"
  by (cases e) (auto simp: evaluated_def children_def)

lemma is_pure_node: "is_pure e \<longleftrightarrow> \<not> effect_node e \<and> (\<forall>c \<in> set (evaluated e). is_pure c)"
  by (cases e) (auto simp: effect_node_def children_def evaluated_def list_all_iff)

text \<open>C9: purity.  An expression is pure exactly when no effect occurs among the subexpressions
  for which code is generated: no store, input or output, clock, environment, panic, trap,
  network, file or telemetry node at any depth.  Calls are not effects: a call of any function,
  also of one that writes, is pure when its arguments are.\<close>

theorem is_pure_spec: "is_pure e \<longleftrightarrow> (\<forall>s. part_of e s \<longrightarrow> \<not> effect_node s)"
proof (induction e rule: expr_children_induct)
  case (node e)
  then have "(\<forall>c \<in> set (evaluated e). is_pure c) \<longleftrightarrow>
      (\<forall>c \<in> set (evaluated e). \<forall>s. part_of c s \<longrightarrow> \<not> effect_node s)"
    using evaluated_children[of e] by blast
  moreover have "(\<forall>s. part_of e s \<longrightarrow> \<not> effect_node s) \<longleftrightarrow>
      \<not> effect_node e \<and> (\<forall>c \<in> set (evaluated e). \<forall>s. part_of c s \<longrightarrow> \<not> effect_node s)"
    unfolding part_of_unfold[of e] by blast
  ultimately show ?case unfolding is_pure_node[of e] by simp
qed

lemma is_pure_spec_witness:
  "\<not> effect_node (Identifier ''log'') \<and> is_pure (Apply (Identifier ''log'') [String ''written''])"
proof -
  have "is_pure (Apply (Identifier ''log'') [String ''written''])" by simp
  moreover have "part_of (Apply (Identifier ''log'') [String ''written'']) (Identifier ''log'')"
    by (rule part_of.deeper[OF _ part_of.itself]) (simp add: evaluated_def children_def)
  ultimately show ?thesis
    using is_pure_spec[of "Apply (Identifier ''log'') [String ''written'']"] by blast
qed

subsection \<open>Fingerprints\<close>

text \<open>A renaming of every name in an expression, string literals apart.\<close>

definition rename_param :: "(string \<Rightarrow> string) \<Rightarrow> param \<Rightarrow> param" where
  "rename_param r p = p\<lparr>param_name := r (param_name p)\<rparr>"

primrec rename :: "(string \<Rightarrow> string) \<Rightarrow> expr \<Rightarrow> expr" where
  "rename rn (Integer i) = Integer i"
| "rename rn (Float x) = Float x"
| "rename rn (DeBruijn idx) = DeBruijn idx"
| "rename rn (Identifier s) = Identifier (rn s)"
| "rename rn (BinaryOp tok l r) = BinaryOp tok (rename rn l) (rename rn r)"
| "rename rn (Apply f args) = Apply (rename rn f) (map (rename rn) args)"
| "rename rn (Move e) = Move (rename rn e)"
| "rename rn (Borrow e) = Borrow (rename rn e)"
| "rename rn (MutBorrow e) = MutBorrow (rename rn e)"
| "rename rn (Define name params body exported) =
     Define (rn name) (map (rename_param rn) params) (rename rn body) exported"
| "rename rn (Shape name fs exported) = Shape (rn name) (map rn fs) exported"
| "rename rn (New shape cnt) = New (rn shape) (rename rn cnt)"
| "rename rn (Get inst field idx) = Get (rename rn inst) (rn field) (rename rn idx)"
| "rename rn (Set inst field idx val) = Set (rename rn inst) (rn field) (rename rn idx) (rename rn val)"
| "rename rn (If c t f) = If (rename rn c) (rename rn t) (rename rn f)"
| "rename rn (Expand name) = Expand (rn name)"
| "rename rn (Let name val body) = Let (rn name) (rename rn val) (rename rn body)"
| "rename rn (Import module symbol arity) = Import (rn module) (rn symbol) arity"
| "rename rn (String s) = String s"
| "rename rn (Len e) = Len (rename rn e)"
| "rename rn (Cat l r) = Cat (rename rn l) (rename rn r)"
| "rename rn (Sub s st len) = Sub (rename rn s) (rename rn st) (rename rn len)"
| "rename rn (Loc s pat) = Loc (rename rn s) (rename rn pat)"
| "rename rn (Reg s pat) = Reg (rename rn s) (rename rn pat)"
| "rename rn (Read h) = Read (rename rn h)"
| "rename rn (Write h s) = Write (rename rn h) (rename rn s)"
| "rename rn (Str e) = Str (rename rn e)"
| "rename rn (Split s dl i) = Split (rename rn s) (rename rn dl) (rename rn i)"
| "rename rn TimeNow = TimeNow"
| "rename rn TimeNano = TimeNano"
| "rename rn (TimeGet t i) = TimeGet (rename rn t) (rename rn i)"
| "rename rn (TimeSet y m dy h mn s) =
     TimeSet (rename rn y) (rename rn m) (rename rn dy) (rename rn h) (rename rn mn) (rename rn s)"
| "rename rn (Env k) = Env (rename rn k)"
| "rename rn (Seq l r) = Seq (rename rn l) (rename rn r)"
| "rename rn (Pack e) = Pack (rename rn e)"
| "rename rn (Unpack e shape) = Unpack (rename rn e) (rn shape)"
| "rename rn (Metadata tag val t) = Metadata (rename rn tag) (rename rn val) (rename rn t)"
| "rename rn (OtelEmit t a1 a2 a3) = OtelEmit (rename rn t) (rename rn a1) (rename rn a2) (rename rn a3)"
| "rename rn (Map inst field func) = Map (rename rn inst) (rn field) (rename rn func)"
| "rename rn (Filter inst func) = Filter (rename rn inst) (rename rn func)"
| "rename rn (MoneyOp tok a b) = MoneyOp tok (rename rn a) (rename rn b)"
| "rename rn (MoneyStr e) = MoneyStr (rename rn e)"
| "rename rn (TimeOp tok a b) = TimeOp tok (rename rn a) (rename rn b)"
| "rename rn TimeZone = TimeZone"
| "rename rn (Panic e) = Panic (rename rn e)"
| "rename rn (Trap t f) = Trap (rename rn t) (rename rn f)"
| "rename rn (HttpClient m u b) = HttpClient (rename rn m) (rename rn u) (rename rn b)"
| "rename rn (HttpServer op arg) = HttpServer (rename rn op) (rename rn arg)"
| "rename rn (HttpHeader req name) = HttpHeader (rename rn req) (rename rn name)"
| "rename rn (FileOpen p m) = FileOpen (rename rn p) (rename rn m)"

lemma unpack_below:
  "\<forall>a s. within (\<lambda>_. True) e (Unpack a s) \<longrightarrow> rn s = s \<Longrightarrow> c \<in> set (children e) \<Longrightarrow>
   \<forall>a s. within (\<lambda>_. True) c (Unpack a s) \<longrightarrow> rn s = s"
  by (blast intro: within.below)

lemma collect_fingerprint_rename:
  "\<forall>a s. within (\<lambda>_. True) e (Unpack a s) \<longrightarrow> rn s = s \<Longrightarrow>
   collect_fingerprint fd (rename rn e) acc = collect_fingerprint fd e acc"
proof (induction e arbitrary: acc rule: expr_children_induct)
  case (node e)
  have IH: "collect_fingerprint fd (rename rn c) = collect_fingerprint fd c" if "c \<in> set (children e)" for c
    using node.IH[OF that unpack_below[OF node.prems that]] by (rule ext)
  show ?case
  proof (cases e)
    case (Apply f args)
    then have "map (\<lambda>a. collect_fingerprint fd (rename rn a)) args = map (collect_fingerprint fd) args"
      using IH by (intro map_cong refl) (simp add: children_def)
    then show ?thesis by (simp add: Apply o_def del: map_eq_conv)
  next
    case (Unpack a s)
    then have "rn s = s" using node.prems by (blast intro: within.here)
    with IH show ?thesis by (simp add: Unpack children_def)
  qed (use IH in \<open>simp_all add: children_def o_def\<close>)
qed

lemma collect_fingerprint_append: "collect_fingerprint fd e (xs @ ys) = xs @ collect_fingerprint fd e ys"
proof (induction e arbitrary: xs ys)
  case (Apply f args)
  have "in_order (map (collect_fingerprint fd) args) (xs @ ys) = xs @ in_order (map (collect_fingerprint fd) args) ys"
    for xs ys
    using Apply(2) by (induction args arbitrary: ys) simp_all
  then show ?case by simp
qed simp_all

text \<open>C10: on which names a structural fingerprint depends.  Renaming functions, variables,
  parameters, shapes, fields and modules leaves it unchanged, as long as the shapes that JSON is
  unpacked into keep their names; those names are part of the fingerprint, so that the same code
  unpacking into two shapes has two fingerprints.\<close>

theorem fingerprint_rename:
  assumes "\<forall>a s. within (\<lambda>_. True) e (Unpack a s) \<longrightarrow> rn s = s"
  shows "structural_fingerprint fd (rename rn e) = structural_fingerprint fd e \<and>
    (structural_fingerprint fd (Unpack e shape) = structural_fingerprint fd (Unpack e shape') \<longleftrightarrow> shape = shape')"
  using collect_fingerprint_rename[OF assms] collect_fingerprint_append[of fd e "''ju'' @ _" "[]"]
  by (simp add: structural_fingerprint_def)

lemma fingerprint_rename_witness:
  "structural_fingerprint (\<lambda>x. []) (rename (\<lambda>x. if x = ''f'' then ''g'' else x)
      (Apply (Identifier ''f'') [Unpack (DeBruijn 0) ''row'']))
    = structural_fingerprint (\<lambda>x. []) (Apply (Identifier ''f'') [Unpack (DeBruijn 0) ''row''])"
proof -
  let ?rn = "\<lambda>x. if x = ''f'' then ''g'' else x"
  let ?e = "Apply (Identifier ''f'') [Unpack (DeBruijn 0) ''row'']"
  have "\<forall>a s. within (\<lambda>_. True) ?e (Unpack a s) \<longrightarrow> ?rn s = s"
    by (simp add: within_unfold[of _ "Apply _ _"] within_unfold[of _ "Unpack _ _"] within_unfold[of _ "Identifier _"]
      within_unfold[of _ "DeBruijn _"] children_def)
  from fingerprint_rename[OF this] show ?thesis by blast
qed

subsection \<open>Pointer results\<close>

definition fns_mono :: "(string \<Rightarrow> bool option) \<Rightarrow> (string \<Rightarrow> bool option) \<Rightarrow> bool" where
  "fns_mono f g \<longleftrightarrow> (\<forall>x. f x = Some True \<longrightarrow> g x = Some True)"

lemma apply_returns_ptr_mono:
  "apply_returns_ptr e f \<Longrightarrow> fns_mono f g \<Longrightarrow> apply_returns_ptr e g"
  by (auto simp: apply_returns_ptr_def fns_mono_def split: expr.splits option.splits)

text \<open>C11: pointer results are monotone: knowing more variables and functions to be pointers never
  turns a pointer result into a scalar one.  The fixed-point iteration of the code generator
  over the functions of a module relies on it.\<close>

theorem returns_ptr_mono:
  assumes "returns_ptr_with_stack e ps f" "list_all2 (\<longrightarrow>) ps qs" "fns_mono f g"
  shows "returns_ptr_with_stack e qs g"
  using assms
proof (induction e arbitrary: ps qs)
  case (DeBruijn idx)
  then show ?case by (auto simp: list_all2_conv_all_nth split: if_split_asm)
next
  case (Let name val body)
  have "list_all2 (\<longrightarrow>) (ps @ [returns_ptr_with_stack val ps f]) (qs @ [returns_ptr_with_stack val qs g])"
    using Let.IH(1) Let.prems(2,3) by (auto intro: list_all2_appendI)
  with Let.IH(2) Let.prems show ?case by simp
qed (auto dest: apply_returns_ptr_mono)

lemma returns_ptr_mono_witness:
  "returns_ptr_with_stack (Borrow (DeBruijn 0)) [True, True] [''f'' \<mapsto> True]"
  by (rule returns_ptr_mono[of _ "[False, True]" Map.empty]) (simp_all add: fns_mono_def)

end
