(* ===== verification/Codebase_Index.thy ===== *)
theory Codebase_Index
  imports Reparse Analysis "HOL-Library.AList" "HOL-Library.Char_ord" "HOL-Library.List_Lexorder"
begin

text \<open>
  The codebase index of the MCP server (\<open>CodebaseIndex\<close> in \<open>bin/mcp_server.rs\<close>) and
  the queries over it.  A Rust \<open>HashMap\<close> is an association list with distinct keys; the
  results that depend on its iteration order are sorted by the code, except in
  \<open>search_symbols\<close>.  Parameters: the SHA-256 digest in hexadecimal, and
  \<open>Path::canonicalize\<close>.
\<close>

section \<open>The index\<close>

record symbol_meta =
  sm_expr :: expr
  sm_path :: string
  sm_line :: nat
  sm_calls :: "string list"
  sm_fingerprint :: string

record codebase_index =
  ci_functions :: "(string \<times> symbol_meta list) list"
  ci_shapes :: "(string \<times> (string list \<times> string \<times> nat)) list"

text \<open>The hash of a fingerprint: \<open>hex::encode(Sha256(fp))\<close>, and the \<open>f64\<close> debug printer.\<close>

record digests =
  dg_sha :: "string \<Rightarrow> string"
  dg_f64 :: "f64 \<Rightarrow> string"

definition paths_match :: "(string \<Rightarrow> string option) \<Rightarrow> string \<Rightarrow> string \<Rightarrow> bool" where
  "paths_match canon a b =
     (if a = b then True
      else (case (canon a, canon b) of (Some ca, Some cb) \<Rightarrow> ca = cb | _ \<Rightarrow> False))"

definition index_new :: codebase_index where
  "index_new = \<lparr>ci_functions = [], ci_shapes = []\<rparr>"

definition purge_file :: "string \<Rightarrow> codebase_index \<Rightarrow> codebase_index" where
  "purge_file path idx =
     idx\<lparr>ci_functions := filter (\<lambda>(_, metas). metas \<noteq> [])
           (map (\<lambda>(name, metas). (name, filter (\<lambda>m. sm_path m \<noteq> path) metas)) (ci_functions idx)),
         ci_shapes := filter (\<lambda>(_, (_, p, _)). p \<noteq> path) (ci_shapes idx)\<rparr>"

definition symbol_of :: "digests \<Rightarrow> string \<Rightarrow> expr \<Rightarrow> symbol_meta" where
  "symbol_of dg path body =
     \<lparr>sm_expr = body, sm_path = path, sm_line = 0, sm_calls = get_calls body,
      sm_fingerprint = dg_sha dg (structural_fingerprint (dg_f64 dg) body)\<rparr>"

text \<open>\<open>functions.entry(name).or_default().push(m)\<close>\<close>

definition push_symbol ::
  "string \<Rightarrow> symbol_meta \<Rightarrow> (string \<times> symbol_meta list) list \<Rightarrow> (string \<times> symbol_meta list) list" where
  "push_symbol name m fs = AList.map_default name [m] (\<lambda>ms. ms @ [m]) fs"

definition index_expr :: "digests \<Rightarrow> string \<Rightarrow> expr \<Rightarrow> codebase_index \<times> nat \<Rightarrow> codebase_index \<times> nat" where
  "index_expr dg path e st =
     (case st of (idx, count) \<Rightarrow>
        (case e of
           Define name params body exported \<Rightarrow>
             (idx\<lparr>ci_functions := push_symbol name (symbol_of dg path body) (ci_functions idx)\<rparr>, Suc count)
         | Shape name flds exported \<Rightarrow>
             (idx\<lparr>ci_shapes := AList.update name (flds, path, 0) (ci_shapes idx)\<rparr>, count)
         | _ \<Rightarrow> (idx, count)))"

definition index_exprs :: "digests \<Rightarrow> string \<Rightarrow> expr list \<Rightarrow> codebase_index \<Rightarrow> codebase_index \<times> nat" where
  "index_exprs dg path exprs idx = fold (index_expr dg path) exprs (purge_file path idx, 0)"

text \<open>\<open>functions.get(name)\<close>, with no entry for a name that has none.\<close>

definition symbols :: "codebase_index \<Rightarrow> string \<Rightarrow> symbol_meta list" where
  "symbols idx name = (case map_of (ci_functions idx) name of Some metas \<Rightarrow> metas | None \<Rightarrow> [])"

datatype resolve_error =
    Not_Found string
  | Not_In_File string string "string list"
  | Ambiguous string "string list"

definition resolve_function ::
  "(string \<Rightarrow> string option) \<Rightarrow> codebase_index \<Rightarrow> string \<Rightarrow> string option \<Rightarrow> resolve_error + symbol_meta" where
  "resolve_function canon idx name path =
     (case map_of (ci_functions idx) name of
        None \<Rightarrow> Inl (Not_Found name)
      | Some metas \<Rightarrow>
          if metas = [] then Inl (Not_Found name)
          else (case path of
            Some p \<Rightarrow>
              (case find (\<lambda>m. paths_match canon (sm_path m) p) metas of
                 Some m \<Rightarrow> Inr m
               | None \<Rightarrow> Inl (Not_In_File name p (map sm_path metas)))
          | None \<Rightarrow>
              if length metas = 1 then Inr (hd metas)
              else Inl (Ambiguous name (map sm_path metas))))"

section \<open>Queries\<close>

definition find_callers :: "codebase_index \<Rightarrow> string \<Rightarrow> string list" where
  "find_callers idx symbol =
     sort (map fst (filter (\<lambda>(caller, metas). \<exists>m \<in> set metas. \<exists>c \<in> set (sm_calls m). c = symbol)
       (ci_functions idx)))"

definition structural_search :: "codebase_index \<Rightarrow> string \<Rightarrow> string list option" where
  "structural_search idx function_name =
     (case map_of (ci_functions idx) function_name of
        None \<Rightarrow> None
      | Some metas \<Rightarrow>
          (let target_fps = set (map sm_fingerprint metas) in
           Some (sort (map fst (filter (\<lambda>(n, ms). \<exists>m \<in> set ms. sm_fingerprint m \<in> target_fps)
             (ci_functions idx))))))"

definition contains :: "string \<Rightarrow> string \<Rightarrow> bool" where
  "contains s q = (\<exists>i \<in> set [0..<Suc (length s)]. take (length q) (drop i s) = q)"

text \<open>The order of the keys is the one of the hash table.\<close>

definition search_symbols :: "codebase_index \<Rightarrow> string \<Rightarrow> string list" where
  "search_symbols idx query =
     map (\<lambda>name. ''Function: '' @ name) (filter (\<lambda>name. contains name query) (map fst (ci_functions idx))) @
     map (\<lambda>name. ''Shape: '' @ name) (filter (\<lambda>name. contains name query) (map fst (ci_shapes idx)))"

section \<open>Re-indexing replaces\<close>

text \<open>
  The contract of an index of files: after any sequence of re-indexings, what it holds for a
  file is what the last version of the file defines, and nothing else.
\<close>

locale file_index =
  fixes reindex :: "'path \<Rightarrow> 'def list \<Rightarrow> 'index \<Rightarrow> 'index"
    and empty_index :: 'index
    and held :: "'index \<Rightarrow> 'path \<Rightarrow> 'name \<Rightarrow> 'entry list"
    and entries :: "'path \<Rightarrow> 'name \<Rightarrow> 'def list \<Rightarrow> 'entry list"
    and ok :: "'index \<Rightarrow> bool"
  assumes ok_empty: "ok empty_index"
    and ok_reindex: "ok idx \<Longrightarrow> ok (reindex p ds idx)"
    and held_empty: "held empty_index p x = []"
    and held_reindex:
      "ok idx \<Longrightarrow> held (reindex p ds idx) q x = (if q = p then entries p x ds else held idx q x)"
begin

lemma ok_history: "ok (fold (\<lambda>(p, ds). reindex p ds) ops empty_index)"
  by (induction ops rule: rev_induct) (simp_all add: ok_empty ok_reindex split: prod.split)

lemma held_history:
  "held (fold (\<lambda>(p, ds). reindex p ds) ops empty_index) q x =
     (case map_of (rev ops) q of Some ds \<Rightarrow> entries q x ds | None \<Rightarrow> [])"
proof (induction ops rule: rev_induct)
  case (snoc op ops)
  then show ?case by (cases op) (simp add: held_reindex ok_history)
qed (simp add: held_empty)

lemma reindex_twice:
  "ok idx \<Longrightarrow> held (reindex p ds (reindex p ds' idx)) q x = held (reindex p ds idx) q x"
  by (simp add: held_reindex ok_reindex)

lemma reindex_commute:
  "ok idx \<Longrightarrow> p \<noteq> p' \<Longrightarrow>
   held (reindex p ds (reindex p' ds' idx)) q x = held (reindex p' ds' (reindex p ds idx)) q x"
  by (simp add: held_reindex ok_reindex)

end

definition held :: "codebase_index \<Rightarrow> string \<Rightarrow> string \<Rightarrow> symbol_meta list" where
  "held idx path name = filter (\<lambda>m. sm_path m = path) (symbols idx name)"

text \<open>What the definitions of a file contribute under a name.\<close>

definition bodies_of :: "string \<Rightarrow> expr list \<Rightarrow> expr list" where
  "bodies_of name exprs =
     concat (map (\<lambda>e. case e of Define n ps body ex \<Rightarrow> if n = name then [body] else [] | _ \<Rightarrow> []) exprs)"

definition defined_symbols :: "digests \<Rightarrow> string \<Rightarrow> string \<Rightarrow> expr list \<Rightarrow> symbol_meta list" where
  "defined_symbols dg path name exprs = map (symbol_of dg path) (bodies_of name exprs)"

lemma symbols_push:
  "symbols (idx\<lparr>ci_functions := push_symbol n m (ci_functions idx)\<rparr>) name =
     (if name = n then symbols idx name @ [m] else symbols idx name)"
proof -
  have "map_of (push_symbol n m fs) name =
      (if name = n then Some (case map_of fs n of Some ms \<Rightarrow> ms @ [m] | None \<Rightarrow> [m]) else map_of fs name)" for fs
    by (induction fs) (auto simp: push_symbol_def)
  then show ?thesis by (simp add: symbols_def split: option.split)
qed

lemma symbols_shapes [simp]: "symbols (idx\<lparr>ci_shapes := s\<rparr>) = symbols idx"
  by (simp add: symbols_def fun_eq_iff)

lemma index_expr_symbols:
  "symbols (fst (index_expr dg path e (idx, n))) name = symbols idx name @ defined_symbols dg path name [e]"
  by (simp add: index_expr_def symbols_push defined_symbols_def bodies_of_def split: expr.split)

lemma defined_symbols_append:
  "defined_symbols dg path name (es @ es') = defined_symbols dg path name es @ defined_symbols dg path name es'"
  by (simp add: defined_symbols_def bodies_of_def)

lemma index_symbols:
  "symbols (fst (fold (index_expr dg path) exprs st)) name =
     symbols (fst st) name @ defined_symbols dg path name exprs"
proof (induction exprs arbitrary: st)
  case (Cons e es)
  obtain idx n where st: "st = (idx, n)" by (cases st)
  have "symbols (fst (fold (index_expr dg path) es (index_expr dg path e st))) name =
      symbols idx name @ defined_symbols dg path name [e] @ defined_symbols dg path name es"
    unfolding Cons.IH st index_expr_symbols by simp
  also have "\<dots> = symbols idx name @ defined_symbols dg path name (e # es)"
    using defined_symbols_append[of dg path name "[e]" es] by simp
  finally show ?case by (simp add: st)
qed (simp add: defined_symbols_def bodies_of_def)

lemma map_of_filter_values:
  "distinct (map fst xs) \<Longrightarrow>
   map_of (filter (\<lambda>(k, v). P v) (map (\<lambda>(k, v). (k, g v)) xs)) k =
     (case map_of xs k of Some v \<Rightarrow> if P (g v) then Some (g v) else None | None \<Rightarrow> None)"
proof (induction xs)
  case (Cons x xs)
  have "k \<notin> fst ` set xs \<Longrightarrow> map_of (filter (\<lambda>(k, v). P v) (map (\<lambda>(k, v). (k, g v)) xs)) k = None" for k
    by (force simp: map_of_eq_None_iff)
  with Cons show ?case by (cases x) (auto split: option.split)
qed simp

text \<open>No key twice, and no key without an entry.\<close>

definition index_ok :: "codebase_index \<Rightarrow> bool" where
  "index_ok idx =
     (distinct (map fst (ci_functions idx)) \<and> list_all (\<lambda>(name, metas). metas \<noteq> []) (ci_functions idx) \<and>
      distinct (map fst (ci_shapes idx)))"

lemma symbols_purge:
  assumes "index_ok idx"
  shows "symbols (purge_file path idx) name = filter (\<lambda>m. sm_path m \<noteq> path) (symbols idx name)"
  using assms map_of_filter_values[of "ci_functions idx" "\<lambda>ms. ms \<noteq> []"
      "filter (\<lambda>m. sm_path m \<noteq> path)" name]
  by (auto simp: symbols_def purge_file_def index_ok_def split: option.split)

lemma distinct_filter_keys: "distinct (map fst xs) \<Longrightarrow> distinct (map fst (filter P xs))"
  by (induction xs) auto

lemma purge_ok: "index_ok idx \<Longrightarrow> index_ok (purge_file path idx)"
  by (auto simp: index_ok_def purge_file_def list_all_iff case_prod_unfold o_def
      intro!: distinct_filter_keys)

lemma push_ok:
  "distinct (map fst fs) \<and> list_all (\<lambda>(name, metas). metas \<noteq> []) fs \<Longrightarrow>
   distinct (map fst (push_symbol n m fs)) \<and> list_all (\<lambda>(name, metas). metas \<noteq> []) (push_symbol n m fs)"
proof (induction fs)
  case (Cons f fs)
  have "fst ` set (push_symbol n m fs) = insert n (fst ` set fs)"
    by (induction fs) (auto simp: push_symbol_def)
  with Cons show ?case by (auto simp: push_symbol_def)
qed (simp add: push_symbol_def)

lemma index_expr_ok: "index_ok (fst st) \<Longrightarrow> index_ok (fst (index_expr dg path e st))"
  using push_ok
  by (cases st) (auto simp: index_expr_def index_ok_def AList.distinct_update split: expr.split)

lemma fold_ok: "index_ok (fst st) \<Longrightarrow> index_ok (fst (fold (index_expr dg path) es st))"
  by (induction es arbitrary: st) (simp_all add: index_expr_ok)

lemma index_exprs_ok: "index_ok idx \<Longrightarrow> index_ok (fst (index_exprs dg path es idx))"
  by (simp add: index_exprs_def fold_ok purge_ok)

definition reindex :: "digests \<Rightarrow> string \<Rightarrow> expr list \<Rightarrow> codebase_index \<Rightarrow> codebase_index" where
  "reindex dg path exprs idx = fst (index_exprs dg path exprs idx)"

lemma defined_symbols_path: "m \<in> set (defined_symbols dg path name es) \<Longrightarrow> sm_path m = path"
  by (auto simp: defined_symbols_def symbol_of_def)

lemma held_index_exprs:
  assumes "index_ok idx"
  shows "held (reindex dg p es idx) q x = (if q = p then defined_symbols dg p x es else held idx q x)"
proof -
  have "symbols (reindex dg p es idx) x =
      filter (\<lambda>m. sm_path m \<noteq> p) (symbols idx x) @ defined_symbols dg p x es"
    by (simp add: reindex_def index_exprs_def index_symbols symbols_purge[OF assms])
  moreover have "filter (\<lambda>m. sm_path m = q) (defined_symbols dg p x es) =
      (if q = p then defined_symbols dg p x es else [])"
    using defined_symbols_path by (auto simp: filter_empty_conv intro!: filter_True)
  ultimately show ?thesis
    by (auto simp: held_def intro: filter_cong)
qed

interpretation ix: file_index "reindex dg" index_new held "defined_symbols dg" index_ok for dg
proof unfold_locales
  show "index_ok index_new" by (simp add: index_ok_def index_new_def)
  show "index_ok idx \<Longrightarrow> index_ok (reindex dg p ds idx)" for idx p ds
    by (simp add: reindex_def index_exprs_ok)
  show "held index_new p x = []" for p x by (simp add: held_def symbols_def index_new_def)
qed (rule held_index_exprs)

section \<open>What the queries return\<close>

text \<open>The index after a sequence of re-indexings, and the last version of each file.\<close>

definition index_after :: "digests \<Rightarrow> (string \<times> expr list) list \<Rightarrow> codebase_index" where
  "index_after dg ops = fold (\<lambda>(p, es). reindex dg p es) ops index_new"

definition last_version :: "(string \<times> expr list) list \<Rightarrow> string \<Rightarrow> expr list" where
  "last_version ops p = (case map_of (rev ops) p of Some es \<Rightarrow> es | None \<Rightarrow> [])"

lemma held_after: "held (index_after dg ops) p name = defined_symbols dg p name (last_version ops p)"
  unfolding index_after_def last_version_def ix.held_history
  by (simp add: defined_symbols_def bodies_of_def split: option.split)

lemma symbols_after:
  "(\<exists>m \<in> set (symbols (index_after dg ops) name). P m) \<longleftrightarrow>
     (\<exists>p. \<exists>body \<in> set (bodies_of name (last_version ops p)). P (symbol_of dg p body))"
proof -
  have "m \<in> set (symbols idx name) \<longleftrightarrow> m \<in> set (held idx (sm_path m) name)" for idx m
    by (simp add: held_def)
  then have "m \<in> set (symbols (index_after dg ops) name) \<longleftrightarrow>
      (\<exists>p. m \<in> set (defined_symbols dg p name (last_version ops p)))" for m
    using defined_symbols_path by (auto simp: held_after)
  then show ?thesis by (fastforce simp: defined_symbols_def)
qed

lemma index_after_ok: "index_ok (index_after dg ops)"
  unfolding index_after_def by (rule ix.ok_history)

lemma symbols_entry:
  "index_ok idx \<Longrightarrow> (name, metas) \<in> set (ci_functions idx) \<longleftrightarrow> metas \<noteq> [] \<and> symbols idx name = metas"
  by (auto simp: index_ok_def symbols_def list_all_iff map_of_eq_Some_iff split: option.split_asm
      dest: map_of_SomeD)

lemma bodies_of_iff:
  "body \<in> set (bodies_of name es) \<longleftrightarrow> (\<exists>ps ex. Define name ps body ex \<in> set es)"
  by (force simp: bodies_of_def split: expr.split)

text \<open>C16: the codebase index never holds stale or duplicate entries.  After any sequence of
  re-indexings of any files, the entries of a file under a name are exactly the definitions
  of this name in the last version of the file, in order, and a name that no last version
  defines is not a key.\<close>

theorem index_is_last_versions:
  "held (index_after dg ops) path name = defined_symbols dg path name (last_version ops path) \<and>
   (map_of (ci_functions (index_after dg ops)) name = None \<longleftrightarrow>
     (\<forall>p. bodies_of name (last_version ops p) = []))"
proof -
  have "map_of (ci_functions idx) name = None \<longleftrightarrow> symbols idx name = []" if "index_ok idx" for idx
    using that by (auto simp: symbols_def index_ok_def list_all_iff split: option.split dest: map_of_SomeD)
  from this[OF index_after_ok]
  have "map_of (ci_functions (index_after dg ops)) name = None \<longleftrightarrow>
      \<not> (\<exists>m \<in> set (symbols (index_after dg ops) name). True)"
    by simp
  also have "\<dots> \<longleftrightarrow> (\<forall>p. bodies_of name (last_version ops p) = [])"
    unfolding symbols_after by simp
  finally show ?thesis using held_after by simp
qed

text \<open>C19: \<open>find_callers\<close> lists, sorted and without duplicates, the functions that stand at the top
  level of the last version of a file, not below metadata, and in whose body the symbol occurs
  as a function, an expansion parameter or a shape outside every concatenation.  What a function
  calls inside an \<open>sc\<close> expression is not found.\<close>

theorem find_callers_spec:
  "sorted (find_callers (index_after dg ops) symbol) \<and> distinct (find_callers (index_after dg ops) symbol) \<and>
   (caller \<in> set (find_callers (index_after dg ops) symbol) \<longleftrightarrow>
      (\<exists>path ps body ex s. Define caller ps body ex \<in> set (last_version ops path) \<and>
         within (\<lambda>n. \<not> is_cat n) body s \<and> symbol \<in> set (names_of s)))"
proof -
  let ?idx = "index_after dg ops"
  have "caller \<in> set (find_callers ?idx symbol) \<longleftrightarrow>
      (\<exists>metas. (caller, metas) \<in> set (ci_functions ?idx) \<and> (\<exists>m \<in> set metas. symbol \<in> set (sm_calls m)))"
    by (force simp: find_callers_def)
  also have "\<dots> \<longleftrightarrow> (\<exists>m \<in> set (symbols ?idx caller). symbol \<in> set (sm_calls m))"
    unfolding symbols_entry[OF index_after_ok] by auto
  also have "\<dots> \<longleftrightarrow> (\<exists>path. \<exists>body \<in> set (bodies_of caller (last_version ops path)). symbol \<in> set (get_calls body))"
    unfolding symbols_after by (simp add: symbol_of_def)
  also have "\<dots> \<longleftrightarrow> (\<exists>path ps body ex. Define caller ps body ex \<in> set (last_version ops path) \<and>
      symbol \<in> set (get_calls body))"
    unfolding Bex_def bodies_of_iff by blast
  also have "\<dots> \<longleftrightarrow> (\<exists>path ps body ex s. Define caller ps body ex \<in> set (last_version ops path) \<and>
      within (\<lambda>n. \<not> is_cat n) body s \<and> symbol \<in> set (names_of s))"
    unfolding get_calls_within by blast
  finally have "caller \<in> set (find_callers ?idx symbol) \<longleftrightarrow> (\<exists>path ps body ex s.
      Define caller ps body ex \<in> set (last_version ops path) \<and>
      within (\<lambda>n. \<not> is_cat n) body s \<and> symbol \<in> set (names_of s))" .
  moreover have "distinct (find_callers ?idx symbol)" "sorted (find_callers ?idx symbol)"
    using index_after_ok[of dg ops] by (simp_all add: find_callers_def index_ok_def distinct_filter_keys)
  ultimately show ?thesis by blast
qed

lemma symbols_split:
  "symbols (index_after dg ops) name = [m] \<longleftrightarrow>
     (\<exists>p body. bodies_of name (last_version ops p) = [body] \<and> m = symbol_of dg p body \<and>
        (\<forall>q. q \<noteq> p \<longrightarrow> bodies_of name (last_version ops q) = []))"
    (is "?ms = _ \<longleftrightarrow> ?R")
proof
  have held: "map (symbol_of dg q) (bodies_of name (last_version ops q)) = filter (\<lambda>m. sm_path m = q) ?ms" for q
    using held_after[of dg ops q name] by (simp add: held_def defined_symbols_def)
  assume one: "?ms = [m]"
  let ?p = "sm_path m"
  obtain body where "bodies_of name (last_version ops ?p) = [body]" "m = symbol_of dg ?p body"
    using held[of ?p] one by auto
  moreover have "bodies_of name (last_version ops q) = []" if "q \<noteq> ?p" for q
    using held[of q] one that by simp
  ultimately show ?R by blast
next
  have held: "filter (\<lambda>m. sm_path m = q) ?ms = map (symbol_of dg q) (bodies_of name (last_version ops q))" for q
    using held_after[of dg ops q name] by (simp add: held_def defined_symbols_def)
  assume ?R
  then obtain p body where R: "bodies_of name (last_version ops p) = [body]" "m = symbol_of dg p body"
    "\<And>q. q \<noteq> p \<Longrightarrow> bodies_of name (last_version ops q) = []" by blast
  have "sm_path x = p" if "x \<in> set ?ms" for x
  proof (rule ccontr)
    assume "sm_path x \<noteq> p"
    with held[of "sm_path x"] R(3) have "x \<notin> set ?ms" by (auto simp: filter_empty_conv)
    with that show False by simp
  qed
  then have "filter (\<lambda>m. sm_path m = p) ?ms = ?ms" by (simp add: filter_id_conv)
  with held[of p] R(1,2) show "?ms = [m]" by simp
qed

lemma resolve_symbols:
  "resolve_function canon idx name None = Inr m \<longleftrightarrow> symbols idx name = [m]"
  "resolve_function canon idx name (Some p) = Inr m \<longleftrightarrow>
     find (\<lambda>m. paths_match canon (sm_path m) p) (symbols idx name) = Some m"
  by (auto simp: resolve_function_def symbols_def length_Suc_conv split: option.splits)

lemma find_first:
  "find P xs = Some x \<Longrightarrow> (\<And>y. Q y \<Longrightarrow> P y) \<Longrightarrow> Q x \<Longrightarrow> \<exists>ys. filter Q xs = x # ys"
  by (induction xs) (auto split: if_split_asm)

text \<open>The entry found by a path is the first definition of the name in a file with that path.\<close>

lemma resolve_path:
  assumes "resolve_function canon (index_after dg ops) name (Some path) = Inr m"
  shows "\<exists>body rest. bodies_of name (last_version ops (sm_path m)) = body # rest \<and>
    m = symbol_of dg (sm_path m) body \<and> paths_match canon (sm_path m) path"
proof -
  let ?ms = "symbols (index_after dg ops) name"
  from assms have f: "find (\<lambda>m. paths_match canon (sm_path m) path) ?ms = Some m"
    by (simp only: resolve_symbols)
  then have match: "paths_match canon (sm_path m) path" by (auto simp: find_Some_iff)
  then obtain rest where "filter (\<lambda>m'. sm_path m' = sm_path m) ?ms = m # rest"
    using find_first[OF f, of "\<lambda>m'. sm_path m' = sm_path m"] by auto
  then have "map (symbol_of dg (sm_path m)) (bodies_of name (last_version ops (sm_path m))) = m # rest"
    using held_after[of dg ops "sm_path m" name] by (simp add: held_def defined_symbols_def)
  then show ?thesis using match by auto
qed

text \<open>C18: a function name resolves without a path exactly when it has one definition in one file,
  and then to it.  With a path it resolves whenever a file with this path, or with the same
  canonical path, defines it; the result is the first definition of the name in the last version
  of such a file, never an entry of another file.\<close>

theorem resolve_function_spec:
  "(resolve_function canon (index_after dg ops) name None = Inr m \<longleftrightarrow>
      (\<exists>p body. bodies_of name (last_version ops p) = [body] \<and> m = symbol_of dg p body \<and>
         {q. bodies_of name (last_version ops q) \<noteq> []} = {p})) \<and>
   ((\<exists>m. resolve_function canon (index_after dg ops) name (Some path) = Inr m) \<longleftrightarrow>
      (\<exists>q. paths_match canon q path \<and> bodies_of name (last_version ops q) \<noteq> [])) \<and>
   (resolve_function canon (index_after dg ops) name (Some path) = Inr m \<longrightarrow>
      (\<exists>body rest. bodies_of name (last_version ops (sm_path m)) = body # rest \<and>
         m = symbol_of dg (sm_path m) body \<and> paths_match canon (sm_path m) path))"
proof -
  let ?ms = "symbols (index_after dg ops) name" and ?P = "\<lambda>m. paths_match canon (sm_path m) path"
  have "(\<exists>m. find ?P ?ms = Some m) \<longleftrightarrow> (\<exists>m \<in> set ?ms. ?P m)"
    by (metis find_None_iff2 not_None_eq)
  also have "\<dots> \<longleftrightarrow> (\<exists>q. paths_match canon q path \<and> bodies_of name (last_version ops q) \<noteq> [])"
    unfolding symbols_after by (auto simp: symbol_of_def ex_in_conv)
  finally have some: "(\<exists>m. find ?P ?ms = Some m) \<longleftrightarrow>
      (\<exists>q. paths_match canon q path \<and> bodies_of name (last_version ops q) \<noteq> [])" .
  have "{q. bodies_of name (last_version ops q) \<noteq> []} = {p} \<longleftrightarrow>
      (\<forall>q. q \<noteq> p \<longrightarrow> bodies_of name (last_version ops q) = [])"
    if "bodies_of name (last_version ops p) = [body]" for p body
    using that by auto
  with some resolve_path show ?thesis by (simp only: resolve_symbols symbols_split cong: conj_cong) blast
qed

text \<open>Two files define \<open>f\<close>; the path tells which is meant.\<close>

definition two_files :: "(string \<times> expr list) list" where
  "two_files = [(''a.llm'', [Define ''f'' [] (Integer 1) False]), (''b.llm'', [Define ''f'' [] (Integer 2) False])]"

lemma resolve_function_spec_witness:
  "\<forall>dg. \<exists>m. resolve_function (\<lambda>p. None) (index_after dg two_files) ''f'' (Some ''b.llm'') = Inr m \<and>
     sm_path m = ''b.llm'' \<and> m = symbol_of dg ''b.llm'' (Integer 2)"
proof
  fix dg
  have v: "last_version two_files p = (if p = ''b.llm'' then [Define ''f'' [] (Integer 2) False]
      else if p = ''a.llm'' then [Define ''f'' [] (Integer 1) False] else [])" for p
    by (simp add: last_version_def two_files_def)
  have b: "bodies_of ''f'' (last_version two_files ''b.llm'') = [Integer 2]" by (simp add: v bodies_of_def)
  have "\<exists>q. paths_match (\<lambda>p. None) q ''b.llm'' \<and> bodies_of ''f'' (last_version two_files q) \<noteq> []"
    by (rule exI[of _ "''b.llm''"]) (simp add: b paths_match_def)
  then obtain m where m: "resolve_function (\<lambda>p. None) (index_after dg two_files) ''f'' (Some ''b.llm'') = Inr m"
    using resolve_function_spec[of "\<lambda>p. None" dg two_files "''f''" _ "''b.llm''"] by blast
  then obtain body rest where *: "bodies_of ''f'' (last_version two_files (sm_path m)) = body # rest"
    "m = symbol_of dg (sm_path m) body" "paths_match (\<lambda>p. None) (sm_path m) ''b.llm''"
    using resolve_function_spec[of "\<lambda>p. None" dg two_files "''f''" m "''b.llm''"] by blast
  from *(3) have "sm_path m = ''b.llm''" by (simp add: paths_match_def split: if_split_asm)
  with *(1,2) b m show "\<exists>m. resolve_function (\<lambda>p. None) (index_after dg two_files) ''f'' (Some ''b.llm'') = Inr m \<and>
     sm_path m = ''b.llm'' \<and> m = symbol_of dg ''b.llm'' (Integer 2)" by auto
qed

end
