(* ===== verification/Mcp_Server.thy ===== *)
theory Mcp_Server
  imports Codebase_Index
begin

text \<open>
  The tools of the MCP server (\<open>handle_method\<close>, \<open>"tools/call"\<close>, in
  \<open>bin/mcp_server.rs\<close>) over the codebase index and the files: a request takes the state to
  a reply and a new state.  The methods around the tools are in \<open>Mcp_Rpc\<close>.  Parameters:
  the front end's environment, the digest, \<open>canonicalize\<close>, \<open>WalkDir\<close>, the derived
  \<open>Debug\<close> of \<open>Expr\<close>, and the answers of the operating system: the message for a file that
  cannot be read, and whether a write succeeds; a write that fails has a message and leaves some
  content, or no file, behind.
\<close>

section \<open>State and requests\<close>

record mcp_env =
  mc_parse :: parse_env
  mc_digests :: digests
  mc_canon :: "string \<Rightarrow> string option"
  mc_walk :: "string \<Rightarrow> string list"
  mc_expr_debug :: "expr \<Rightarrow> string"
  mc_read_error :: "string \<Rightarrow> string"
  mc_write :: "string \<Rightarrow> string \<Rightarrow> (string \<times> string option) option"

record server =
  sv_index :: codebase_index
  sv_files :: "string \<Rightarrow> string option"

datatype request =
    Analyze_Codebase string
  | Search_Symbols string
  | Get_Definition string
  | Get_Diagnostics string
  | Find_Callers string
  | Structural_Search string
  | Patch_Symbol string expr "string option"

datatype tool_error =
    Invalid_Params string
  | Unresolved resolve_error
  | Internal_Error string
  | Tool_Panicked string

section \<open>Indexing files\<close>

text \<open>\<open>entry.path().extension() == Some("llm")\<close>\<close>

definition llm_file :: "string \<Rightarrow> bool" where
  "llm_file path =
     (let name = rev (takeWhile (\<lambda>c. c \<noteq> CHR ''/'') (rev path)) in
      ends_with name ''.llm'' \<and> length name > 4)"

text \<open>
  The loop of \<open>analyze_path\<close>: a file that cannot be read or parsed is skipped, and keeps
  what the index held for it; a panic in the lexer ends the loop.
\<close>

fun analyze_files ::
  "mcp_env \<Rightarrow> (string \<Rightarrow> string option) \<Rightarrow> string list \<Rightarrow> codebase_index \<times> nat \<Rightarrow>
   (codebase_index \<times> nat) \<times> string option" where
  "analyze_files me files [] st = (st, None)"
| "analyze_files me files (p # ps) st =
     (if \<not> llm_file p then analyze_files me files ps st
      else (case files p of
        None \<Rightarrow> analyze_files me files ps st
      | Some content \<Rightarrow>
          (case parse_source (mc_parse me) [] p content of
             Inl (Panicked msg) \<Rightarrow> (st, Some msg)
           | Inl _ \<Rightarrow> analyze_files me files ps st
           | Inr es \<Rightarrow>
               (case index_exprs (mc_digests me) p es (fst st) of (idx, n) \<Rightarrow>
                  analyze_files me files ps (idx, snd st + n)))))"

definition analyze_path :: "mcp_env \<Rightarrow> string \<Rightarrow> server \<Rightarrow> (tool_error + string) \<times> server" where
  "analyze_path me path sv =
     (case analyze_files me (sv_files sv) (mc_walk me path) (sv_index sv, 0) of
        ((idx, count), None) \<Rightarrow>
          (Inr (''Indexed '' @ show_nat count @ '' functions and '' @ show_nat (length (ci_shapes idx)) @
             '' shapes''), sv\<lparr>sv_index := idx\<rparr>)
      | ((idx, count), Some msg) \<Rightarrow> (Inl (Tool_Panicked msg), sv\<lparr>sv_index := idx\<rparr>))"

section \<open>Read-only tools\<close>

definition debug_list :: "string list \<Rightarrow> string" where
  "debug_list xs = ''['' @ join '', '' (map debug_string xs) @ '']''"

definition get_definition :: "mcp_env \<Rightarrow> codebase_index \<Rightarrow> string \<Rightarrow> tool_error + string" where
  "get_definition me idx name =
     (case map_of (ci_functions idx) name of
        Some metas \<Rightarrow>
          Inr (join ([newline] @ ''---'' @ [newline]) (map (\<lambda>m.
            ''Function: '' @ name @ [newline] @ ''Path: '' @ sm_path m @ [newline] @
            ''Line: '' @ show_nat (sm_line m) @ [newline] @ ''AST: '' @ mc_expr_debug me (sm_expr m)) metas))
      | None \<Rightarrow>
          (case map_of (ci_shapes idx) name of
             Some (flds, path, line) \<Rightarrow>
               Inr (''Shape: '' @ name @ [newline] @ ''Path: '' @ path @ [newline] @
                 ''Line: '' @ show_nat line @ [newline] @ ''Fields: '' @ debug_list flds)
           | None \<Rightarrow> Inl (Invalid_Params ''Symbol not found'')))"

definition show_error :: "compile_error \<Rightarrow> string" where
  "show_error ce = ce_code ce @ '' ('' @ ce_filename ce @ '':'' @ show_nat (ce_line ce) @ '')''"

definition get_diagnostics :: "mcp_env \<Rightarrow> (string \<Rightarrow> string option) \<Rightarrow> string \<Rightarrow> tool_error + string" where
  "get_diagnostics me files path =
     (case files path of
        None \<Rightarrow> Inl (Internal_Error (mc_read_error me path))
      | Some content \<Rightarrow>
          (case parse_source (mc_parse me) [] path content of
             Inr _ \<Rightarrow> Inr ''No errors found''
           | Inl (CErr ce) \<Rightarrow> Inr (''Error: '' @ show_error ce)
           | Inl (Panicked msg) \<Rightarrow> Inl (Tool_Panicked msg)
           | Inl NoFuel \<Rightarrow> Inl (Tool_Panicked ''fuel'')))"

section \<open>Patching a definition\<close>

text \<open>Find and replace: the first definition of the name at the top level.\<close>

fun patch_body :: "string \<Rightarrow> expr \<Rightarrow> expr list \<Rightarrow> expr list option" where
  "patch_body function_name new_body [] = None"
| "patch_body function_name new_body (e # es) =
     (case e of
        Define name params body exported \<Rightarrow>
          if name = function_name then Some (Define name params new_body exported # es)
          else map_option ((#) e) (patch_body function_name new_body es)
      | _ \<Rightarrow> map_option ((#) e) (patch_body function_name new_body es))"

text \<open>The file that is written: every expression and an empty line, then \<open>trim_end\<close>.\<close>

definition trim_end :: "string \<Rightarrow> string" where
  "trim_end s = rev (trim_start (rev s))"

definition render_module :: "f64_ops \<Rightarrow> expr list \<Rightarrow> string" where
  "render_module fo exprs =
     trim_end (concat (map (\<lambda>e. pretty fo e 0 @ [newline, newline]) exprs)) @ [newline]"

text \<open>Reading the first token is what \<open>Parser::new\<close> does; its errors have their own prefix.\<close>

definition parse_failure :: "mcp_env \<Rightarrow> string \<Rightarrow> string \<Rightarrow> compile_error \<Rightarrow> string" where
  "parse_failure me path content ce =
     (case parser_new (mc_parse me) (lexer_new content) path of
        Inl _ \<Rightarrow> ''Parse init error: '' | Inr _ \<Rightarrow> ''Parse error: '') @ show_error ce"

definition patch_symbol ::
  "mcp_env \<Rightarrow> string \<Rightarrow> expr \<Rightarrow> string option \<Rightarrow> server \<Rightarrow> (tool_error + string) \<times> server" where
  "patch_symbol me function_name new_body path_arg sv =
     (case resolve_function (mc_canon me) (sv_index sv) function_name path_arg of
        Inl e \<Rightarrow> (Inl (Unresolved e), sv)
      | Inr meta \<Rightarrow>
          (case sv_files sv (sm_path meta) of
             None \<Rightarrow> (Inl (Internal_Error (mc_read_error me (sm_path meta))), sv)
           | Some content \<Rightarrow>
               (case parse_source (mc_parse me) [] (sm_path meta) content of
                  Inl (Panicked msg) \<Rightarrow> (Inl (Tool_Panicked msg), sv)
                | Inl (CErr ce) \<Rightarrow> (Inl (Internal_Error (parse_failure me (sm_path meta) content ce)), sv)
                | Inl NoFuel \<Rightarrow> (Inl (Tool_Panicked ''fuel''), sv)
                | Inr exprs \<Rightarrow>
                    (case patch_body function_name new_body exprs of
                       None \<Rightarrow>
                         (Inl (Internal_Error ''Function definition not found in parsed source file''), sv)
                     | Some exprs' \<Rightarrow>
                         (let new_content = render_module (env_f64 (mc_parse me)) exprs' in
                          case mc_write me (sm_path meta) new_content of
                            Some (msg, left) \<Rightarrow>
                              (Inl (Internal_Error msg), sv\<lparr>sv_files := (sv_files sv)(sm_path meta := left)\<rparr>)
                          | None \<Rightarrow>
                              (case analyze_path me (sm_path meta)
                                  (sv\<lparr>sv_files := (sv_files sv)(sm_path meta \<mapsto> new_content)\<rparr>) of
                                 (Inl (Tool_Panicked msg), sv2) \<Rightarrow> (Inl (Tool_Panicked msg), sv2)
                               | (_, sv2) \<Rightarrow>
                                   (Inr (''Successfully patched function: '' @ function_name), sv2)))))))"

definition handle_tool :: "mcp_env \<Rightarrow> request \<Rightarrow> server \<Rightarrow> (tool_error + string) \<times> server" where
  "handle_tool me req sv =
     (case req of
        Analyze_Codebase path \<Rightarrow> analyze_path me path sv
      | Search_Symbols query \<Rightarrow> (Inr (join [newline] (search_symbols (sv_index sv) query)), sv)
      | Get_Definition name \<Rightarrow> (get_definition me (sv_index sv) name, sv)
      | Get_Diagnostics path \<Rightarrow> (get_diagnostics me (sv_files sv) path, sv)
      | Find_Callers symbol \<Rightarrow>
          (Inr (''Callers of '' @ symbol @ '': '' @ debug_list (find_callers (sv_index sv) symbol)), sv)
      | Structural_Search function_name \<Rightarrow>
          (case structural_search (sv_index sv) function_name of
             None \<Rightarrow> (Inl (Invalid_Params ''Function not found''), sv)
           | Some matches \<Rightarrow>
               (Inr (''Functions with same structure as '' @ function_name @ '': '' @ debug_list matches), sv))
      | Patch_Symbol function_name new_body path_arg \<Rightarrow>
          patch_symbol me function_name new_body path_arg sv)"

section \<open>The server as a state machine\<close>

text \<open>
  A run of the server: requests, and edits of files by other programs at any time in between.
\<close>

inductive server_run :: "mcp_env \<Rightarrow> server \<Rightarrow> server \<Rightarrow> bool" for me where
  start: "server_run me sv sv"
| request: "server_run me sv sv1 \<Longrightarrow> server_run me sv (snd (handle_tool me req sv1))"
| edit: "server_run me sv sv1 \<Longrightarrow> server_run me sv (sv1\<lparr>sv_files := files\<rparr>)"

text \<open>An index that some sequence of re-indexings of parsed texts leads to.\<close>

definition traced :: "mcp_env \<Rightarrow> codebase_index \<Rightarrow> bool" where
  "traced me idx \<longleftrightarrow>
     (\<exists>ops. idx = index_after (mc_digests me) ops \<and>
        (\<forall>(p, es) \<in> set ops. \<exists>content. parse_source (mc_parse me) [] p content = Inr es))"

lemma traced_new: "traced me index_new"
  unfolding traced_def by (rule exI[of _ "[]"]) (simp add: index_after_def)

lemma traced_reindex:
  assumes "traced me idx" "parse_source (mc_parse me) [] p content = Inr es"
  shows "traced me (fst (index_exprs (mc_digests me) p es idx))"
proof -
  from assms(1) obtain ops where ops: "idx = index_after (mc_digests me) ops"
    "\<forall>(p, es) \<in> set ops. \<exists>content. parse_source (mc_parse me) [] p content = Inr es"
    by (auto simp: traced_def)
  then have "fst (index_exprs (mc_digests me) p es idx) = index_after (mc_digests me) (ops @ [(p, es)])"
    by (simp add: index_after_def reindex_def)
  then show ?thesis
    unfolding traced_def using ops(2) assms(2) by (intro exI[of _ "ops @ [(p, es)]"]) auto
qed

lemma analyze_files_traced:
  "traced me (fst st) \<Longrightarrow> traced me (fst (fst (analyze_files me files ps st)))"
proof (induction me files ps st rule: analyze_files.induct)
  case (2 me files p ps st)
  show ?case
    using 2 traced_reindex[OF "2.prems"]
    by (auto split: option.split sum.split fail.split prod.split) (metis fst_conv)
qed simp

lemma analyze_path_traced:
  "traced me (sv_index sv) \<Longrightarrow> traced me (sv_index (snd (analyze_path me path sv)))"
  using analyze_files_traced[of me "(sv_index sv, 0)" "sv_files sv" "mc_walk me path"]
  by (auto simp: analyze_path_def split: prod.split option.split)

lemma patch_symbol_traced:
  "traced me (sv_index sv) \<Longrightarrow> traced me (sv_index (snd (patch_symbol me f b path sv)))"
proof -
  assume sv: "traced me (sv_index sv)"
  have "traced me (sv_index (snd (analyze_path me p (sv\<lparr>sv_files := fs\<rparr>))))" for p fs
    by (rule analyze_path_traced) (simp add: sv)
  then show ?thesis
    using sv
    by (auto simp: patch_symbol_def Let_def split: sum.split option.split fail.split prod.split tool_error.split)
       (metis snd_conv)+
qed

lemma handle_tool_traced:
  "traced me (sv_index sv) \<Longrightarrow> traced me (sv_index (snd (handle_tool me req sv)))"
  by (auto simp: handle_tool_def analyze_path_traced patch_symbol_traced split: request.split option.split)

lemma server_run_traced:
  "server_run me sv0 sv \<Longrightarrow> traced me (sv_index sv0) \<Longrightarrow> traced me (sv_index sv)"
  by (induction rule: server_run.induct) (simp_all add: handle_tool_traced)

lemma traced_symbol:
  assumes "traced me idx" "m \<in> set (symbols idx name)"
  shows "\<exists>content es ps ex. parse_source (mc_parse me) [] (sm_path m) content = Inr es \<and>
    Define name ps (sm_expr m) ex \<in> set es \<and> m = symbol_of (mc_digests me) (sm_path m) (sm_expr m)"
proof -
  from assms(1) obtain ops where ops: "idx = index_after (mc_digests me) ops"
    "\<forall>(p, es) \<in> set ops. \<exists>content. parse_source (mc_parse me) [] p content = Inr es"
    by (auto simp: traced_def)
  have "\<exists>m' \<in> set (symbols (index_after (mc_digests me) ops) name). m' = m"
    using assms(2) ops(1) by simp
  then obtain p body where b: "body \<in> set (bodies_of name (last_version ops p))"
    "m = symbol_of (mc_digests me) p body"
    unfolding symbols_after by blast
  then obtain es where "map_of (rev ops) p = Some es" "body \<in> set (bodies_of name es)"
    by (cases "map_of (rev ops) p") (simp_all add: last_version_def bodies_of_def)
  with ops(2) b(2) show ?thesis
    by (fastforce simp: bodies_of_iff symbol_of_def dest: map_of_SomeD)
qed

text \<open>C17: the index of a running server.  Whatever requests it has served and however files
  were edited in between, no name or shape is indexed twice, and every entry is a
  definition of the name in a text of its file that was parsed, with the calls and the
  fingerprint of its body.\<close>

theorem server_index_sound:
  assumes "server_run me \<lparr>sv_index = index_new, sv_files = files\<rparr> sv"
    and "m \<in> set (symbols (sv_index sv) name)"
  shows "index_ok (sv_index sv) \<and>
    (\<exists>content es ps ex. parse_source (mc_parse me) [] (sm_path m) content = Inr es \<and>
       Define name ps (sm_expr m) ex \<in> set es \<and>
       m = symbol_of (mc_digests me) (sm_path m) (sm_expr m))"
proof -
  have "traced me (sv_index sv)"
    using server_run_traced[OF assms(1)] traced_new by simp
  with traced_symbol[OF this assms(2)] index_after_ok show ?thesis by (auto simp: traced_def)
qed

section \<open>Round trip through the file\<close>

lemma trim_end_solid: "solid a \<Longrightarrow> list_all is_whitespace w \<Longrightarrow> trim_end (a @ w) = a"
proof (induction w rule: rev_induct)
  case Nil
  then show ?case by (cases a rule: rev_cases) (simp_all add: trim_end_def trim_start_def solid_def)
qed (simp add: trim_end_def trim_start_def)

lemma render_body:
  "es \<noteq> [] \<Longrightarrow> list_all (spellable fo) es \<Longrightarrow>
   \<exists>b. concat (map (\<lambda>e. pretty fo e 0 @ [newline, newline]) es) = b @ [newline, newline] \<and>
     spells fo b (concat (map toks es))"
proof (induction es rule: rev_nonempty_induct)
  case (single e)
  then show ?case using spells_pretty by fastforce
next
  case (snoc e es)
  then obtain b where b: "concat (map (\<lambda>e. pretty fo e 0 @ [newline, newline]) es) = b @ [newline, newline]"
    "spells fo b (concat (map toks es))" by auto
  have "blank [newline, newline]" by (simp add: blank_def is_whitespace_def)
  from spells_blank[OF b(2) this spells_pretty[of fo e 0]] snoc.prems b(1) show ?case
    by (intro exI[of _ "b @ [newline, newline] @ pretty fo e 0"]) simp
qed

lemma whitespace_newline [simp]: "is_whitespace newline"
  by (simp add: is_whitespace_def)

lemma scan_render:
  assumes "list_all (spellable fo) es"
  shows "scan fo (render_module fo es) = Some (concat (map toks es))"
proof (cases "es = []")
  case True
  then show ?thesis by (simp add: render_module_def trim_end_def trim_start_def)
next
  case False
  from render_body[OF this assms] obtain b where b:
    "concat (map (\<lambda>e. pretty fo e 0 @ [newline, newline]) es) = b @ [newline, newline]"
    "spells fo b (concat (map toks es))" by blast
  then have "render_module fo es = b @ [newline]"
    by (simp add: render_module_def trim_end_solid spells_def)
  moreover have "separates [newline]" by (simp add: separates_def)
  ultimately show ?thesis using b(2) by (simp add: spells_def)
qed

text \<open>C14: printing and parsing are inverse.  A module whose names, numbers and strings have a
  spelling, and in which every expression stands where its tokens are parsed as it, is read
  back from the text that is written for it, expression by expression.\<close>

theorem render_reparse:
  assumes "list_all (spellable (env_f64 env)) es"
    and "fits_module (\<lambda>m. env_resolver env m paths file) es"
  shows "parse_source env paths file (render_module (env_f64 env) es) = Inr es"
  by (rule parse_source_reads[OF scan_render[OF assms(1)] assms(1,2)])

definition printed_demo :: "expr list" where
  "printed_demo = [
     Shape ''point'' [''x'', ''y''] True,
     Define ''area'' [\<lparr>param_name = ''p'', param_expand = True\<rparr>, \<lparr>param_name = ''k'', param_expand = False\<rparr>]
       (Let ''w'' (Get (Borrow (DeBruijn 1)) ''x'' (Integer 0))
         (If (BinaryOp TLt (DeBruijn 0) (Integer 7))
           (Apply (Identifier ''area'') [Expand ''p'', DeBruijn 1])
           (Trap (Cat (String [quote, newline, backslash]) (Str (DeBruijn 0))) (TimeOp TAdd TimeNano TimeNow)))) False,
     Metadata (String ''test'') (String []) (Define ''t'' [] (Seq (Panic (String ''no'')) (Integer 1)) False)]"

lemma demo_names: "list_all name_ok [''point'', ''x'', ''y'', ''area'', ''p'', ''k'', ''w'', ''t'']"
  by code_simp

lemma render_reparse_witness:
  "parse_source plain_env [] ''f'' (render_module (env_f64 plain_env) printed_demo) = Inr printed_demo"
proof (rule render_reparse)
  show "list_all (spellable (env_f64 plain_env)) printed_demo"
    using demo_names by (simp add: printed_demo_def op_ok_def)
  show "fits_module (\<lambda>m. env_resolver plain_env m [] ''f'') printed_demo"
    by (simp add: printed_demo_def ends_params_def ends_fields_def ends_tn_def export_toks_def
        param_toks_def resolve_variable_def add_variable_def is_define_def)
qed

text \<open>
  \<open>analyze_path\<close> on a single file that parses, as \<open>patch_symbol\<close> calls it.
\<close>

lemma analyze_one_file:
  assumes "mc_walk me p = [p]" "llm_file p" "sv_files sv p = Some content"
    "parse_source (mc_parse me) [] p content = Inr es"
  shows "\<exists>msg. analyze_path me p sv = (Inr msg, sv\<lparr>sv_index := reindex (mc_digests me) p es (sv_index sv)\<rparr>)"
  using assms by (simp add: analyze_path_def reindex_def split: prod.split)

text \<open>C15: patching a definition.  Let the name resolve to an entry of a readable file that parses
  and defines it at the top level; let the patched module have a spelling and fit the parser,
  and let the file be what the walk over its path finds.  Then the text that is written parses
  to exactly the patched module; if the write succeeds, the file has this text and the index is
  the old one with this file re-indexed from the patched module; if it fails, the request fails
  with its message and the index stays as it was.\<close>

theorem patch_symbol_spec:
  assumes "resolve_function (mc_canon me) (sv_index sv) f path = Inr m"
    and "sv_files sv (sm_path m) = Some content"
    and "parse_source (mc_parse me) [] (sm_path m) content = Inr es"
    and "patch_body f b es = Some es'"
    and "list_all (spellable (env_f64 (mc_parse me))) es'"
    and "fits_module (\<lambda>md. env_resolver (mc_parse me) md [] (sm_path m)) es'"
    and "mc_walk me (sm_path m) = [sm_path m]" "llm_file (sm_path m)"
  shows "\<exists>text. parse_source (mc_parse me) [] (sm_path m) text = Inr es' \<and>
    patch_symbol me f b path sv =
      (case mc_write me (sm_path m) text of
         None \<Rightarrow>
           (Inr (''Successfully patched function: '' @ f),
            \<lparr>sv_index = reindex (mc_digests me) (sm_path m) es' (sv_index sv),
             sv_files = (sv_files sv)(sm_path m \<mapsto> text)\<rparr>)
       | Some (msg, left) \<Rightarrow>
           (Inl (Internal_Error msg),
            \<lparr>sv_index = sv_index sv, sv_files = (sv_files sv)(sm_path m := left)\<rparr>))"
proof -
  let ?text = "render_module (env_f64 (mc_parse me)) es'"
  let ?sv = "sv\<lparr>sv_files := (sv_files sv)(sm_path m \<mapsto> ?text)\<rparr>"
  have reparsed: "parse_source (mc_parse me) [] (sm_path m) ?text = Inr es'"
    by (rule parse_source_reads[OF scan_render[OF assms(5)] assms(5,6)])
  obtain msg where "analyze_path me (sm_path m) ?sv =
      (Inr msg, ?sv\<lparr>sv_index := reindex (mc_digests me) (sm_path m) es' (sv_index ?sv)\<rparr>)"
    using analyze_one_file[of me "sm_path m" ?sv ?text es'] assms(7,8) reparsed by auto
  with assms(1-4) reparsed show ?thesis
    by (intro exI[of _ ?text]) (simp add: patch_symbol_def split: option.split)
qed

definition demo_mcp :: mcp_env where
  "demo_mcp = \<lparr>mc_parse = plain_env, mc_digests = \<lparr>dg_sha = rev, dg_f64 = (\<lambda>_. ''0'')\<rparr>,
     mc_canon = (\<lambda>_. None), mc_walk = (\<lambda>p. [p]), mc_expr_debug = (\<lambda>_. []), mc_read_error = (\<lambda>p. p),
     mc_write = (\<lambda>_ _. None)\<rparr>"

definition demo_file :: "expr list" where
  "demo_file = [Define ''f'' [\<lparr>param_name = ''x'', param_expand = False\<rparr>] (Borrow (DeBruijn 0)) False]"

definition demo_text :: string where
  "demo_text = '': f x $ x''"

definition demo_server :: server where
  "demo_server = \<lparr>sv_index = reindex (mc_digests demo_mcp) ''a.llm'' demo_file index_new,
     sv_files = [''a.llm'' \<mapsto> demo_text]\<rparr>"

lemma demo_text_parses: "parse_source plain_env [] ''a.llm'' demo_text = Inr demo_file"
  by code_simp

lemma patch_symbol_spec_witness:
  "\<exists>text es'. patch_symbol demo_mcp ''f'' (BinaryOp TAdd (DeBruijn 0) (Integer 1)) None demo_server =
      (Inr ''Successfully patched function: f'',
       \<lparr>sv_index = reindex (mc_digests demo_mcp) ''a.llm'' es' (sv_index demo_server),
        sv_files = (sv_files demo_server)(''a.llm'' \<mapsto> text)\<rparr>) \<and>
    parse_source plain_env [] ''a.llm'' text = Inr es'"
proof -
  let ?b = "BinaryOp TAdd (DeBruijn 0) (Integer 1)"
  let ?m = "symbol_of (mc_digests demo_mcp) ''a.llm'' (Borrow (DeBruijn 0))"
  let ?es = "[Define ''f'' [\<lparr>param_name = ''x'', param_expand = False\<rparr>] ?b False]"
  have "symbols (sv_index demo_server) ''f'' = [?m]"
    by (simp add: demo_server_def reindex_def index_exprs_def demo_file_def index_expr_def purge_file_def
        index_new_def push_symbol_def symbols_def)
  then have "resolve_function (mc_canon demo_mcp) (sv_index demo_server) ''f'' None = Inr ?m"
    by (simp add: resolve_symbols)
  moreover have "list_all name_ok [''f'', ''x'']" by code_simp
  moreover have "llm_file ''a.llm''" by code_simp
  ultimately show ?thesis
    using patch_symbol_spec[of demo_mcp demo_server "''f''" None ?m demo_text demo_file ?b ?es] demo_text_parses
    by (simp add: demo_mcp_def demo_server_def demo_file_def symbol_of_def op_ok_def ends_params_def
        ends_fields_def plain_env_def[symmetric]) blast
qed

definition demo_run :: server where
  "demo_run = snd (handle_tool demo_mcp (Analyze_Codebase ''a.llm'')
     \<lparr>sv_index = index_new, sv_files = [''a.llm'' \<mapsto> demo_text]\<rparr>)"

lemma demo_run_symbols:
  "symbols (sv_index demo_run) ''f'' = [symbol_of (mc_digests demo_mcp) ''a.llm'' (Borrow (DeBruijn 0))]"
proof -
  have "llm_file ''a.llm''" by code_simp
  then show ?thesis
    using demo_text_parses
    by (simp add: demo_run_def handle_tool_def analyze_path_def demo_mcp_def index_exprs_def demo_file_def
        index_expr_def purge_file_def index_new_def push_symbol_def symbols_def)
qed

lemma server_index_sound_witness:
  "index_ok (sv_index demo_run) \<and>
    (\<exists>content es ps ex. parse_source plain_env [] ''a.llm'' content = Inr es \<and>
       Define ''f'' ps (Borrow (DeBruijn 0)) ex \<in> set es)"
proof -
  have "server_run demo_mcp \<lparr>sv_index = index_new, sv_files = [''a.llm'' \<mapsto> demo_text]\<rparr> demo_run"
    unfolding demo_run_def by (rule server_run.request) (rule server_run.start)
  from server_index_sound[OF this, of _ "''f''"] demo_run_symbols show ?thesis
    by (auto simp: symbol_of_def demo_mcp_def)
qed

end
