(* ===== verification/Verify.thy ===== *)
theory Verify
  imports Syntax "HOL-Library.AList"
begin

text \<open>
  The semantic verifier of \<open>analysis/verify.rs\<close>: names, shapes, arities of operators and
  the ownership states of the variables.  The \<open>&mut VerificationContext\<close> of the code is
  passed in and returned; the error of the code is a string.  The \<open>HashMap\<close> of shapes,
  whose values are enumerated, is an association list with distinct keys; the other two maps
  are partial functions.
\<close>

section \<open>The verifier\<close>

datatype var_state = Available | Moved | Borrowed | MutBorrowed

record vctx =
  vc_shapes :: "(string \<times> string list) list"
  vc_functions :: "string \<Rightarrow> usize option"
  vc_stack :: "var_state list"
  vc_stack_shapes :: "string option list"
  vc_expand :: "string \<Rightarrow> usize option"

text \<open>\<open>xs[xs.len() - 1 - index]\<close>, for \<open>index < xs.len()\<close>.\<close>

definition slot :: "'a list \<Rightarrow> usize \<Rightarrow> usize" where
  "slot xs index = length xs - 1 - index"

lemma slot_less [simp]: "index < length xs \<Longrightarrow> slot xs index < length xs"
  by (simp add: slot_def)

primrec infer_shape :: "expr \<Rightarrow> string option list \<Rightarrow> string option" where
  "infer_shape (New name e) ss = Some name"
| "infer_shape (Unpack e name) ss = Some name"
| "infer_shape (Map e field func) ss = infer_shape e ss"
| "infer_shape (Filter e func) ss = infer_shape e ss"
| "infer_shape (DeBruijn idx) ss = (if idx < length ss then ss ! slot ss idx else None)"
| "infer_shape (Move inner) ss = infer_shape inner ss"
| "infer_shape (Borrow inner) ss = infer_shape inner ss"
| "infer_shape (MutBorrow inner) ss = infer_shape inner ss"
| "infer_shape (Integer i) ss = None"
| "infer_shape (Float x) ss = None"
| "infer_shape (Identifier s) ss = None"
| "infer_shape (BinaryOp tok l r) ss = None"
| "infer_shape (Apply f args) ss = None"
| "infer_shape (Define name params body exported) ss = None"
| "infer_shape (Shape name fs exported) ss = None"
| "infer_shape (Get inst field idx) ss = None"
| "infer_shape (Set inst field idx val) ss = None"
| "infer_shape (If c t f) ss = None"
| "infer_shape (Expand name) ss = None"
| "infer_shape (Let name val body) ss = None"
| "infer_shape (Import module symbol arity) ss = None"
| "infer_shape (String s) ss = None"
| "infer_shape (Len e) ss = None"
| "infer_shape (Cat l r) ss = None"
| "infer_shape (Sub s st len) ss = None"
| "infer_shape (Loc s pat) ss = None"
| "infer_shape (Reg s pat) ss = None"
| "infer_shape (Read h) ss = None"
| "infer_shape (Write h s) ss = None"
| "infer_shape (Str e) ss = None"
| "infer_shape (Split s dl i) ss = None"
| "infer_shape TimeNow ss = None"
| "infer_shape TimeNano ss = None"
| "infer_shape (TimeGet t i) ss = None"
| "infer_shape (TimeSet y m dy h mn s) ss = None"
| "infer_shape (Env k) ss = None"
| "infer_shape (Seq l r) ss = None"
| "infer_shape (Pack e) ss = None"
| "infer_shape (Metadata tag val t) ss = None"
| "infer_shape (OtelEmit t a1 a2 a3) ss = None"
| "infer_shape (MoneyOp tok a b) ss = None"
| "infer_shape (MoneyStr e) ss = None"
| "infer_shape (TimeOp tok a b) ss = None"
| "infer_shape TimeZone ss = None"
| "infer_shape (Panic e) ss = None"
| "infer_shape (Trap t f) ss = None"
| "infer_shape (HttpClient m u b) ss = None"
| "infer_shape (HttpServer op arg) ss = None"
| "infer_shape (HttpHeader req name) ss = None"
| "infer_shape (FileOpen p m) ss = None"

type_synonym verifier = "vctx \<Rightarrow> string + vctx"

definition unknown_identifier :: "string \<Rightarrow> string" where
  "unknown_identifier name = ''E013: Unknown identifier '' @ name"

text \<open>Reading the slot at an absolute position, and moving out of it.\<close>

definition read_slot :: "usize \<Rightarrow> verifier" where
  "read_slot i ctx = (if vc_stack ctx ! i = Moved then Inl ''E004'' else Inr ctx)"

definition move_slot :: "usize \<Rightarrow> verifier" where
  "move_slot i ctx =
     (if vc_stack ctx ! i = Moved then Inl ''E005''
      else if vc_stack ctx ! i = Borrowed then Inl ''E016''
      else Inr (ctx\<lparr>vc_stack := (vc_stack ctx)[i := Moved]\<rparr>))"

text \<open>The two ways a variable is named: a de Bruijn index, and an expansion parameter.\<close>

definition at_index :: "(usize \<Rightarrow> verifier) \<Rightarrow> usize \<Rightarrow> verifier" where
  "at_index k index ctx =
     (if index \<ge> length (vc_stack ctx) then Inl ''E003'' else k (slot (vc_stack ctx) index) ctx)"

definition at_expand :: "(usize \<Rightarrow> verifier) \<Rightarrow> string \<Rightarrow> verifier" where
  "at_expand k name ctx =
     (case vc_expand ctx name of
        Some index \<Rightarrow> if index \<ge> length (vc_stack ctx) then Inl ''E003'' else k index ctx
      | None \<Rightarrow> Inl (unknown_identifier name))"

fun verify_seq :: "verifier list \<Rightarrow> verifier" where
  "verify_seq [] ctx = Inr ctx"
| "verify_seq (v # vs) ctx = rbind (v ctx) (verify_seq vs)"

definition verify_let :: "expr \<Rightarrow> verifier \<Rightarrow> verifier \<Rightarrow> verifier" where
  "verify_let val_expr v b ctx =
     rbind (v ctx) (\<lambda>ctx1.
     rbind (b (ctx1\<lparr>vc_stack := vc_stack ctx1 @ [Available],
       vc_stack_shapes := vc_stack_shapes ctx1 @ [infer_shape val_expr (vc_stack_shapes ctx1)]\<rparr>))
       (\<lambda>ctx2. Inr (ctx2\<lparr>vc_stack := butlast (vc_stack ctx2),
          vc_stack_shapes := butlast (vc_stack_shapes ctx2)\<rparr>)))"

definition verify_if :: "verifier \<Rightarrow> verifier \<Rightarrow> verifier \<Rightarrow> verifier" where
  "verify_if c t f ctx =
     rbind (c ctx) (\<lambda>ctx1.
     rbind (t ctx1) (\<lambda>ctx2.
     rbind (f (ctx2\<lparr>vc_stack := vc_stack ctx1, vc_stack_shapes := vc_stack_shapes ctx1\<rparr>)) (\<lambda>ctx3.
     if vc_stack ctx2 \<noteq> vc_stack ctx3 then Inl ''E009'' else Inr ctx3)))"

text \<open>\<open>Get\<close> and \<open>Set\<close>: the field in the inferred shape, or in any shape.\<close>

definition field_found :: "expr \<Rightarrow> string \<Rightarrow> vctx \<Rightarrow> bool" where
  "field_found inst field ctx =
     (case infer_shape inst (vc_stack_shapes ctx) of
        Some shape_name \<Rightarrow>
          (case map_of (vc_shapes ctx) shape_name of Some fs \<Rightarrow> field \<in> set fs | None \<Rightarrow> False)
      | None \<Rightarrow> list_ex (\<lambda>(name, fs). field \<in> set fs) (vc_shapes ctx))"

definition check_field :: "expr \<Rightarrow> string \<Rightarrow> verifier" where
  "check_field inst field ctx = (if field_found inst field ctx then Inr ctx else Inl ''E007'')"

definition has_shape :: "vctx \<Rightarrow> string \<Rightarrow> bool" where
  "has_shape ctx name = (map_of (vc_shapes ctx) name \<noteq> None)"

definition check_shape :: "string \<Rightarrow> verifier" where
  "check_shape name ctx = (if has_shape ctx name then Inr ctx else Inl ''E006'')"

definition check_inferred :: "expr \<Rightarrow> verifier" where
  "check_inferred e ctx =
     (case infer_shape e (vc_stack_shapes ctx) of
        Some shape_name \<Rightarrow> check_shape shape_name ctx | None \<Rightarrow> Inl ''E006'')"

definition check_map_field :: "expr \<Rightarrow> string \<Rightarrow> verifier" where
  "check_map_field e field ctx =
     (case infer_shape e (vc_stack_shapes ctx) of
        Some shape_name \<Rightarrow>
          (case map_of (vc_shapes ctx) shape_name of
             Some fs \<Rightarrow> if field \<in> set fs then Inr ctx else Inl ''E007''
           | None \<Rightarrow> Inl ''E006'')
      | None \<Rightarrow> Inl ''E006'')"

text \<open>A function given by name must be known; \<open>Map\<close> and \<open>Filter\<close> accept anything else.\<close>

definition check_func :: "expr \<Rightarrow> verifier" where
  "check_func func_expr ctx =
     (case func_expr of
        Identifier name \<Rightarrow> if vc_functions ctx name = None then Inl ''E010'' else Inr ctx
      | _ \<Rightarrow> Inr ctx)"

definition check_callee :: "expr \<Rightarrow> verifier" where
  "check_callee func_expr ctx =
     (case func_expr of
        Identifier name \<Rightarrow> if vc_functions ctx name = None then Inl ''E010'' else Inr ctx
      | _ \<Rightarrow> Inl ''E012'')"

text \<open>What a \<open>Trap\<close> captures: the variables that are not moved, as borrowed ones.\<close>

definition captured :: "var_state \<Rightarrow> bool" where
  "captured s = (s = Available \<or> s = Borrowed)"

definition capture_context :: "vctx \<Rightarrow> vctx" where
  "capture_context ctx =
     ctx\<lparr>vc_stack := map (\<lambda>_. Borrowed) (filter captured (vc_stack ctx)),
         vc_stack_shapes :=
           map (\<lambda>i. vc_stack_shapes ctx ! i)
             (filter (\<lambda>i. captured (vc_stack ctx ! i)) [0..<length (vc_stack ctx)])\<rparr>"

definition verify_trap :: "verifier \<Rightarrow> verifier \<Rightarrow> verifier" where
  "verify_trap t f ctx =
     rbind (t (capture_context ctx)) (\<lambda>_.
     rbind (f (capture_context ctx)) (\<lambda>_. Inr ctx))"

definition verify_identifier :: "string \<Rightarrow> verifier" where
  "verify_identifier name ctx =
     (if vc_functions ctx name \<noteq> None then Inr ctx else Inl (unknown_identifier name))"

definition verify_move :: "expr \<Rightarrow> verifier \<Rightarrow> verifier" where
  "verify_move inner v =
     (case inner of
        DeBruijn index \<Rightarrow> at_index move_slot index
      | Expand name \<Rightarrow> at_expand move_slot name
      | _ \<Rightarrow> v)"

definition operator_ok :: "token \<Rightarrow> bool" where
  "operator_ok t =
     (t \<in> {TAdd, TSub, TMul, TDiv, TEq, TLt, TGt, TBitAnd, TBitOr, TBitXor})"

primrec verify_expr :: "expr \<Rightarrow> verifier" where
  "verify_expr (Integer i) = Inr"
| "verify_expr (Float x) = Inr"
| "verify_expr (String s) = Inr"
| "verify_expr TimeZone = Inr"
| "verify_expr TimeNow = Inr"
| "verify_expr TimeNano = Inr"
| "verify_expr (DeBruijn index) = at_index read_slot index"
| "verify_expr (Identifier name) = verify_identifier name"
| "verify_expr (Expand name) = at_expand read_slot name"
| "verify_expr (Move inner) = verify_move inner (verify_expr inner)"
| "verify_expr (Borrow inner) = verify_expr inner"
| "verify_expr (MutBorrow inner) = verify_expr inner"
| "verify_expr (Let name val body) = verify_let val (verify_expr val) (verify_expr body)"
| "verify_expr (If c t f) = verify_if (verify_expr c) (verify_expr t) (verify_expr f)"
| "verify_expr (Seq l r) = verify_seq [verify_expr l, verify_expr r]"
| "verify_expr (New shape cnt) = verify_seq [check_shape shape, verify_expr cnt]"
| "verify_expr (Get inst field idx) =
     verify_seq [verify_expr inst, verify_expr idx, check_field inst field]"
| "verify_expr (Set inst field idx val) =
     verify_seq [verify_expr inst, verify_expr idx, verify_expr val, check_field inst field]"
| "verify_expr (Pack e) = verify_seq [verify_expr e, check_inferred e]"
| "verify_expr (Unpack e shape) = verify_seq [verify_expr e, check_shape shape]"
| "verify_expr (Map e field func) =
     verify_seq [verify_expr e, check_map_field e field, check_func func]"
| "verify_expr (Filter e func) = verify_seq [verify_expr e, check_inferred e, check_func func]"
| "verify_expr (Apply func args) = verify_seq (check_callee func # map verify_expr args)"
| "verify_expr (Trap t f) = verify_trap (verify_expr t) (verify_expr f)"
| "verify_expr (BinaryOp tok l r) =
     (if operator_ok tok then verify_seq [verify_expr l, verify_expr r] else (\<lambda>ctx. Inl ''E008''))"
| "verify_expr (Cat l r) = verify_seq [verify_expr l, verify_expr r]"
| "verify_expr (Loc s pat) = verify_seq [verify_expr s, verify_expr pat]"
| "verify_expr (Reg s pat) = verify_seq [verify_expr s, verify_expr pat]"
| "verify_expr (Write h s) = verify_seq [verify_expr h, verify_expr s]"
| "verify_expr (Sub s st len) = verify_seq [verify_expr s, verify_expr st, verify_expr len]"
| "verify_expr (Split s dl i) = verify_seq [verify_expr s, verify_expr dl, verify_expr i]"
| "verify_expr (TimeGet t i) = verify_seq [verify_expr t, verify_expr i]"
| "verify_expr (TimeSet y m dy h mn s) =
     verify_seq [verify_expr y, verify_expr m, verify_expr dy, verify_expr h, verify_expr mn,
       verify_expr s]"
| "verify_expr (MoneyOp tok a b) = verify_seq [verify_expr a, verify_expr b]"
| "verify_expr (TimeOp tok a b) = verify_seq [verify_expr a, verify_expr b]"
| "verify_expr (HttpClient m u b) = verify_seq [verify_expr m, verify_expr u, verify_expr b]"
| "verify_expr (HttpServer op arg) = verify_seq [verify_expr op, verify_expr arg]"
| "verify_expr (HttpHeader req name) = verify_seq [verify_expr req, verify_expr name]"
| "verify_expr (FileOpen p m) = verify_seq [verify_expr p, verify_expr m]"
| "verify_expr (Len e) = verify_expr e"
| "verify_expr (Str e) = verify_expr e"
| "verify_expr (Read h) = verify_expr h"
| "verify_expr (Env k) = verify_expr k"
| "verify_expr (MoneyStr e) = verify_expr e"
| "verify_expr (Panic e) = verify_expr e"
| "verify_expr (Define name params body exported) = verify_expr body"
| "verify_expr (Shape name fs exported) = Inr"
| "verify_expr (Import module symbol arity) = Inr"
| "verify_expr (Metadata tag val t) = verify_seq [verify_expr tag, verify_expr val, verify_expr t]"
| "verify_expr (OtelEmit t a1 a2 a3) =
     verify_seq [verify_expr t, verify_expr a1, verify_expr a2, verify_expr a3]"

section \<open>Modules\<close>

type_synonym declarations = "(string \<times> string list) list \<times> (string \<Rightarrow> usize option)"

definition register :: "expr \<Rightarrow> declarations \<Rightarrow> declarations" where
  "register e ds =
     (case ds of (shapes, functions) \<Rightarrow>
       (case unwrap_metadata e of
          Shape name fs exported \<Rightarrow> (AList.update name fs shapes, functions)
        | Import module symbol arity \<Rightarrow> (shapes, functions(symbol \<mapsto> arity))
        | Define name params body exported \<Rightarrow> (shapes, functions(name \<mapsto> length params))
        | _ \<Rightarrow> ds))"

definition register_all :: "expr list \<Rightarrow> declarations" where
  "register_all exprs = fold register exprs ([], Map.empty)"

fun expand_params :: "nat \<Rightarrow> param list \<Rightarrow> (string \<Rightarrow> usize option) \<Rightarrow> (string \<Rightarrow> usize option)" where
  "expand_params i [] m = m"
| "expand_params i (p # ps) m =
     expand_params (Suc i) ps (if param_expand p then m(param_name p \<mapsto> i) else m)"

definition entry_context :: "declarations \<Rightarrow> param list \<Rightarrow> vctx" where
  "entry_context ds params =
     \<lparr>vc_shapes = fst ds, vc_functions = snd ds,
      vc_stack = map (\<lambda>_. Available) params, vc_stack_shapes = map (\<lambda>_. None) params,
      vc_expand = expand_params 0 params Map.empty\<rparr>"

definition verify_top :: "string \<Rightarrow> declarations \<Rightarrow> expr \<Rightarrow> compile_error option" where
  "verify_top filename ds e =
     (case unwrap_metadata e of
        Define name params body exported \<Rightarrow>
          (case verify_expr body (entry_context ds params) of
             Inl err_code \<Rightarrow> Some (compile_error_new err_code filename 1)
           | Inr ctx \<Rightarrow> None)
      | _ \<Rightarrow> None)"

text \<open>The result is the error of the first definition that has one.\<close>

fun verify_defs :: "string \<Rightarrow> declarations \<Rightarrow> expr list \<Rightarrow> compile_error option" where
  "verify_defs filename ds [] = None"
| "verify_defs filename ds (e # es) =
     (case verify_top filename ds e of Some err \<Rightarrow> Some err | None \<Rightarrow> verify_defs filename ds es)"

definition verify_module :: "expr list \<Rightarrow> string \<Rightarrow> compile_error option" where
  "verify_module exprs filename = verify_defs filename (register_all exprs) exprs"

end
