(* ===== verification/Symbols.thy ===== *)
theory Symbols
  imports Parser Analysis Verify "HOL-Library.AList"
begin

text \<open>
  Symbol names of the code generator (\<open>codegen/symbol.rs\<close>): how a function is called in
  the object file, how a call finds it, and the signature file that lets other modules import
  it.  The LLVM module is the list of its functions with their number of parameters, in the
  order they were added.  Parameters: the hash of the input path (\<open>DefaultHasher\<close>), and
  the name LLVM gives to a function whose name is taken.
\<close>

section \<open>The state of the code generator\<close>

record codegen =
  cg_input_path :: string
  cg_imports :: "string \<Rightarrow> string option"
  cg_functions :: "(string \<times> nat) list"
  cg_shapes :: "(string \<times> string list) list"
  cg_templates :: "(string \<times> (param list \<times> expr)) list"
  cg_exports :: "string list"
  cg_has_exports :: bool
  cg_returns_ptr :: "string \<Rightarrow> bool option"
  cg_param_ptrs :: "string \<Rightarrow> bool list option"

record llvm_names =
  ln_hash :: "string \<Rightarrow> nat"
  ln_fresh :: "string list \<Rightarrow> string \<Rightarrow> string"

definition ffi_functions :: "string list" where
  "ffi_functions = [''http_get'', ''http_post'', ''get'', ''post'', ''json_parse'', ''parse'',
     ''json_stringify'', ''stringify'', ''json_get_str'', ''get_str'', ''sign'', ''encrypt'',
     ''decrypt'', ''unwrap'', ''serve'', ''https_serve'', ''accept'', ''connect'',
     ''connect_binding'', ''query'', ''error'', ''db_connect'', ''db_connect_binding'',
     ''db_query'', ''db_error'']"

definition codegen_new :: "string \<Rightarrow> codegen" where
  "codegen_new module_name =
     \<lparr>cg_input_path = module_name, cg_imports = Map.empty, cg_functions = [], cg_shapes = [],
      cg_templates = [], cg_exports = [], cg_has_exports = False,
      cg_returns_ptr = (\<lambda>f. if f \<in> set ffi_functions then Some True else None),
      cg_param_ptrs = Map.empty\<rparr>"

text \<open>\<open>module.get_function(name).is_some()\<close> and \<open>module.add_function(name, ...)\<close>.\<close>

definition has_function :: "codegen \<Rightarrow> string \<Rightarrow> bool" where
  "has_function cg name = (name \<in> set (map fst (cg_functions cg)))"

definition add_function :: "llvm_names \<Rightarrow> string \<Rightarrow> nat \<Rightarrow> codegen \<Rightarrow> codegen" where
  "add_function ln name arity cg =
     (let taken = map fst (cg_functions cg);
          name' = (if name \<in> set taken then ln_fresh ln taken name else name) in
      cg\<lparr>cg_functions := cg_functions cg @ [(name', arity)]\<rparr>)"

section \<open>Names\<close>

text \<open>\<open>Path::file_stem\<close>.\<close>

definition file_name :: "string \<Rightarrow> string option" where
  "file_name path =
     (let parts = filter (\<lambda>c. c \<noteq> [] \<and> c \<noteq> ''.'') (split_on (CHR ''/'') path) in
      if parts = [] \<or> last parts = ''..'' then None else Some (last parts))"

definition file_stem :: "string \<Rightarrow> string option" where
  "file_stem path =
     map_option (\<lambda>name.
       let stem = rev (drop 1 (dropWhile (\<lambda>c. c \<noteq> CHR ''.'') (rev name))) in
       if stem = [] then name else stem) (file_name path)"

definition get_module_name :: "codegen \<Rightarrow> string" where
  "get_module_name cg =
     (case file_stem (cg_input_path cg) of Some s \<Rightarrow> s | None \<Rightarrow> ''main'')"

definition namespaced :: "string \<Rightarrow> string \<Rightarrow> string" where
  "namespaced module name =
     (if module = ''main'' \<or> module = ''test'' then name else module @ ''_'' @ name)"

definition mangle_name :: "llvm_names \<Rightarrow> codegen \<Rightarrow> string \<Rightarrow> string" where
  "mangle_name ln cg name =
     (if name = ''main'' then name
      else ''__llm_'' @ show_hex (ln_hash ln (cg_input_path cg)) @ ''_'' @ name)"

definition resolve_func_name :: "llvm_names \<Rightarrow> codegen \<Rightarrow> string \<Rightarrow> string" where
  "resolve_func_name ln cg name =
     (case cg_imports cg name of
        Some module \<Rightarrow> namespaced module name
      | None \<Rightarrow>
          (let own = namespaced (get_module_name cg) name;
               local_mangled = mangle_name ln cg name in
           if has_function cg own then own
           else if has_function cg local_mangled then local_mangled
           else if has_function cg name then name
           else local_mangled))"

definition gen_import :: "llvm_names \<Rightarrow> string \<Rightarrow> string \<Rightarrow> usize \<Rightarrow> codegen \<Rightarrow> codegen" where
  "gen_import ln module_alias symbol_name arity cg =
     (let cg1 = cg\<lparr>cg_imports := (cg_imports cg)(symbol_name \<mapsto> module_alias)\<rparr> in
      add_function ln (namespaced module_alias symbol_name) arity cg1)"

definition gen_shape :: "string \<Rightarrow> string list \<Rightarrow> bool \<Rightarrow> codegen \<Rightarrow> codegen" where
  "gen_shape name flds exported cg =
     (let cg1 = (if exported
                 then cg\<lparr>cg_has_exports := True, cg_exports := cg_exports cg @ [name]\<rparr> else cg) in
      cg1\<lparr>cg_shapes := AList.update name flds (cg_shapes cg1)\<rparr>)"

section \<open>Declaring a function\<close>

text \<open>The context in which \<open>gen_function\<close> verifies the body again.\<close>

definition known_call :: "llvm_names \<Rightarrow> codegen \<Rightarrow> string \<Rightarrow> bool" where
  "known_call ln cg call_name =
     (let resolved = resolve_func_name ln cg call_name in
      has_function cg resolved \<or> map_of (cg_templates cg) resolved \<noteq> None \<or>
      has_function cg call_name \<or> cg_param_ptrs cg resolved \<noteq> None \<or>
      cg_param_ptrs cg call_name \<noteq> None)"

definition call_table :: "llvm_names \<Rightarrow> codegen \<Rightarrow> string \<Rightarrow> nat \<Rightarrow> expr \<Rightarrow> string \<Rightarrow> usize option" where
  "call_table ln cg name arity body =
     (fold (\<lambda>call_name fns. if known_call ln cg call_name then fns(call_name \<mapsto> 0) else fns)
        (get_calls body) Map.empty)(name \<mapsto> arity)"

definition verify_body ::
  "llvm_names \<Rightarrow> codegen \<Rightarrow> string \<Rightarrow> param list \<Rightarrow> expr \<Rightarrow> compile_error option" where
  "verify_body ln cg name params body =
     (let ctx = entry_context (cg_shapes cg, call_table ln cg name (length params) body) params in
      case verify_expr body ctx of
        Inl err_code \<Rightarrow> Some (compile_error_new err_code (cg_input_path cg) 1)
      | Inr _ \<Rightarrow> None)"

definition final_name :: "llvm_names \<Rightarrow> codegen \<Rightarrow> string \<Rightarrow> bool \<Rightarrow> string" where
  "final_name ln cg name exported =
     (if name = ''main'' then name
      else if exported then namespaced (get_module_name cg) name
      else mangle_name ln cg name)"

text \<open>
  \<open>gen_function\<close> up to the body: verification, the export list, and the entry in the module;
  a function with an expansion parameter becomes a template, with an empty function of its
  name.
\<close>

definition declare_function ::
  "llvm_names \<Rightarrow> string \<Rightarrow> param list \<Rightarrow> expr \<Rightarrow> bool \<Rightarrow> codegen \<Rightarrow> compile_error + codegen" where
  "declare_function ln name params body exported cg =
     (case verify_body ln cg name params body of
        Some err \<Rightarrow> Inl err
      | None \<Rightarrow>
          (let cg1 = (if exported
                      then cg\<lparr>cg_has_exports := True, cg_exports := cg_exports cg @ [name]\<rparr> else cg);
               final = final_name ln cg1 name exported in
           if \<exists>p \<in> set params. param_expand p
           then Inr (add_function ln final 0
                  (cg1\<lparr>cg_templates := AList.update final (params, body) (cg_templates cg1)\<rparr>))
           else if has_function cg1 final then Inr cg1
           else Inr (add_function ln final (length params) cg1)))"

section \<open>The signature file\<close>

definition signature_prefix :: "codegen \<Rightarrow> string" where
  "signature_prefix cg =
     (let m = get_module_name cg in if m = ''main'' \<or> m = ''test'' then [] else m @ ''_'')"

definition clean_name :: "codegen \<Rightarrow> string \<Rightarrow> string" where
  "clean_name cg full =
     (let prefix = signature_prefix cg in
      if prefix \<noteq> [] \<and> starts_with full prefix then drop (length prefix) full else full)"

definition internal_name :: "string \<Rightarrow> bool" where
  "internal_name full =
     (full = ''main'' \<or> starts_with full ''trap_'' \<or> starts_with full ''parallel_'' \<or>
      starts_with full ''__llm_'')"

definition shape_line :: "string \<times> string list \<Rightarrow> string" where
  "shape_line s = (case s of (name, flds) \<Rightarrow> ''# '' @ name @ '' '' @ join '' '' flds @ [newline])"

definition func_line :: "string \<times> nat \<Rightarrow> string" where
  "func_line f = (case f of (name, arity) \<Rightarrow> '': '' @ name @ '' '' @ show_nat arity @ [newline])"

text \<open>What is exported: the shapes, then the functions of the module, then the templates.\<close>

definition exported_shapes :: "codegen \<Rightarrow> (string \<times> string list) list" where
  "exported_shapes cg =
     filter (\<lambda>(name, flds). name \<in> set (cg_exports cg))
       (map (\<lambda>(name, flds). (clean_name cg name, flds)) (cg_shapes cg))"

definition exported_functions :: "codegen \<Rightarrow> (string \<times> nat) list" where
  "exported_functions cg =
     filter (\<lambda>(name, arity). name \<in> set (cg_exports cg))
       (map (\<lambda>(full, arity). (clean_name cg full, arity))
         (filter (\<lambda>(full, arity). \<not> internal_name full) (cg_functions cg)) @
        map (\<lambda>(full, params, body). (clean_name cg full, length params)) (cg_templates cg))"

definition emit_signature_file :: "codegen \<Rightarrow> string" where
  "emit_signature_file cg =
     concat (map shape_line (exported_shapes cg)) @ concat (map func_line (exported_functions cg))"

section \<open>Reading the signature file back\<close>

definition word :: "string \<Rightarrow> bool" where
  "word s = (s \<noteq> [] \<and> list_all (\<lambda>c. \<not> is_whitespace c) s)"

lemma words_acc_word: "list_all (\<lambda>c. \<not> is_whitespace c) w \<Longrightarrow> words_acc acc (w @ r) = words_acc (rev w @ acc) r"
  by (induction w arbitrary: acc) simp_all

lemma is_whitespace_space [simp]: "is_whitespace space"
  by (simp add: is_whitespace_def)

lemma words_acc_spaces: "list_all is_whitespace w \<Longrightarrow> words_acc acc w = (if acc = [] then [] else [rev acc])"
  by (induction w arbitrary: acc) auto

lemma words_acc_trailing: "list_all is_whitespace w \<Longrightarrow> words_acc acc (s @ w) = words_acc acc s"
  by (induction s arbitrary: acc) (simp_all add: words_acc_spaces)

lemma split_whitespace_trim [simp]: "split_whitespace (trim s) = split_whitespace s"
proof -
  have "words_acc [] (dropWhile is_whitespace s) = words_acc [] s" for s
    by (induction s) simp_all
  moreover have "words_acc acc (rev (dropWhile is_whitespace (rev s))) = words_acc acc s" for acc s
  proof -
    have "s = rev (dropWhile is_whitespace (rev s)) @ rev (takeWhile is_whitespace (rev s))"
      by (metis rev_append rev_rev_ident takeWhile_dropWhile_id)
    moreover have "list_all is_whitespace (rev (takeWhile is_whitespace (rev s)))"
      by (auto simp: list_all_iff dest: set_takeWhileD)
    ultimately show ?thesis by (metis words_acc_trailing)
  qed
  ultimately show ?thesis by (simp add: split_whitespace_def trim_def trim_start_def)
qed

lemma split_whitespace_cons:
  "word w \<Longrightarrow> split_whitespace (w @ space # r) = w # split_whitespace r"
  by (simp add: split_whitespace_def words_acc_word word_def)

lemma split_whitespace_word: "word w \<Longrightarrow> split_whitespace w = [w]"
  using words_acc_word[of w "[]" "[]"] by (simp add: split_whitespace_def word_def)

lemma split_whitespace_space [simp]: "split_whitespace (space # r) = split_whitespace r"
  by (simp add: split_whitespace_def)

lemma split_whitespace_join: "list_all word ws \<Longrightarrow> split_whitespace (join '' '' ws) = ws"
proof (induction ws)
  case (Cons w ws)
  then show ?case by (cases ws) (simp_all add: split_whitespace_cons split_whitespace_word)
qed (simp add: split_whitespace_def)

text \<open>Lines.\<close>

definition line_ok :: "string \<Rightarrow> bool" where
  "line_ok l = (newline \<notin> set l \<and> (l = [] \<or> last l \<noteq> carriage_return))"

lemma split_on_line: "c \<notin> set l \<Longrightarrow> split_on c (l @ c # r) = l # split_on c r"
  by (induction l) auto

lemma split_on_lines:
  "list_all line_ok ls \<Longrightarrow> split_on newline (concat (map (\<lambda>l. l @ [newline]) ls)) = ls @ [[]]"
  by (induction ls) (simp_all add: split_on_line line_ok_def)

lemma str_lines_concat:
  assumes "list_all line_ok ls"
  shows "str_lines (concat (map (\<lambda>l. l @ [newline]) ls)) = ls"
proof -
  have "map strip_cr ls = ls"
    using assms by (induction ls) (auto simp: strip_cr_def line_ok_def)
  then show ?thesis by (simp add: str_lines_def split_on_lines[OF assms])
qed

definition shape_text :: "string \<times> string list \<Rightarrow> string" where
  "shape_text s = (case s of (name, flds) \<Rightarrow> ''# '' @ name @ '' '' @ join '' '' flds)"

definition func_text :: "string \<times> nat \<Rightarrow> string" where
  "func_text f = (case f of (name, arity) \<Rightarrow> '': '' @ name @ '' '' @ show_nat arity)"

definition shape_words :: "string \<times> string list \<Rightarrow> bool" where
  "shape_words s = (case s of (name, flds) \<Rightarrow> word name \<and> list_all word flds)"

definition func_words :: "string \<times> nat \<Rightarrow> bool" where
  "func_words f = (case f of (name, arity) \<Rightarrow> word name \<and> arity < 2 ^ 64)"

lemma word_line: "word w \<Longrightarrow> newline \<notin> set w \<and> carriage_return \<notin> set w"
  by (auto simp: word_def list_all_iff is_whitespace_def Let_def)

lemma join_words: "list_all word ws \<Longrightarrow> newline \<notin> set (join '' '' ws) \<and> carriage_return \<notin> set (join '' '' ws)"
proof (induction ws)
  case (Cons w ws)
  then show ?case by (cases ws) (auto dest: word_line)
qed simp

lemma digits_word: "word (show_nat n)"
  using show_dec_digits[of "int n"] whitespace_not_digit
  by (auto simp: word_def show_nat_def list_all_iff)

lemma line_ok_texts:
  "shape_words s \<Longrightarrow> line_ok (shape_text s)" "func_words f \<Longrightarrow> line_ok (func_text f)"
proof -
  have ok: "line_ok l" if "newline \<notin> set l" "carriage_return \<notin> set l" for l
    using that by (auto simp: line_ok_def) (metis last_in_set)
  show "shape_words s \<Longrightarrow> line_ok (shape_text s)"
    by (cases s) (auto intro!: ok simp: shape_words_def shape_text_def dest: word_line join_words)
  show "func_words f \<Longrightarrow> line_ok (func_text f)"
    using word_line[OF digits_word[of "snd f"]]
    by (cases f) (auto intro!: ok simp: func_words_def func_text_def dest: word_line)
qed

lemma add_shape_line: "shape_words s \<Longrightarrow> add_sig_line (shape_text s) (fs, ss) = (fs, ss @ [s])"
proof (cases s)
  case (Pair name flds)
  assume w: "shape_words s"
  have "word ''#''" by (simp add: word_def is_whitespace_def)
  with w Pair have "split_whitespace (shape_text s) = ''#'' # name # flds"
    using split_whitespace_cons[of "''#''" "name @ space # join '' '' flds"]
    by (simp add: shape_words_def shape_text_def split_whitespace_cons split_whitespace_join)
  then have "parse_sig_shape (shape_text s) = Some s"
    by (simp add: parse_sig_shape_def Pair)
  moreover have "starts_with (shape_text s) ''#''" "\<not> starts_with (shape_text s) '':''"
    by (simp_all add: starts_with_def shape_text_def Pair)
  ultimately show ?thesis by (simp add: add_sig_line_def)
qed

lemma add_func_line: "func_words f \<Longrightarrow> add_sig_line (func_text f) (fs, ss) = (fs @ [f], ss)"
proof (cases f)
  case (Pair name arity)
  assume w: "func_words f"
  with Pair have "split_whitespace (drop 1 (func_text f)) = [name, show_nat arity]"
    by (simp add: func_words_def func_text_def split_whitespace_cons split_whitespace_word digits_word)
  then have "parse_sig_func (func_text f) = Some f"
    using w Pair by (simp add: parse_sig_func_def func_words_def parse_usize_show_nat)
  moreover have "starts_with (func_text f) '':''"
    by (simp add: starts_with_def func_text_def Pair)
  ultimately show ?thesis by (simp add: add_sig_line_def)
qed

lemma fold_sig_lines:
  "list_all shape_words ss' \<Longrightarrow> fold add_sig_line (map shape_text ss') (fs, ss) = (fs, ss @ ss')"
  "list_all func_words fs' \<Longrightarrow> fold add_sig_line (map func_text fs') (fs, ss) = (fs @ fs', ss)"
  by (induction ss' arbitrary: ss, simp_all add: add_shape_line)
     (induction fs' arbitrary: fs, simp_all add: add_func_line)

lemma read_emitted_signature:
  assumes "list_all shape_words (exported_shapes cg)" "list_all func_words (exported_functions cg)"
  shows "parse_signature (emit_signature_file cg) = (exported_functions cg, exported_shapes cg)"
proof -
  let ?lines = "map shape_text (exported_shapes cg) @ map func_text (exported_functions cg)"
  have "shape_line = (\<lambda>l. l @ [newline]) \<circ> shape_text" "func_line = (\<lambda>l. l @ [newline]) \<circ> func_text"
    by (auto simp: shape_line_def shape_text_def func_line_def func_text_def)
  then have "emit_signature_file cg = concat (map (\<lambda>l. l @ [newline]) ?lines)"
    by (simp add: emit_signature_file_def)
  moreover have "list_all line_ok ?lines"
    using assms line_ok_texts by (auto simp: list_all_iff)
  ultimately have "str_lines (emit_signature_file cg) = ?lines"
    by (simp only: str_lines_concat)
  with assms show ?thesis by (simp add: parse_signature_def fold_sig_lines)
qed

text \<open>C20: what a module exports is what its importers see.  The signature file is read back by
  \<open>load_signature\<close> as exactly the exported functions with their number of parameters and the
  exported shapes with their fields, in order, when names contain no white space.\<close>

theorem signature_round_trip:
  assumes "list_all shape_words (exported_shapes cg)" "list_all func_words (exported_functions cg)"
  shows "parse_signature (emit_signature_file cg) = (exported_functions cg, exported_shapes cg)"
  by (rule read_emitted_signature[OF assms])

definition library_module :: codegen where
  "library_module = (codegen_new ''lib/geo.llm'')\<lparr>
     cg_functions := [(''geo_area'', 2), (''__llm_1f_helper'', 1), (''geo_scale'', 0)],
     cg_shapes := [(''point'', [''x'', ''y'']), (''hidden'', [''z''])],
     cg_templates := [(''geo_scale'', ([\<lparr>param_name = ''p'', param_expand = True\<rparr>], Expand ''p''))],
     cg_exports := [''point'', ''area'', ''scale''], cg_has_exports := True\<rparr>"

lemma library_exports:
  "exported_shapes library_module = [(''point'', [''x'', ''y''])]"
  "exported_functions library_module = [(''area'', 2), (''scale'', 0), (''scale'', 1)]"
  by code_simp+

lemma signature_round_trip_witness:
  "parse_signature (emit_signature_file library_module) =
     ([(''area'', 2), (''scale'', 0), (''scale'', 1)], [(''point'', [''x'', ''y''])])"
proof -
  have "list_all word [''point'', ''x'', ''y'', ''area'', ''scale'']" by code_simp
  then show ?thesis
    using signature_round_trip[of library_module]
    by (simp add: library_exports shape_words_def func_words_def)
qed

section \<open>Linking\<close>

lemma has_function_add:
  "name \<notin> set (map fst (cg_functions cg)) \<Longrightarrow> cg_functions (add_function ln name n cg) = cg_functions cg @ [(name, n)]"
  by (simp add: add_function_def)

lemma module_name_cong: "cg_input_path cg = cg_input_path cg' \<Longrightarrow> get_module_name cg = get_module_name cg'"
  by (simp add: get_module_name_def)

lemma clean_namespaced:
  "clean_name cg (namespaced (get_module_name cg) name) = name"
  by (auto simp: clean_name_def signature_prefix_def namespaced_def starts_with_def Let_def)

text \<open>C21: exporter and importer agree on symbols.  When a module declares an exported function
  with ordinary parameters under a name that is not one of the internal ones, the object file
  has it under the name that a call resolves to in every module that imports it, with the
  arity that the signature file announces.\<close>

theorem exported_function_links:
  assumes "declare_function ln f params body True cg = Inr cg'"
    and "\<forall>p \<in> set params. \<not> param_expand p" "f \<noteq> ''main''"
    and "\<not> internal_name (namespaced (get_module_name cg) f)"
    and "\<not> has_function cg (namespaced (get_module_name cg) f)"
  shows "(f, length params) \<in> set (exported_functions cg') \<and>
    (resolve_func_name ln' (gen_import ln' (get_module_name cg) f (length params) client) f, length params)
      \<in> set (cg_functions cg')"
proof -
  let ?full = "namespaced (get_module_name cg) f"
  have fin: "final_name ln (cg\<lparr>cg_has_exports := True, cg_exports := cg_exports cg @ [f]\<rparr>) f True = ?full"
    using assms(3) by (simp add: final_name_def get_module_name_def)
  then have cg': "cg' = add_function ln ?full (length params)
      (cg\<lparr>cg_has_exports := True, cg_exports := cg_exports cg @ [f]\<rparr>)"
    using assms(1,2,5) by (auto simp: declare_function_def Let_def has_function_def split: option.split_asm if_split_asm)
  then have fs: "cg_functions cg' = cg_functions cg @ [(?full, length params)]"
    and ex: "cg_exports cg' = cg_exports cg @ [f]" and nm: "get_module_name cg' = get_module_name cg"
    using assms(5) by (simp_all add: add_function_def has_function_def get_module_name_def)
  have "clean_name cg' ?full = f"
    using clean_namespaced[of cg' f] by (simp add: nm)
  then have "(f, length params) \<in> set (exported_functions cg')"
    using assms(4) by (auto simp: exported_functions_def fs ex intro!: image_eqI[of _ _ "(?full, length params)"])
  moreover have "resolve_func_name ln' (gen_import ln' (get_module_name cg) f (length params) client) f = ?full"
    by (simp add: resolve_func_name_def gen_import_def add_function_def Let_def)
  ultimately show ?thesis by (simp add: fs)
qed

definition square_body :: expr where
  "square_body = BinaryOp TMul (Borrow (DeBruijn 0)) (Borrow (DeBruijn 0))"

definition plain_names :: llvm_names where
  "plain_names = \<lparr>ln_hash = length, ln_fresh = (\<lambda>taken name. name @ ''.1'')\<rparr>"

lemma exported_function_links_witness:
  "\<exists>cg'. declare_function plain_names ''sq'' [\<lparr>param_name = ''x'', param_expand = False\<rparr>] square_body True
       (codegen_new ''geo.llm'') = Inr cg' \<and>
     (''sq'', 1) \<in> set (exported_functions cg') \<and>
     (resolve_func_name plain_names (gen_import plain_names ''geo'' ''sq'' 1 (codegen_new ''app.llm'')) ''sq'', 1)
       \<in> set (cg_functions cg')"
proof -
  let ?ps = "[\<lparr>param_name = ''x'', param_expand = False\<rparr>]" and ?cg = "codegen_new ''geo.llm''"
  have m: "get_module_name ?cg = ''geo''" by code_simp
  have "verify_body plain_names ?cg ''sq'' ?ps square_body = None" by code_simp
  then have "\<exists>cg'. declare_function plain_names ''sq'' ?ps square_body True ?cg = Inr cg'"
    by (simp add: declare_function_def Let_def)
  then obtain cg' where cg': "declare_function plain_names ''sq'' ?ps square_body True ?cg = Inr cg'" ..
  have "\<not> internal_name (namespaced (get_module_name ?cg) ''sq'')" by code_simp
  moreover have "\<not> has_function ?cg (namespaced (get_module_name ?cg) ''sq'')" by code_simp
  ultimately show ?thesis
    using exported_function_links[OF cg', of plain_names "codegen_new ''app.llm''"] cg' by (simp add: m)
qed

text \<open>The importers of an exported template get the wrong arity.  The function that
  \<open>gen_function\<close> adds to the module for a template has no parameters, the signature file
  lists it before the template itself, and the importer takes the first line of the name.\<close>

theorem exported_template_arity:
  "map_option (\<lambda>cg. map_of (fst (parse_signature (emit_signature_file cg))) ''scale'')
     (case declare_function plain_names ''scale'' [\<lparr>param_name = ''p'', param_expand = True\<rparr>] (Borrow (Expand ''p''))
        True (codegen_new ''geo.llm'') of Inr cg \<Rightarrow> Some cg | Inl _ \<Rightarrow> None) = Some (Some 0)"
  by code_simp

text \<open>A module whose name begins like an internal symbol exports no function.  The filter
  of the signature file is on the name in the object file, which begins with the module's.\<close>

theorem trap_module_exports_nothing:
  "map_option (\<lambda>cg. (cg_exports cg, emit_signature_file cg))
     (case declare_function plain_names ''f'' [] (Integer 1) True (codegen_new ''trap_lib.llm'') of
        Inr cg \<Rightarrow> Some cg | Inl _ \<Rightarrow> None) = Some ([''f''], [])"
  by code_simp

end
