(* ===== verification/Builder.thy ===== *)
theory Builder
  imports Symbols Analysis
begin

text \<open>
  What the code generator keeps while it walks over a body (\<open>codegen/mod.rs\<close>), and its calls
  to the LLVM builder.  The builder itself is a library: the model records the calls made to it,
  as numbered instructions of the block at which it stands.  The number of an instruction is its
  result, with the type that LLVM gives it; a panic of the generator is a \<open>fail\<close>.
\<close>

named_theorems gen_simps "evaluation of generator steps"

section \<open>Values and instructions\<close>

datatype (plugins only: code size) ty = I64 | F64 | Ptr | I1

datatype (plugins only: code size) val =
    ConstInt i64
  | ConstBool bool
  | ConstFloat f64
  | FnAddr string
  | StrAddr string
  | ParamVal nat ty
  | ResVal nat ty

primrec ty_of :: "val \<Rightarrow> ty" where
  "ty_of (ConstInt i) = I64"
| "ty_of (ConstBool b) = I1"
| "ty_of (ConstFloat x) = F64"
| "ty_of (FnAddr f) = Ptr"
| "ty_of (StrAddr name) = I64"
| "ty_of (ParamVal n t) = t"
| "ty_of (ResVal n t) = t"

datatype (plugins only: code size) arith =
  IAdd | ISub | IMul | ISDiv | IAnd | IOr | IXor | FAdd | FSub | FMul | FDiv

datatype (plugins only: code size) predicate = PEq | PNe | PLt | PGt | FEq | FLt | FGt

text \<open>
  The last argument of a load or a store is whether the alignment is set to 8, that of a call
  whether it is a tail call.  Blocks are named by their position among all blocks.
\<close>

datatype (plugins only: code size) inst =
    Arith arith val val
  | Cmp predicate val val
  | ZExt val
  | SIToFP val
  | FPToSI val
  | PtrToInt val
  | IntToPtr val
  | Gep ty val val
  | Load ty val bool
  | Store val val bool
  | Call string "val list" bool
  | Alloca
  | ArrayAlloca val
  | Phi "(val \<times> nat) list"
  | Br nat
  | CondBr val nat nat
  | Ret val

record block =
  bk_fun :: string
  bk_label :: string
  bk_insts :: "(nat \<times> inst) list"

section \<open>The state\<close>

record stack_item =
  si_value :: val
  si_state :: var_state
  si_shape :: "string option"
  si_is_ptr :: bool

text \<open>
  \<open>gs_rets\<close> has the result types of the runtime functions that do not return an \<open>i64\<close>;
  \<open>gs_globals\<close> the string constants of the module by their global names.
\<close>

record gen_state =
  gs_cg :: codegen
  gs_rets :: "string \<Rightarrow> ty option"
  gs_globals :: "string \<Rightarrow> string option"
  gs_depth :: nat
  gs_stack :: "stack_item list"
  gs_blocks :: "block list"
  gs_at :: nat
  gs_next :: nat

text \<open>
  What does not change during a run: the names that LLVM and the hasher make up, the options, and
  \<open>has_sufficient_stack\<close>, which asks the operating system; and the text of a double.
\<close>

record gen_env =
  ge_names :: llvm_names
  ge_threshold :: nat
  ge_max_depth :: nat
  ge_stack_ok :: "gen_state \<Rightarrow> bool"
  ge_f64_show :: "f64 \<Rightarrow> string"

section \<open>Steps\<close>

type_synonym 'a gen = "gen_state \<Rightarrow> fail + ('a \<times> gen_state)"

definition greturn :: "'a \<Rightarrow> 'a gen" where
  "greturn x s = Inr (x, s)"

definition gbind :: "'a gen \<Rightarrow> ('a \<Rightarrow> 'b gen) \<Rightarrow> 'b gen" where
  "gbind m k s = rbind (m s) (\<lambda>(x, s'). k x s')"

definition gpanic :: "string \<Rightarrow> 'a gen" where
  "gpanic msg s = Inl (Panicked msg)"

definition gget :: "(gen_state \<Rightarrow> 'a) \<Rightarrow> 'a gen" where
  "gget f s = Inr (f s, s)"

definition gmodify :: "(gen_state \<Rightarrow> gen_state) \<Rightarrow> unit gen" where
  "gmodify f s = Inr ((), f s)"

text \<open>\<open>x.expect(msg)\<close>\<close>

definition expect :: "string \<Rightarrow> 'a option \<Rightarrow> 'a gen" where
  "expect msg x = (case x of Some y \<Rightarrow> greturn y | None \<Rightarrow> gpanic msg)"

primrec gen_all :: "'a gen list \<Rightarrow> 'a list gen" where
  "gen_all [] = greturn []"
| "gen_all (m # ms) = gbind m (\<lambda>x. gbind (gen_all ms) (\<lambda>xs. greturn (x # xs)))"

definition gen_each :: "('a \<Rightarrow> unit gen) \<Rightarrow> 'a list \<Rightarrow> unit gen" where
  "gen_each f xs = gbind (gen_all (map f xs)) (\<lambda>_. greturn ())"

section \<open>The builder\<close>

definition emit :: "inst \<Rightarrow> ty \<Rightarrow> val gen" where
  "emit i t s =
     (let b = gs_blocks s ! gs_at s in
      Inr (ResVal (gs_next s) t,
        s\<lparr>gs_blocks := (gs_blocks s)[gs_at s := b\<lparr>bk_insts := bk_insts b @ [(gs_next s, i)]\<rparr>],
          gs_next := Suc (gs_next s)\<rparr>))"

definition emit_void :: "inst \<Rightarrow> unit gen" where
  "emit_void i = gbind (emit i I64) (\<lambda>_. greturn ())"

definition append_basic_block :: "string \<Rightarrow> string \<Rightarrow> nat gen" where
  "append_basic_block f label s =
     Inr (length (gs_blocks s),
       s\<lparr>gs_blocks := gs_blocks s @ [\<lparr>bk_fun = f, bk_label = label, bk_insts = []\<rparr>]\<rparr>)"

definition position_at_end :: "nat \<Rightarrow> unit gen" where
  "position_at_end b = gmodify (\<lambda>s. s\<lparr>gs_at := b\<rparr>)"

definition get_insert_block :: "nat gen" where
  "get_insert_block = gget gs_at"

definition parent_function :: "string gen" where
  "parent_function = gget (\<lambda>s. bk_fun (gs_blocks s ! gs_at s))"

definition on_codegen :: "(codegen \<Rightarrow> codegen) \<Rightarrow> unit gen" where
  "on_codegen f = gmodify (\<lambda>s. s\<lparr>gs_cg := f (gs_cg s)\<rparr>)"

text \<open>\<open>module.add_function\<close>, which returns the function under the name that it got.\<close>

definition module_add_function :: "gen_env \<Rightarrow> string \<Rightarrow> nat \<Rightarrow> string gen" where
  "module_add_function env name arity =
     gbind (on_codegen (add_function (ge_names env) name arity)) (\<lambda>_.
     gget (\<lambda>s. fst (last (cg_functions (gs_cg s)))))"

definition get_or_add_external_fn :: "gen_env \<Rightarrow> string \<Rightarrow> ty \<Rightarrow> nat \<Rightarrow> unit gen" where
  "get_or_add_external_fn env name ret arity =
     gbind (gget (\<lambda>s. has_function (gs_cg s) name)) (\<lambda>known.
     if known then greturn ()
     else gmodify (\<lambda>s. s\<lparr>gs_cg := add_function (ge_names env) name arity (gs_cg s),
       gs_rets := (gs_rets s)(name \<mapsto> ret)\<rparr>))"

text \<open>\<open>build_call\<close> and \<open>get_call_res\<close>\<close>

definition build_call :: "string \<Rightarrow> val list \<Rightarrow> bool \<Rightarrow> val gen" where
  "build_call f args tail =
     gbind (gget (\<lambda>s. case gs_rets s f of Some t \<Rightarrow> t | None \<Rightarrow> I64)) (emit (Call f args tail))"

definition rt_call :: "gen_env \<Rightarrow> string \<Rightarrow> ty \<Rightarrow> val list \<Rightarrow> val gen" where
  "rt_call env name ret args =
     gbind (get_or_add_external_fn env name ret (length args)) (\<lambda>_. build_call name args False)"

definition rt_void :: "gen_env \<Rightarrow> string \<Rightarrow> val list \<Rightarrow> unit gen" where
  "rt_void env name args = gbind (rt_call env name I64 args) (\<lambda>_. greturn ())"

definition as_int :: "val \<Rightarrow> val gen" where
  "as_int v =
     (case ty_of v of
        I64 \<Rightarrow> greturn v | I1 \<Rightarrow> greturn v
      | Ptr \<Rightarrow> emit (PtrToInt v) I64
      | F64 \<Rightarrow> emit (FPToSI v) I64)"

text \<open>\<open>into_pointer_value\<close> and \<open>into_float_value\<close> panic on values of another type.\<close>

definition into_pointer_value :: "val \<Rightarrow> val gen" where
  "into_pointer_value v = (if ty_of v = Ptr then greturn v else gpanic ''expected the PointerValue variant'')"

definition into_float_value :: "val \<Rightarrow> val gen" where
  "into_float_value v = (if ty_of v = F64 then greturn v else gpanic ''expected the FloatValue variant'')"

definition is_int_value :: "val \<Rightarrow> bool" where
  "is_int_value v = (ty_of v = I64 \<or> ty_of v = I1)"

definition is_float_value :: "val \<Rightarrow> bool" where
  "is_float_value v = (ty_of v = F64)"

definition const_nat :: "nat \<Rightarrow> val" where
  "const_nat n = ConstInt (of_nat n)"

text \<open>\<open>get_llvm_type\<close>\<close>

definition get_llvm_type :: "string \<Rightarrow> ty" where
  "get_llvm_type name = (if name = ''f64'' then F64 else I64)"

text \<open>
  A string constant is a global whose name is a hash of the text; one that is already there is
  used as it is.
\<close>

definition gen_string_constant :: "gen_env \<Rightarrow> string \<Rightarrow> val gen" where
  "gen_string_constant env str =
     (let global_name = ''str_const_'' @ show_hex (ln_hash (ge_names env) str) in
      gbind (gmodify (\<lambda>s. case gs_globals s global_name of
          Some text \<Rightarrow> s
        | None \<Rightarrow> s\<lparr>gs_globals := (gs_globals s)(global_name \<mapsto> str)\<rparr>)) (\<lambda>_.
      greturn (StrAddr global_name)))"

section \<open>Dropping values\<close>

definition emit_auto_drop :: "gen_env \<Rightarrow> val \<Rightarrow> string option \<Rightarrow> bool \<Rightarrow> unit gen" where
  "emit_auto_drop env v shape is_ptr =
     (if \<not> is_ptr then greturn ()
      else case shape of
        Some s \<Rightarrow>
          gbind (gget (\<lambda>st. map_of (cg_shapes (gs_cg st)) s)) (\<lambda>found.
          gbind (expect ''E006'' found) (\<lambda>flds.
          rt_void env ''llm_drop_soa'' [v, const_nat (length flds)]))
      | None \<Rightarrow> rt_void env ''llm_drop'' [v])"

definition drop_item :: "gen_env \<Rightarrow> stack_item \<Rightarrow> unit gen" where
  "drop_item env item =
     (if si_state item = Available then emit_auto_drop env (si_value item) (si_shape item) (si_is_ptr item)
      else greturn ())"

text \<open>\<open>infer_shape\<close> and \<open>returns_ptr_with_stack\<close> on the stack of the generator.\<close>

definition shape_of :: "expr \<Rightarrow> gen_state \<Rightarrow> string option" where
  "shape_of e s = infer_shape e (map si_shape (gs_stack s))"

definition is_ptr_of :: "expr \<Rightarrow> gen_state \<Rightarrow> bool" where
  "is_ptr_of e s = returns_ptr_with_stack e (map si_is_ptr (gs_stack s)) (cg_returns_ptr (gs_cg s))"

definition is_owned_ptr :: "expr \<Rightarrow> gen_state \<Rightarrow> bool" where
  "is_owned_ptr e s =
     (is_ptr_of e s \<and>
      (case e of
         Borrow _ \<Rightarrow> False | MutBorrow _ \<Rightarrow> False | DeBruijn _ \<Rightarrow> False | Expand _ \<Rightarrow> False | _ \<Rightarrow> True))"

definition maybe_drop_val :: "gen_env \<Rightarrow> expr \<Rightarrow> val \<Rightarrow> unit gen" where
  "maybe_drop_val env e v =
     gbind (gget (is_owned_ptr e)) (\<lambda>owned.
     if owned then gbind (gget (shape_of e)) (\<lambda>shape. emit_auto_drop env v shape True)
     else greturn ())"

text \<open>
  The arms that call one function of the runtime: the operands in order, the call, and the drops
  of those operands that the arm drops.
\<close>

definition drop_operands :: "gen_env \<Rightarrow> (expr \<times> bool) list \<Rightarrow> val list \<Rightarrow> unit gen" where
  "drop_operands env es vs =
     gen_each (\<lambda>((e, drops), v). if drops then maybe_drop_val env e v else greturn ()) (zip es vs)"

definition runtime_op :: "gen_env \<Rightarrow> string \<Rightarrow> (expr \<times> bool) list \<Rightarrow> val gen list \<Rightarrow> val gen" where
  "runtime_op env name es gs =
     gbind (gen_all gs) (\<lambda>vs.
     gbind (rt_call env name I64 vs) (\<lambda>res.
     gbind (drop_operands env es vs) (\<lambda>_. greturn res)))"

end
