(* ===== verification/OpenCL.thy ===== *)
theory OpenCL
  imports Builder Display
begin

text \<open>
  The translation of the function of a \<open>Map\<close> to an OpenCL kernel (\<open>translate_to_opencl\<close> in
  \<open>codegen/expr.rs\<close>).  An expression outside the translated fragment gives \<open>None\<close>: the message
  of the error is thrown away by the caller.
\<close>

definition opencl_operator :: "token \<Rightarrow> string option" where
  "opencl_operator op =
     (case op of
        TAdd \<Rightarrow> Some ''+'' | TSub \<Rightarrow> Some ''-'' | TMul \<Rightarrow> Some ''*'' | TDiv \<Rightarrow> Some ''/''
      | TEq \<Rightarrow> Some ''=='' | TLt \<Rightarrow> Some ''<'' | TGt \<Rightarrow> Some ''>'' | _ \<Rightarrow> None)"

definition opencl_binary :: "token \<Rightarrow> string option \<Rightarrow> string option \<Rightarrow> string option" where
  "opencl_binary op left right =
     Option.bind left (\<lambda>l. Option.bind right (\<lambda>r.
     map_option (\<lambda>op_str. ''('' @ l @ '' '' @ op_str @ '' '' @ r @ '')'') (opencl_operator op)))"

definition opencl_let :: "string \<Rightarrow> string option \<Rightarrow> (string \<Rightarrow> string option) \<Rightarrow> string option" where
  "opencl_let name val_str body =
     (let local_name = ''local_'' @ name in
      Option.bind val_str (\<lambda>v.
      map_option (\<lambda>b. ''({ long '' @ local_name @ '' = '' @ v @ ''; '' @ b @ ''; })'') (body local_name)))"

definition opencl_if :: "string option \<Rightarrow> string option \<Rightarrow> string option \<Rightarrow> string option" where
  "opencl_if c t f =
     Option.bind c (\<lambda>c. Option.bind t (\<lambda>t.
     map_option (\<lambda>f. ''(('' @ c @ '') ? ('' @ t @ '') : ('' @ f @ ''))'') f))"

fun translate_expr :: "(f64 \<Rightarrow> string) \<Rightarrow> expr \<Rightarrow> string list \<Rightarrow> string option" where
  "translate_expr fmt (Integer i) stack_names = Some (show_i64 i)"
| "translate_expr fmt (Float x) stack_names = Some (fmt x)"
| "translate_expr fmt (DeBruijn idx) stack_names =
     (if idx \<ge> length stack_names then None else Some (stack_names ! slot stack_names idx))"
| "translate_expr fmt (BinaryOp op l r) stack_names =
     opencl_binary op (translate_expr fmt l stack_names) (translate_expr fmt r stack_names)"
| "translate_expr fmt (Let name v body) stack_names =
     opencl_let name (translate_expr fmt v stack_names)
       (\<lambda>local_name. translate_expr fmt body (stack_names @ [local_name]))"
| "translate_expr fmt (If c t f) stack_names =
     opencl_if (translate_expr fmt c stack_names) (translate_expr fmt t stack_names)
       (translate_expr fmt f stack_names)"
| "translate_expr fmt e stack_names = None"

definition opencl_kernel :: "string \<Rightarrow> string" where
  "opencl_kernel expr_str =
     ''__kernel void map_kernel(__global const long* input, __global long* output, const long count) {'' @ [newline] @
     ''    int id = get_global_id(0);'' @ [newline] @
     ''    if (id < count) {'' @ [newline] @
     ''        long param_0 = input[id];'' @ [newline] @
     ''        output[id] = '' @ expr_str @ '';'' @ [newline] @
     ''    }'' @ [newline] @
     ''}'' @ [newline]"

definition translate_to_opencl :: "(f64 \<Rightarrow> string) \<Rightarrow> string \<Rightarrow> codegen \<Rightarrow> string option" where
  "translate_to_opencl fmt func_name cg =
     Option.bind (map_of (cg_templates cg) func_name) (\<lambda>(params, body).
     map_option opencl_kernel
       (translate_expr fmt body (map (\<lambda>i. ''param_'' @ show_nat i) [0..<length params])))"

section \<open>The fragment\<close>

fun opencl_fragment :: "nat \<Rightarrow> expr \<Rightarrow> bool" where
  "opencl_fragment n (Integer i) = True"
| "opencl_fragment n (Float x) = True"
| "opencl_fragment n (DeBruijn idx) = (idx < n)"
| "opencl_fragment n (BinaryOp op l r) =
     (op \<in> {TAdd, TSub, TMul, TDiv, TEq, TLt, TGt} \<and> opencl_fragment n l \<and> opencl_fragment n r)"
| "opencl_fragment n (Let name v body) = (opencl_fragment n v \<and> opencl_fragment (Suc n) body)"
| "opencl_fragment n (If c t f) = (opencl_fragment n c \<and> opencl_fragment n t \<and> opencl_fragment n f)"
| "opencl_fragment n e = False"

lemma opencl_operator_iff: "opencl_operator op = None \<longleftrightarrow> op \<notin> {TAdd, TSub, TMul, TDiv, TEq, TLt, TGt}"
  by (cases op) (simp_all add: opencl_operator_def)

lemma translate_expr_None: "translate_expr fmt e names = None \<longleftrightarrow> \<not> opencl_fragment (length names) e"
proof (induction fmt e names rule: translate_expr.induct)
  case (4 fmt op l r names)
  then show ?case by (auto simp: opencl_binary_def bind_eq_None_conv opencl_operator_iff)
next
  case (5 fmt name v body names)
  from "5.IH"(2)[of "''local_'' @ name"] "5.IH"(1) show ?case
    by (auto simp: opencl_let_def Let_def bind_eq_None_conv)
next
  case (6 fmt c t f names)
  then show ?case by (auto simp: opencl_if_def bind_eq_None_conv)
qed simp_all

text \<open>C24: a kernel is generated exactly for a function whose entry in the template table has the
  name as written and a body of arithmetic, comparisons, conditionals and local variables over
  its parameters.\<close>

theorem opencl_kernel_iff:
  "translate_to_opencl fmt name cg = None \<longleftrightarrow>
   (case map_of (cg_templates cg) name of
      None \<Rightarrow> True | Some (params, body) \<Rightarrow> \<not> opencl_fragment (length params) body)"
  by (auto simp: translate_to_opencl_def bind_eq_None_conv translate_expr_None split: option.splits)

end
