(* ===== verification/Codegen.thy ===== *)
theory Codegen
  imports OpenCL
begin

text \<open>
  The code generator (\<open>codegen/expr.rs\<close> and \<open>codegen/parallel.rs\<close>), one definition per group
  of arms of \<open>gen_expr\<close>.  The generators of the operands are arguments of these definitions;
  \<open>gen_expr\<close> at the end ties the knot.
\<close>

type_synonym expand_map = "string \<Rightarrow> usize option"

section \<open>Variables\<close>

definition gen_debruijn :: "usize \<Rightarrow> val gen" where
  "gen_debruijn index s =
     (if index \<ge> length (gs_stack s) then Inl (Panicked ''E003'')
      else let item = gs_stack s ! slot (gs_stack s) index in
           if si_state item = Moved then Inl (Panicked ''E004'') else Inr (si_value item, s))"

definition move_item :: "usize \<Rightarrow> val gen" where
  "move_item i s =
     (if i \<ge> length (gs_stack s) then Inl (Panicked ''E003'')
      else let item = gs_stack s ! i in
           if si_state item = Moved then Inl (Panicked ''E005'')
           else if si_state item = Borrowed then Inl (Panicked ''E016'')
           else Inr (si_value item, s\<lparr>gs_stack := (gs_stack s)[i := item\<lparr>si_state := Moved\<rparr>]\<rparr>))"

text \<open>
  In a move the subtraction \<open>stack.len() - 1 - index\<close> of an index that is too large panics, or
  wraps and then fails the \<open>expect\<close>.
\<close>

definition gen_move :: "expand_map \<Rightarrow> expr \<Rightarrow> val gen \<Rightarrow> val gen" where
  "gen_move em inner g =
     (case inner of
        DeBruijn index \<Rightarrow>
          (\<lambda>s. if index \<ge> length (gs_stack s) then Inl (Panicked ''E003'')
               else move_item (slot (gs_stack s) index) s)
      | Expand name \<Rightarrow> gbind (expect ''E013'' (em name)) move_item
      | _ \<Rightarrow> g)"

definition gen_expand :: "expand_map \<Rightarrow> string \<Rightarrow> val gen" where
  "gen_expand em name =
     gbind (expect ''E013'' (em name)) (\<lambda>i s.
       if i \<ge> length (gs_stack s) then Inl (Panicked ''E003'')
       else let item = gs_stack s ! i in
            if si_state item = Moved then Inl (Panicked ''E004'') else Inr (si_value item, s))"

definition gen_identifier :: "gen_env \<Rightarrow> string \<Rightarrow> val gen" where
  "gen_identifier env name =
     gbind (gget (\<lambda>s. resolve_func_name (ge_names env) (gs_cg s) name)) (\<lambda>resolved.
     gbind (gget (\<lambda>s. (has_function (gs_cg s) resolved, has_function (gs_cg s) name))) (\<lambda>(r, n).
     if r then greturn (FnAddr resolved)
     else if n then greturn (FnAddr name)
     else gpanic (''E013: Unknown identifier '' @ name)))"

definition gen_let :: "gen_env \<Rightarrow> expr \<Rightarrow> val gen \<Rightarrow> val gen \<Rightarrow> val gen" where
  "gen_let env val_expr gv gb =
     gbind gv (\<lambda>v.
     gbind (gget (shape_of val_expr)) (\<lambda>shape.
     gbind (gget (is_ptr_of val_expr)) (\<lambda>is_ptr.
     gbind (gmodify (\<lambda>s. s\<lparr>gs_stack := gs_stack s @
       [\<lparr>si_value = v, si_state = Available, si_shape = shape, si_is_ptr = is_ptr\<rparr>]\<rparr>)) (\<lambda>_.
     gbind gb (\<lambda>res.
     gbind (gget (\<lambda>s. last (gs_stack s))) (\<lambda>item.
     gbind (gmodify (\<lambda>s. s\<lparr>gs_stack := butlast (gs_stack s)\<rparr>)) (\<lambda>_.
     gbind (drop_item env item) (\<lambda>_. greturn res))))))))"

section \<open>Tasks and traps\<close>

text \<open>The variables that a task or a trap captures.\<close>

definition captures :: "stack_item list \<Rightarrow> stack_item list" where
  "captures stack = filter (\<lambda>item. si_state item = Available \<or> si_state item = Borrowed) stack"

text \<open>
  The body of a new function: the captured variables are loaded from the environment and are
  borrowed there.
\<close>

definition load_captures :: "stack_item list \<Rightarrow> stack_item list gen" where
  "load_captures caps =
     gen_all (map (\<lambda>(i, item).
       gbind (emit (Gep I64 (ParamVal 0 Ptr) (const_nat i)) Ptr) (\<lambda>member_ptr.
       gbind (emit (Load I64 member_ptr False) I64) (\<lambda>loaded.
       greturn (item\<lparr>si_value := loaded, si_state := Borrowed\<rparr>))))
       (enumerate 0 caps))"

definition store_captures :: "stack_item list \<Rightarrow> val gen" where
  "store_captures caps =
     gbind (emit (ArrayAlloca (const_nat (length caps))) Ptr) (\<lambda>env_alloc.
     gbind (gen_each (\<lambda>(i, item).
       gbind (emit (Gep I64 env_alloc (const_nat i)) Ptr) (\<lambda>member_ptr.
       emit_void (Store (si_value item) member_ptr False))) (enumerate 0 caps)) (\<lambda>_.
     greturn env_alloc))"

definition with_stack :: "stack_item list \<Rightarrow> 'a gen \<Rightarrow> ('a \<times> stack_item list) gen" where
  "with_stack stack m s =
     rbind (m (s\<lparr>gs_stack := stack\<rparr>)) (\<lambda>(x, s'). Inr ((x, gs_stack s'), s'\<lparr>gs_stack := gs_stack s\<rparr>))"

definition gen_parallel_expr :: "gen_env \<Rightarrow> val gen \<Rightarrow> val gen" where
  "gen_parallel_expr env g =
     gbind (gget (\<lambda>s. captures (gs_stack s))) (\<lambda>caps.
     gbind (gget (\<lambda>s. length (cg_functions (gs_cg s)))) (\<lambda>task_id.
     gbind (module_add_function env (''parallel_task_'' @ show_nat task_id) 1) (\<lambda>task_fn.
     gbind (append_basic_block task_fn ''entry'') (\<lambda>entry.
     gbind get_insert_block (\<lambda>current_bb.
     gbind (position_at_end entry) (\<lambda>_.
     gbind (load_captures caps) (\<lambda>task_stack.
     gbind (gget gs_depth) (\<lambda>old_depth.
     gbind (gmodify (\<lambda>s. s\<lparr>gs_depth := Suc old_depth\<rparr>)) (\<lambda>_.
     gbind (with_stack task_stack g) (\<lambda>(res, _).
     gbind (gmodify (\<lambda>s. s\<lparr>gs_depth := old_depth\<rparr>)) (\<lambda>_.
     gbind (emit_void (Ret res)) (\<lambda>_.
     gbind (position_at_end current_bb) (\<lambda>_.
     gbind (store_captures caps) (\<lambda>env_alloc.
     gbind (get_or_add_external_fn env ''llm_fork'' I64 2) (\<lambda>_.
     gbind (emit (PtrToInt (FnAddr task_fn)) I64) (\<lambda>fn_int.
     gbind (emit (PtrToInt env_alloc) I64) (\<lambda>env_int.
     build_call ''llm_fork'' [fn_int, env_int] False)))))))))))))))))"

definition gen_trap_sub_fn :: "gen_env \<Rightarrow> val gen \<Rightarrow> stack_item list \<Rightarrow> string \<Rightarrow> string gen" where
  "gen_trap_sub_fn env g caps name =
     gbind (module_add_function env name 1) (\<lambda>task_fn.
     gbind (append_basic_block task_fn ''entry'') (\<lambda>entry.
     gbind get_insert_block (\<lambda>current_bb.
     gbind (position_at_end entry) (\<lambda>_.
     gbind (load_captures caps) (\<lambda>task_stack.
     gbind (with_stack task_stack g) (\<lambda>(res, left).
     gbind (gen_each (drop_item env) left) (\<lambda>_.
     gbind (emit_void (Ret res)) (\<lambda>_.
     gbind (position_at_end current_bb) (\<lambda>_. greturn task_fn)))))))))"

definition gen_trap :: "gen_env \<Rightarrow> val gen \<Rightarrow> val gen \<Rightarrow> val gen" where
  "gen_trap env gt gf =
     gbind (gget (\<lambda>s. captures (gs_stack s))) (\<lambda>caps.
     gbind (gget (\<lambda>s. length (cg_functions (gs_cg s)))) (\<lambda>trap_id.
     gbind (gen_trap_sub_fn env gt caps (''trap_try_'' @ show_nat trap_id)) (\<lambda>try_fn.
     gbind (gen_trap_sub_fn env gf caps (''trap_fallback_'' @ show_nat trap_id)) (\<lambda>fallback_fn.
     gbind (store_captures caps) (\<lambda>env_alloc.
     gbind (get_or_add_external_fn env ''llm_try'' I64 4) (\<lambda>_.
     gbind (emit (PtrToInt (FnAddr try_fn)) I64) (\<lambda>try_fn_int.
     gbind (emit (PtrToInt (FnAddr fallback_fn)) I64) (\<lambda>fallback_fn_int.
     gbind (emit (PtrToInt env_alloc) I64) (\<lambda>env_int.
     build_call ''llm_try'' [try_fn_int, env_int, fallback_fn_int, env_int] False)))))))))"

section \<open>Operators\<close>

text \<open>Whether a pure operand is worth a task of its own.\<close>

definition hoistable :: "gen_env \<Rightarrow> expr \<Rightarrow> gen_state \<Rightarrow> bool" where
  "hoistable env e s =
     (gs_depth s < ge_max_depth env \<and> ge_stack_ok env s \<and> is_pure e \<and> complexity e > ge_threshold env)"

definition promote :: "val \<Rightarrow> val gen" where
  "promote v = (if is_int_value v then emit (SIToFP v) F64 else into_float_value v)"

definition compare_to_int :: "predicate \<Rightarrow> val \<Rightarrow> val \<Rightarrow> val gen" where
  "compare_to_int p l r = gbind (emit (Cmp p l r) I1) (\<lambda>c. emit (ZExt c) I64)"

definition float_op :: "token \<Rightarrow> val \<Rightarrow> val \<Rightarrow> val gen" where
  "float_op op l r =
     (case op of
        TAdd \<Rightarrow> emit (Arith FAdd l r) F64
      | TSub \<Rightarrow> emit (Arith FSub l r) F64
      | TMul \<Rightarrow> emit (Arith FMul l r) F64
      | TDiv \<Rightarrow> emit (Arith FDiv l r) F64
      | TEq \<Rightarrow> compare_to_int FEq l r
      | TLt \<Rightarrow> compare_to_int FLt l r
      | TGt \<Rightarrow> compare_to_int FGt l r
      | _ \<Rightarrow> gpanic ''E008'')"

definition int_op :: "token \<Rightarrow> val \<Rightarrow> val \<Rightarrow> val gen" where
  "int_op op l r =
     (case op of
        TAdd \<Rightarrow> emit (Arith IAdd l r) I64
      | TSub \<Rightarrow> emit (Arith ISub l r) I64
      | TMul \<Rightarrow> emit (Arith IMul l r) I64
      | TDiv \<Rightarrow> emit (Arith ISDiv l r) I64
      | TEq \<Rightarrow> compare_to_int PEq l r
      | TLt \<Rightarrow> compare_to_int PLt l r
      | TGt \<Rightarrow> compare_to_int PGt l r
      | TBitAnd \<Rightarrow> emit (Arith IAnd l r) I64
      | TBitOr \<Rightarrow> emit (Arith IOr l r) I64
      | TBitXor \<Rightarrow> emit (Arith IXor l r) I64
      | _ \<Rightarrow> gpanic ''E008'')"

definition numeric_op :: "token \<Rightarrow> val \<Rightarrow> val \<Rightarrow> val gen" where
  "numeric_op op lhs_val rhs_val =
     (if is_float_value lhs_val \<or> is_float_value rhs_val
      then gbind (promote lhs_val) (\<lambda>lhs. gbind (promote rhs_val) (float_op op lhs))
      else gbind (as_int lhs_val) (\<lambda>lhs. gbind (as_int rhs_val) (int_op op lhs)))"

definition gen_binary_op :: "gen_env \<Rightarrow> token \<Rightarrow> expr \<Rightarrow> val gen \<Rightarrow> val gen \<Rightarrow> val gen" where
  "gen_binary_op env op left gl gr =
     gbind (gget (hoistable env left)) (\<lambda>hoist.
     gbind (if hoist
            then gbind (gen_parallel_expr env gl) (\<lambda>handle. rt_call env ''llm_join'' I64 [handle])
            else gl) (\<lambda>lhs_val.
     gbind gr (numeric_op op lhs_val)))"

definition gen_money_op :: "token \<Rightarrow> val gen \<Rightarrow> val gen \<Rightarrow> val gen" where
  "gen_money_op op gl gr =
     gbind gl (\<lambda>lhs_val. gbind gr (\<lambda>rhs_val.
     gbind (as_int lhs_val) (\<lambda>lhs. gbind (as_int rhs_val) (\<lambda>rhs.
     let scale = ConstInt 10000 in
     case op of
       TAdd \<Rightarrow> emit (Arith IAdd lhs rhs) I64
     | TSub \<Rightarrow> emit (Arith ISub lhs rhs) I64
     | TMul \<Rightarrow> gbind (emit (Arith IMul lhs rhs) I64) (\<lambda>mul. emit (Arith ISDiv mul scale) I64)
     | TDiv \<Rightarrow> gbind (emit (Arith IMul lhs scale) I64) (\<lambda>scaled. emit (Arith ISDiv scaled rhs) I64)
     | _ \<Rightarrow> gpanic ''E008''))))"

definition gen_time_op :: "token \<Rightarrow> val gen \<Rightarrow> val gen \<Rightarrow> val gen" where
  "gen_time_op op gl gr =
     gbind gl (\<lambda>lhs_val. gbind gr (\<lambda>rhs_val.
     gbind (as_int lhs_val) (\<lambda>lhs. gbind (as_int rhs_val) (\<lambda>rhs.
     case op of
       TAdd \<Rightarrow> emit (Arith IAdd lhs rhs) I64
     | TSub \<Rightarrow> emit (Arith ISub lhs rhs) I64
     | _ \<Rightarrow> gpanic ''E008''))))"

section \<open>Shapes\<close>

text \<open>The columns of an instance, and the instance: its count and the pointers to its columns.\<close>

definition alloc_soa :: "gen_env \<Rightarrow> val \<Rightarrow> string list \<Rightarrow> (val \<times> val) gen" where
  "alloc_soa env cnt flds =
     gbind (gen_all (map (\<lambda>_.
       gbind (emit (Arith IMul cnt (const_nat 8)) I64) (\<lambda>size_bytes.
       gbind (rt_call env ''llm_alloc'' Ptr [size_bytes]) (\<lambda>ptr_val.
       gbind (into_pointer_value ptr_val) (\<lambda>p. emit (PtrToInt p) I64)))) flds)) (\<lambda>cols.
     let members = cnt # cols in
     gbind (rt_call env ''llm_alloc'' Ptr [const_nat (length members * 8)]) (\<lambda>raw.
     gbind (into_pointer_value raw) (\<lambda>struct_ptr_raw.
     gbind (emit (PtrToInt struct_ptr_raw) I64) (\<lambda>struct_ptr_int.
     gbind (gen_each (\<lambda>(i, v).
       gbind (emit (Gep I64 struct_ptr_raw (const_nat i)) Ptr) (\<lambda>member_ptr.
       emit_void (Store v member_ptr False))) (enumerate 0 members)) (\<lambda>_.
     greturn (struct_ptr_raw, struct_ptr_int))))))"

definition get_shape :: "string \<Rightarrow> string list gen" where
  "get_shape name = gbind (gget (\<lambda>s. map_of (cg_shapes (gs_cg s)) name)) (expect ''E006'')"

definition gen_new :: "gen_env \<Rightarrow> string \<Rightarrow> val gen \<Rightarrow> val gen" where
  "gen_new env shape_name g =
     gbind g (\<lambda>count_val.
     gbind (as_int count_val) (\<lambda>cnt.
     gbind (get_shape shape_name) (\<lambda>flds.
     gbind (alloc_soa env cnt flds) (\<lambda>(raw, struct_ptr_int). greturn struct_ptr_int))))"

fun position :: "string \<Rightarrow> string list \<Rightarrow> nat option" where
  "position f [] = None"
| "position f (g # gs) = (if g = f then Some 0 else map_option Suc (position f gs))"

text \<open>
  The column of a field: in the inferred shape, or in the first shape that has it, in the order
  of the table.
\<close>

definition find_field :: "expr \<Rightarrow> string \<Rightarrow> gen_state \<Rightarrow> nat option" where
  "find_field inst field_name s =
     (let shapes = cg_shapes (gs_cg s) in
      map_option Suc
        (case shape_of inst s of
           Some shape_name \<Rightarrow> Option.bind (map_of shapes shape_name) (position field_name)
         | None \<Rightarrow> (case filter (\<lambda>p. p \<noteq> None) (map (\<lambda>(_, flds). position field_name flds) shapes) of
                      p # _ \<Rightarrow> p | [] \<Rightarrow> None)))"

text \<open>The pointer to column \<open>k\<close> of an instance, as an integer and as a pointer.\<close>

definition column :: "val \<Rightarrow> nat \<Rightarrow> (val \<times> val) gen" where
  "column inst_ptr k =
     gbind (emit (Gep I64 inst_ptr (const_nat k)) Ptr) (\<lambda>col_ptr_ptr.
     gbind (emit (Load I64 col_ptr_ptr False) I64) (\<lambda>loaded.
     gbind (as_int loaded) (\<lambda>col_ptr_int.
     gbind (emit (IntToPtr col_ptr_int) Ptr) (\<lambda>col_ptr. greturn (col_ptr_int, col_ptr)))))"

definition load_element :: "ty \<Rightarrow> val \<Rightarrow> val \<Rightarrow> val gen" where
  "load_element t col_ptr i =
     gbind (emit (Gep t col_ptr i) Ptr) (\<lambda>p. emit (Load t p True) t)"

definition store_element :: "ty \<Rightarrow> val \<Rightarrow> val \<Rightarrow> val \<Rightarrow> unit gen" where
  "store_element t col_ptr i v =
     gbind (emit (Gep t col_ptr i) Ptr) (\<lambda>p. emit_void (Store v p True))"

definition debug_option :: "string option \<Rightarrow> string" where
  "debug_option x = (case x of None \<Rightarrow> ''None'' | Some s \<Rightarrow> ''Some('' @ debug_string s @ '')'')"

definition field_message :: "string \<Rightarrow> string option \<Rightarrow> string" where
  "field_message field_name inferred =
     ''E007: field '' @ [apostrophe] @ field_name @ [apostrophe] @ '' not found in shape '' @
     [apostrophe] @ debug_option inferred @ [apostrophe]"

definition gen_get :: "gen_env \<Rightarrow> expr \<Rightarrow> string \<Rightarrow> val gen \<Rightarrow> val gen \<Rightarrow> val gen" where
  "gen_get env inst field_name gi gx =
     gbind gi (\<lambda>struct_ptr_val.
     gbind (as_int struct_ptr_val) (\<lambda>struct_ptr_int.
     gbind (emit (IntToPtr struct_ptr_int) Ptr) (\<lambda>struct_ptr.
     gbind gx (\<lambda>index_val.
     gbind (as_int index_val) (\<lambda>index.
     gbind (gget (shape_of inst)) (\<lambda>inferred.
     gbind (gget (find_field inst field_name)) (\<lambda>found.
     gbind (expect (field_message field_name inferred) found) (\<lambda>field_idx.
     gbind (column struct_ptr field_idx) (\<lambda>(_, col_ptr).
     gbind (load_element (get_llvm_type field_name) col_ptr index) (\<lambda>loaded.
     gbind (maybe_drop_val env inst struct_ptr_val) (\<lambda>_. greturn loaded)))))))))))"

definition gen_set :: "gen_env \<Rightarrow> expr \<Rightarrow> string \<Rightarrow> val gen \<Rightarrow> val gen \<Rightarrow> val gen \<Rightarrow> val gen" where
  "gen_set env inst field_name gi gx gv =
     gbind gi (\<lambda>struct_ptr_val.
     gbind (as_int struct_ptr_val) (\<lambda>struct_ptr_int.
     gbind (emit (IntToPtr struct_ptr_int) Ptr) (\<lambda>struct_ptr.
     gbind gx (\<lambda>index_val.
     gbind (as_int index_val) (\<lambda>index.
     gbind gv (\<lambda>v.
     gbind (gget (find_field inst field_name)) (\<lambda>found.
     gbind (expect ''E007'' found) (\<lambda>field_idx.
     gbind (column struct_ptr field_idx) (\<lambda>(_, col_ptr).
     gbind (store_element (get_llvm_type field_name) col_ptr index v) (\<lambda>_.
     gbind (maybe_drop_val env inst struct_ptr_val) (\<lambda>_. greturn v)))))))))))"

section \<open>Conditionals\<close>

text \<open>Before the second branch the states, shapes and pointer flags are set back.\<close>

definition restore :: "stack_item list \<Rightarrow> stack_item list \<Rightarrow> stack_item list" where
  "restore initial stack =
     map2 (\<lambda>old item. item\<lparr>si_state := si_state old, si_shape := si_shape old, si_is_ptr := si_is_ptr old\<rparr>)
       initial stack @ drop (length initial) stack"

definition gen_if :: "val gen \<Rightarrow> val gen \<Rightarrow> val gen \<Rightarrow> val gen" where
  "gen_if gc gt gf =
     gbind gc (\<lambda>cond_val.
     gbind (as_int cond_val) (\<lambda>c.
     gbind parent_function (\<lambda>parent_func.
     gbind (append_basic_block parent_func ''then'') (\<lambda>true_bb.
     gbind (append_basic_block parent_func ''else'') (\<lambda>false_bb.
     gbind (append_basic_block parent_func ''ifcont'') (\<lambda>merge_bb.
     gbind (emit (Cmp PNe c (ConstInt 0)) I1) (\<lambda>cond_bool.
     gbind (emit_void (CondBr cond_bool true_bb false_bb)) (\<lambda>_.
     gbind (gget gs_stack) (\<lambda>initial.
     gbind (position_at_end true_bb) (\<lambda>_.
     gbind gt (\<lambda>true_val.
     gbind (gget (\<lambda>s. map si_state (gs_stack s))) (\<lambda>true_states.
     gbind (emit_void (Br merge_bb)) (\<lambda>_.
     gbind get_insert_block (\<lambda>true_bb_final.
     gbind (gmodify (\<lambda>s. s\<lparr>gs_stack := restore initial (gs_stack s)\<rparr>)) (\<lambda>_.
     gbind (position_at_end false_bb) (\<lambda>_.
     gbind gf (\<lambda>false_val.
     gbind (gget (\<lambda>s. map si_state (gs_stack s))) (\<lambda>false_states.
     gbind (emit_void (Br merge_bb)) (\<lambda>_.
     gbind get_insert_block (\<lambda>false_bb_final.
     gbind (if true_states \<noteq> false_states then gpanic ''E009'' else greturn ()) (\<lambda>_.
     gbind (position_at_end merge_bb) (\<lambda>_.
     emit (Phi [(true_val, true_bb_final), (false_val, false_bb_final)]) (ty_of true_val)))))))))))))))))))))))"

section \<open>Runtime operations\<close>

definition gen_seq :: "gen_env \<Rightarrow> expr \<Rightarrow> val gen \<Rightarrow> val gen \<Rightarrow> val gen" where
  "gen_seq env e1 g1 g2 =
     gbind g1 (\<lambda>v1. gbind (maybe_drop_val env e1 v1) (\<lambda>_. g2))"

text \<open>
  A call of \<open>llm_emit_async\<close>, which starts with its numeric operands and, for a request whose
  result is discarded, the request kind.
\<close>

definition gen_async :: "gen_env \<Rightarrow> val list \<Rightarrow> (expr \<times> bool) list \<Rightarrow> val gen list \<Rightarrow> unit gen" where
  "gen_async env kind es gs =
     gbind (gen_all gs) (\<lambda>vs.
     gbind (get_or_add_external_fn env ''llm_emit_async'' I64 4) (\<lambda>_.
     gbind (gen_all (map as_int vs)) (\<lambda>ints.
     gbind (build_call ''llm_emit_async'' (kind @ ints) False) (\<lambda>_.
     drop_operands env es vs))))"

definition gen_seq_http :: "gen_env \<Rightarrow> (expr \<times> bool) list \<Rightarrow> val gen list \<Rightarrow> val gen \<Rightarrow> val gen" where
  "gen_seq_http env es gs g2 = gbind (gen_async env [ConstInt 1] es gs) (\<lambda>_. g2)"

definition gen_otel_emit :: "gen_env \<Rightarrow> (expr \<times> bool) list \<Rightarrow> val gen list \<Rightarrow> val gen" where
  "gen_otel_emit env es gs = gbind (gen_async env [] es gs) (\<lambda>_. greturn (ConstInt 0))"

definition gen_len :: "gen_env \<Rightarrow> expr \<Rightarrow> val gen \<Rightarrow> val gen" where
  "gen_len env e g =
     gbind g (\<lambda>s_val.
     gbind (gget (shape_of e)) (\<lambda>shape.
     if shape \<noteq> None
     then gbind (as_int s_val) (\<lambda>s_int.
          gbind (emit (IntToPtr s_int) Ptr) (\<lambda>p. emit (Load I64 p False) I64))
     else rt_call env ''llm_len'' I64 [s_val]))"

definition gen_pack :: "gen_env \<Rightarrow> expr \<Rightarrow> val gen \<Rightarrow> val gen" where
  "gen_pack env e g =
     gbind g (\<lambda>v.
     gbind (gbind (gget (shape_of e)) (expect ''E006'')) (\<lambda>shape_name.
     gbind (get_shape shape_name) (\<lambda>flds.
     gbind (as_int v) (\<lambda>val_int.
     gbind (gen_string_constant env (join '','' flds)) (\<lambda>fields_val.
     gbind (as_int fields_val) (\<lambda>fields_int.
     gbind (rt_call env ''llm_pack'' I64 [val_int, fields_int]) (\<lambda>res.
     gbind (maybe_drop_val env e v) (\<lambda>_. greturn res))))))))"

definition gen_unpack :: "gen_env \<Rightarrow> expr \<Rightarrow> string \<Rightarrow> val gen \<Rightarrow> val gen" where
  "gen_unpack env e shape_name g =
     gbind g (\<lambda>json_val.
     gbind (get_shape shape_name) (\<lambda>flds.
     gbind (gen_string_constant env (join '','' flds)) (\<lambda>fields_val.
     gbind (as_int fields_val) (\<lambda>fields_int.
     gbind (rt_call env ''llm_unpack'' I64 [json_val, fields_int]) (\<lambda>res.
     gbind (maybe_drop_val env e json_val) (\<lambda>_. greturn res))))))"

definition gen_panic :: "gen_env \<Rightarrow> val gen \<Rightarrow> val gen" where
  "gen_panic env g =
     gbind g (\<lambda>msg. gbind (rt_void env ''llm_panic'' [msg]) (\<lambda>_. greturn (ConstInt 0)))"

definition gen_money_str :: "gen_env \<Rightarrow> val gen \<Rightarrow> val gen" where
  "gen_money_str env g = gbind g (\<lambda>v. rt_call env ''llm_money_format'' I64 [v])"

section \<open>Map\<close>

text \<open>A counter that starts at 0, and the head of a loop over it.\<close>

definition alloca_zero :: "val gen" where
  "alloca_zero =
     gbind (emit Alloca Ptr) (\<lambda>p. gbind (emit_void (Store (ConstInt 0) p False)) (\<lambda>_. greturn p))"

definition load_int :: "val \<Rightarrow> val gen" where
  "load_int p = gbind (emit (Load I64 p False) I64) as_int"

definition loop_test :: "val \<Rightarrow> val \<Rightarrow> (val \<times> val) gen" where
  "loop_test i_ptr cnt =
     gbind (load_int i_ptr) (\<lambda>i. gbind (emit (Cmp PLt i cnt) I1) (\<lambda>c. greturn (i, c)))"

definition step_counter :: "val \<Rightarrow> val \<Rightarrow> unit gen" where
  "step_counter i_ptr i =
     gbind (emit (Arith IAdd i (ConstInt 1)) I64) (\<lambda>next_i. emit_void (Store next_i i_ptr False))"

text \<open>The function of a \<open>Map\<close> or a \<open>Filter\<close>, called on the given values.\<close>

definition call_named :: "gen_env \<Rightarrow> string \<Rightarrow> val list \<Rightarrow> val gen" where
  "call_named env name args =
     gbind (gget (\<lambda>s. resolve_func_name (ge_names env) (gs_cg s) name)) (\<lambda>resolved.
     gbind (gget (\<lambda>s. has_function (gs_cg s) resolved)) (\<lambda>known.
     if known then build_call resolved args False else gpanic ''E010''))"

text \<open>The kernel is tried first, when there is one.\<close>

definition try_opencl :: "gen_env \<Rightarrow> expr \<Rightarrow> val \<Rightarrow> val \<Rightarrow> val \<Rightarrow> nat \<Rightarrow> nat \<Rightarrow> unit gen" where
  "try_opencl env func col_ptr_int new_col_ptr_int cnt cpu_map_bb after_map_bb =
     gbind (gget (\<lambda>s. case func of
         Identifier name \<Rightarrow> translate_to_opencl (ge_f64_show env) name (gs_cg s) | _ \<Rightarrow> None)) (\<lambda>kernel.
     case kernel of
       Some kernel_src \<Rightarrow>
         gbind (get_or_add_external_fn env ''llm_opencl_map'' I64 4) (\<lambda>_.
         gbind (gen_string_constant env kernel_src) (\<lambda>kernel_src_val.
         gbind (build_call ''llm_opencl_map'' [col_ptr_int, new_col_ptr_int, cnt, kernel_src_val] False) (\<lambda>ocl_res.
         gbind (as_int ocl_res) (\<lambda>r.
         gbind (emit (Cmp PEq r (ConstInt 1)) I1) (\<lambda>is_success.
         emit_void (CondBr is_success after_map_bb cpu_map_bb))))))
     | None \<Rightarrow> emit_void (Br cpu_map_bb))"

text \<open>The loop over the mapped column.\<close>

definition cpu_map :: "gen_env \<Rightarrow> expr \<Rightarrow> string \<Rightarrow> val \<Rightarrow> val \<Rightarrow> val \<Rightarrow> nat \<Rightarrow> nat \<Rightarrow> unit gen" where
  "cpu_map env func parent_func cnt col_ptr new_col_ptr cpu_map_bb after_map_bb =
     gbind (position_at_end cpu_map_bb) (\<lambda>_.
     gbind (append_basic_block parent_func ''map_loop'') (\<lambda>loop_bb.
     gbind (append_basic_block parent_func ''map_body'') (\<lambda>loop_body_bb.
     gbind (append_basic_block parent_func ''cpu_map_end'') (\<lambda>cpu_map_end_bb.
     gbind alloca_zero (\<lambda>i_ptr.
     gbind (emit_void (Br loop_bb)) (\<lambda>_.
     gbind (position_at_end loop_bb) (\<lambda>_.
     gbind (loop_test i_ptr cnt) (\<lambda>(i, c).
     gbind (emit_void (CondBr c loop_body_bb cpu_map_end_bb)) (\<lambda>_.
     gbind (position_at_end loop_body_bb) (\<lambda>_.
     gbind (load_element I64 col_ptr i) (\<lambda>old_val.
     gbind (case func of Identifier name \<Rightarrow> call_named env name [old_val] | _ \<Rightarrow> greturn old_val) (\<lambda>res_val.
     gbind (store_element I64 new_col_ptr i res_val) (\<lambda>_.
     gbind (step_counter i_ptr i) (\<lambda>_.
     gbind (emit_void (Br loop_bb)) (\<lambda>_.
     gbind (position_at_end cpu_map_end_bb) (\<lambda>_.
     emit_void (Br after_map_bb)))))))))))))))))"

text \<open>The loop that copies the other columns.\<close>

definition copy_columns :: "string \<Rightarrow> string list \<Rightarrow> nat \<Rightarrow> val \<Rightarrow> val \<Rightarrow> val \<Rightarrow> unit gen" where
  "copy_columns parent_func flds field_idx cnt inst_ptr struct_ptr_raw =
     gbind (append_basic_block parent_func ''copy_loop'') (\<lambda>copy_loop_bb.
     gbind (append_basic_block parent_func ''copy_body'') (\<lambda>copy_body_bb.
     gbind (append_basic_block parent_func ''after_copy'') (\<lambda>copy_after_bb.
     gbind alloca_zero (\<lambda>i_ptr.
     gbind (emit_void (Br copy_loop_bb)) (\<lambda>_.
     gbind (position_at_end copy_loop_bb) (\<lambda>_.
     gbind (loop_test i_ptr cnt) (\<lambda>(i, c).
     gbind (emit_void (CondBr c copy_body_bb copy_after_bb)) (\<lambda>_.
     gbind (position_at_end copy_body_bb) (\<lambda>_.
     gbind (gen_each (\<lambda>k.
       if k \<noteq> field_idx
       then gbind (column inst_ptr k) (\<lambda>(_, src_col).
            gbind (load_element I64 src_col i) (\<lambda>v.
            gbind (column struct_ptr_raw k) (\<lambda>(_, dst_col). store_element I64 dst_col i v)))
       else greturn ()) [1..<Suc (length flds)]) (\<lambda>_.
     gbind (step_counter i_ptr i) (\<lambda>_.
     gbind (emit_void (Br copy_loop_bb)) (\<lambda>_.
     position_at_end copy_after_bb))))))))))))"

definition gen_map :: "gen_env \<Rightarrow> expr \<Rightarrow> string \<Rightarrow> expr \<Rightarrow> val gen \<Rightarrow> val gen" where
  "gen_map env inst field_name func gi =
     gbind gi (\<lambda>inst_ptr_val.
     gbind (as_int inst_ptr_val) (\<lambda>inst_ptr_int.
     gbind (emit (IntToPtr inst_ptr_int) Ptr) (\<lambda>inst_ptr.
     gbind (load_int inst_ptr) (\<lambda>cnt.
     gbind (gbind (gget (shape_of inst)) (expect ''E006'')) (\<lambda>shape_name.
     gbind (get_shape shape_name) (\<lambda>flds.
     gbind (alloc_soa env cnt flds) (\<lambda>(struct_ptr_raw, new_inst_ptr_int).
     let field_idx = (case position field_name flds of Some k \<Rightarrow> Suc k | None \<Rightarrow> 0) in
     gbind (column inst_ptr field_idx) (\<lambda>(col_ptr_int, col_ptr).
     gbind (column struct_ptr_raw field_idx) (\<lambda>(new_col_ptr_int, new_col_ptr).
     gbind parent_function (\<lambda>parent_func.
     gbind (append_basic_block parent_func ''cpu_map'') (\<lambda>cpu_map_bb.
     gbind (append_basic_block parent_func ''after_map'') (\<lambda>after_map_bb.
     gbind (try_opencl env func col_ptr_int new_col_ptr_int cnt cpu_map_bb after_map_bb) (\<lambda>_.
     gbind (cpu_map env func parent_func cnt col_ptr new_col_ptr cpu_map_bb after_map_bb) (\<lambda>_.
     gbind (position_at_end after_map_bb) (\<lambda>_.
     gbind (if length flds > 1
            then copy_columns parent_func flds field_idx cnt inst_ptr struct_ptr_raw
            else greturn ()) (\<lambda>_.
     gbind (maybe_drop_val env inst inst_ptr_val) (\<lambda>_. greturn new_inst_ptr_int)))))))))))))))))"

section \<open>Filter\<close>

definition load_row :: "string list \<Rightarrow> val \<Rightarrow> val \<Rightarrow> val list gen" where
  "load_row flds inst_ptr i =
     gen_all (map (\<lambda>(k, fld).
       gbind (column inst_ptr (Suc k)) (\<lambda>(_, col_ptr). load_element (get_llvm_type fld) col_ptr i))
       (enumerate 0 flds))"

definition row_matches :: "gen_env \<Rightarrow> expr \<Rightarrow> val list \<Rightarrow> val gen" where
  "row_matches env func row_vals =
     (case func of
        Identifier name \<Rightarrow>
          gbind (call_named env name row_vals) (\<lambda>res_val.
          gbind (as_int res_val) (\<lambda>res. emit (Cmp PNe res (ConstInt 0)) I1))
      | _ \<Rightarrow> greturn (ConstBool True))"

definition filter_count ::
  "gen_env \<Rightarrow> expr \<Rightarrow> string \<Rightarrow> string list \<Rightarrow> val \<Rightarrow> val \<Rightarrow> (val \<times> val) gen" where
  "filter_count env func parent_func flds cnt inst_ptr =
     gbind (append_basic_block parent_func ''filter_count_loop'') (\<lambda>count_loop_bb.
     gbind (append_basic_block parent_func ''after_filter_count'') (\<lambda>count_after_bb.
     gbind alloca_zero (\<lambda>matching_count_ptr.
     gbind alloca_zero (\<lambda>i_ptr.
     gbind (emit_void (Br count_loop_bb)) (\<lambda>_.
     gbind (position_at_end count_loop_bb) (\<lambda>_.
     gbind (loop_test i_ptr cnt) (\<lambda>(i, c).
     gbind (append_basic_block parent_func ''filter_count_body'') (\<lambda>count_body_bb.
     gbind (emit_void (CondBr c count_body_bb count_after_bb)) (\<lambda>_.
     gbind (position_at_end count_body_bb) (\<lambda>_.
     gbind (load_row flds inst_ptr i) (\<lambda>row_vals.
     gbind (row_matches env func row_vals) (\<lambda>matched.
     gbind (load_int matching_count_ptr) (\<lambda>cur_matching.
     gbind (emit (ZExt matched) I64) (\<lambda>inc.
     gbind (emit (Arith IAdd cur_matching inc) I64) (\<lambda>new_c.
     gbind (emit_void (Store new_c matching_count_ptr False)) (\<lambda>_.
     gbind (step_counter i_ptr i) (\<lambda>_.
     gbind (emit_void (Br count_loop_bb)) (\<lambda>_.
     gbind (position_at_end count_after_bb) (\<lambda>_.
     gbind (load_int matching_count_ptr) (\<lambda>final_matching_count.
     greturn (i_ptr, final_matching_count)))))))))))))))))))))"

definition filter_copy ::
  "gen_env \<Rightarrow> expr \<Rightarrow> string \<Rightarrow> string list \<Rightarrow> val \<Rightarrow> val \<Rightarrow> val \<Rightarrow> val \<Rightarrow> unit gen" where
  "filter_copy env func parent_func flds cnt inst_ptr struct_ptr_raw i_ptr =
     gbind (append_basic_block parent_func ''filter_copy_loop'') (\<lambda>copy_loop_bb.
     gbind (append_basic_block parent_func ''after_filter_copy'') (\<lambda>copy_after_bb.
     gbind alloca_zero (\<lambda>next_dst_idx_ptr.
     gbind (emit_void (Store (ConstInt 0) i_ptr False)) (\<lambda>_.
     gbind (emit_void (Br copy_loop_bb)) (\<lambda>_.
     gbind (position_at_end copy_loop_bb) (\<lambda>_.
     gbind (loop_test i_ptr cnt) (\<lambda>(i, c).
     gbind (append_basic_block parent_func ''filter_copy_body'') (\<lambda>copy_body_bb.
     gbind (emit_void (CondBr c copy_body_bb copy_after_bb)) (\<lambda>_.
     gbind (position_at_end copy_body_bb) (\<lambda>_.
     gbind (load_row flds inst_ptr i) (\<lambda>row_vals.
     gbind (row_matches env func row_vals) (\<lambda>matched.
     gbind (append_basic_block parent_func ''then_copy'') (\<lambda>then_copy_bb.
     gbind (append_basic_block parent_func ''end_copy'') (\<lambda>end_copy_bb.
     gbind (emit_void (CondBr matched then_copy_bb end_copy_bb)) (\<lambda>_.
     gbind (position_at_end then_copy_bb) (\<lambda>_.
     gbind (load_int next_dst_idx_ptr) (\<lambda>dst_idx.
     gbind (gen_each (\<lambda>(k, fld, v).
       gbind (column struct_ptr_raw (Suc k)) (\<lambda>(_, dst_col).
       store_element (get_llvm_type fld) dst_col dst_idx v)) (enumerate 0 (zip flds row_vals))) (\<lambda>_.
     gbind (step_counter next_dst_idx_ptr dst_idx) (\<lambda>_.
     gbind (emit_void (Br end_copy_bb)) (\<lambda>_.
     gbind (position_at_end end_copy_bb) (\<lambda>_.
     gbind (step_counter i_ptr i) (\<lambda>_.
     gbind (emit_void (Br copy_loop_bb)) (\<lambda>_.
     position_at_end copy_after_bb)))))))))))))))))))))))"

definition gen_filter :: "gen_env \<Rightarrow> expr \<Rightarrow> expr \<Rightarrow> val gen \<Rightarrow> val gen" where
  "gen_filter env inst func gi =
     gbind gi (\<lambda>inst_ptr_val.
     gbind (as_int inst_ptr_val) (\<lambda>inst_ptr_int.
     gbind (emit (IntToPtr inst_ptr_int) Ptr) (\<lambda>inst_ptr.
     gbind (load_int inst_ptr) (\<lambda>cnt.
     gbind (gbind (gget (shape_of inst)) (expect ''E006'')) (\<lambda>shape_name.
     gbind (get_shape shape_name) (\<lambda>flds.
     gbind parent_function (\<lambda>parent_func.
     gbind (filter_count env func parent_func flds cnt inst_ptr) (\<lambda>(i_ptr, final_matching_count).
     gbind (alloc_soa env final_matching_count flds) (\<lambda>(struct_ptr_raw, new_inst_ptr_int).
     gbind (filter_copy env func parent_func flds cnt inst_ptr struct_ptr_raw i_ptr) (\<lambda>_.
     gbind (maybe_drop_val env inst inst_ptr_val) (\<lambda>_. greturn new_inst_ptr_int)))))))))))"

section \<open>Calls\<close>

text \<open>The shape name in a database query is replaced by the list of its fields.\<close>

definition final_arg :: "string \<Rightarrow> nat \<Rightarrow> expr \<Rightarrow> gen_state \<Rightarrow> expr" where
  "final_arg name i arg s =
     (if name = ''query'' \<and> cg_imports (gs_cg s) name = Some ''db'' \<and> i = 2
      then (case arg of
              String shape_name \<Rightarrow>
                (case map_of (cg_shapes (gs_cg s)) shape_name of
                   Some flds \<Rightarrow> String (join '','' flds) | None \<Rightarrow> arg)
            | _ \<Rightarrow> arg)
      else arg)"

definition gen_final_arg :: "gen_env \<Rightarrow> expr \<Rightarrow> expr \<Rightarrow> val gen \<Rightarrow> val gen" where
  "gen_final_arg env arg final g =
     (if final = arg then g else case final of String str \<Rightarrow> gen_string_constant env str | _ \<Rightarrow> g)"

text \<open>
  The arguments from position \<open>i\<close>, of \<open>n\<close> in all: all but the last may be forked, and are then
  joined in the order of the forks.
\<close>

primrec gen_args ::
  "gen_env \<Rightarrow> string \<Rightarrow> nat \<Rightarrow> nat \<Rightarrow> (expr \<times> val gen) list \<Rightarrow> (val list \<times> (nat \<times> val) list) gen" where
  "gen_args env name n i [] = greturn ([], [])"
| "gen_args env name n i (arg # args) =
     gbind (gget (final_arg name i (fst arg))) (\<lambda>final.
     gbind (gget (\<lambda>s. i < n - 1 \<and> hoistable env final s)) (\<lambda>hoist.
     gbind (if hoist then gen_parallel_expr env (gen_final_arg env (fst arg) final (snd arg))
            else gen_final_arg env (fst arg) final (snd arg)) (\<lambda>v.
     gbind (gen_args env name n (Suc i) args) (\<lambda>(vals, handles).
     greturn (if hoist then (ConstInt 0 # vals, (i, v) # handles) else (v # vals, handles))))))"

primrec join_handles :: "gen_env \<Rightarrow> (nat \<times> val) list \<Rightarrow> val list \<Rightarrow> val list gen" where
  "join_handles env [] vals = greturn vals"
| "join_handles env (h # hs) vals =
     gbind (rt_call env ''llm_join'' I64 [snd h]) (\<lambda>res. join_handles env hs (vals[fst h := res]))"

text \<open>
  A template: the arguments are pushed, with what is known of them on the stack as it is then,
  and the body is generated in place.
\<close>

primrec push_params ::
  "(param \<times> val \<times> expr) list \<Rightarrow> expand_map \<Rightarrow> (bool list \<times> expand_map) gen" where
  "push_params [] em = greturn ([], em)"
| "push_params (p # ps) em =
     (case p of (param, v, arg) \<Rightarrow>
      gbind (gget (is_ptr_of arg)) (\<lambda>is_ptr.
      gbind (gget (shape_of arg)) (\<lambda>shape.
      gbind (gmodify (\<lambda>s. s\<lparr>gs_stack := gs_stack s @
        [\<lparr>si_value = v, si_state = Available, si_shape = shape, si_is_ptr = is_ptr\<rparr>]\<rparr>)) (\<lambda>_.
      gbind (gget (is_owned_ptr arg)) (\<lambda>owned.
      gbind (gget (\<lambda>s. if param_expand param then em(param_name param \<mapsto> length (gs_stack s) - 1) else em)) (\<lambda>em'.
      gbind (push_params ps em') (\<lambda>(is_owned, em''). greturn (owned # is_owned, em''))))))))"

definition expand_template ::
  "gen_env \<Rightarrow> (expand_map \<Rightarrow> expr \<Rightarrow> val gen) \<Rightarrow> param list \<Rightarrow> expr \<Rightarrow> val list \<Rightarrow> expr list \<Rightarrow> val gen" where
  "expand_template env expand params body vals args =
     gbind (gget (\<lambda>s. length (gs_stack s))) (\<lambda>initial_stack_len.
     gbind (push_params (zip params (zip vals args)) Map.empty) (\<lambda>(is_owned, new_expand_map).
     gbind (expand new_expand_map body) (\<lambda>res.
     gbind (gget (\<lambda>s. drop initial_stack_len (gs_stack s))) (\<lambda>drained.
     gbind (gmodify (\<lambda>s. s\<lparr>gs_stack := take initial_stack_len (gs_stack s)\<rparr>)) (\<lambda>_.
     gbind (gen_each (\<lambda>(item, owned). if owned then drop_item env item else greturn ())
       (zip drained is_owned)) (\<lambda>_.
     greturn res))))))"

definition ffi_module :: "string \<Rightarrow> bool" where
  "ffi_module m = (m \<in> set [''crypto'', ''cms'', ''file'', ''http'', ''json'', ''db''])"

definition is_ffi :: "string \<Rightarrow> gen_state \<Rightarrow> bool" where
  "is_ffi name s = (case cg_imports (gs_cg s) name of Some m \<Rightarrow> ffi_module m | None \<Rightarrow> False)"

definition is_borrow :: "expr \<Rightarrow> bool" where
  "is_borrow e = (case e of Borrow _ \<Rightarrow> True | MutBorrow _ \<Rightarrow> True | _ \<Rightarrow> False)"

text \<open>The function that is called; one that is only known by its types is declared.\<close>

definition callee :: "gen_env \<Rightarrow> string \<Rightarrow> string \<Rightarrow> unit gen" where
  "callee env name final_func_name =
     gbind (gget (\<lambda>s. has_function (gs_cg s) final_func_name)) (\<lambda>known.
     if known then greturn ()
     else
       gbind (gget (\<lambda>s. case cg_param_ptrs (gs_cg s) name of
           Some ptrs \<Rightarrow> Some ptrs | None \<Rightarrow> cg_param_ptrs (gs_cg s) final_func_name)) (\<lambda>types.
       gbind (expect (''E010: Function '' @ [apostrophe] @ final_func_name @ [apostrophe] @
         '' not found and cannot be declared'') types) (\<lambda>ptrs.
       gbind (module_add_function env final_func_name (length ptrs)) (\<lambda>_. greturn ()))))"

definition dup_argument :: "gen_env \<Rightarrow> bool \<Rightarrow> expr \<times> val \<Rightarrow> val gen" where
  "dup_argument env user_defined av =
     (case av of (arg, v) \<Rightarrow>
      gbind (gget (\<lambda>s. user_defined \<and> is_borrow arg \<and> is_ptr_of arg s)) (\<lambda>dup.
      if dup then rt_call env ''llm_dup'' I64 [v] else greturn v))"

definition call_function :: "gen_env \<Rightarrow> string \<Rightarrow> string \<Rightarrow> expr list \<Rightarrow> val list \<Rightarrow> val gen" where
  "call_function env name final_func_name args vals =
     gbind (callee env name final_func_name) (\<lambda>_.
     gbind (gget (is_ffi name)) (\<lambda>ffi.
     gbind (gen_all (map (dup_argument env (\<not> ffi)) (zip args vals))) (\<lambda>call_args.
     gbind (build_call final_func_name call_args True) (\<lambda>res.
     gbind (if ffi then gen_each (\<lambda>(arg, v). maybe_drop_val env arg v) (zip args vals) else greturn ()) (\<lambda>_.
     greturn res)))))"

definition gen_apply ::
  "gen_env \<Rightarrow> (expand_map \<Rightarrow> expr \<Rightarrow> val gen) \<Rightarrow> expr \<Rightarrow> expr list \<Rightarrow> val gen list \<Rightarrow> val gen" where
  "gen_apply env expand func args gs =
     (case func of
        Identifier name \<Rightarrow>
          gbind (gget (\<lambda>s. resolve_func_name (ge_names env) (gs_cg s) name)) (\<lambda>final_func_name.
          gbind (gget (\<lambda>s. map_of (cg_templates (gs_cg s)) final_func_name)) (\<lambda>template.
          gbind (gen_args env name (length args) 0 (zip args gs)) (\<lambda>(args_vals, handles).
          gbind (join_handles env handles args_vals) (\<lambda>vals.
          case template of
            Some (params, body) \<Rightarrow> expand_template env expand params body vals args
          | None \<Rightarrow> call_function env name final_func_name args vals))))
      | _ \<Rightarrow> gpanic ''E012'')"

section \<open>The arms that call the runtime\<close>

text \<open>The operands of each arm, and whether the arm drops them after the call.\<close>

definition arm_cat :: "gen_env \<Rightarrow> expr \<Rightarrow> expr \<Rightarrow> val gen \<Rightarrow> val gen \<Rightarrow> val gen" where
  "arm_cat env l r g1 g2 =
     runtime_op env ''llm_cat'' [(l, True), (r, True)] [g1, g2]"

definition arm_sub :: "gen_env \<Rightarrow> expr \<Rightarrow> expr \<Rightarrow> expr \<Rightarrow> val gen \<Rightarrow> val gen \<Rightarrow> val gen \<Rightarrow> val gen" where
  "arm_sub env str b l g1 g2 g3 =
     runtime_op env ''llm_sub'' [(str, True), (b, False), (l, False)] [g1, g2, g3]"

definition arm_loc :: "gen_env \<Rightarrow> expr \<Rightarrow> expr \<Rightarrow> val gen \<Rightarrow> val gen \<Rightarrow> val gen" where
  "arm_loc env str p g1 g2 =
     runtime_op env ''llm_loc'' [(str, True), (p, True)] [g1, g2]"

definition arm_reg :: "gen_env \<Rightarrow> expr \<Rightarrow> expr \<Rightarrow> val gen \<Rightarrow> val gen \<Rightarrow> val gen" where
  "arm_reg env str r g1 g2 =
     runtime_op env ''llm_reg'' [(str, True), (r, True)] [g1, g2]"

definition arm_read :: "gen_env \<Rightarrow> expr \<Rightarrow> val gen \<Rightarrow> val gen" where
  "arm_read env h g1 =
     runtime_op env ''llm_read'' [(h, True)] [g1]"

definition arm_write :: "gen_env \<Rightarrow> expr \<Rightarrow> expr \<Rightarrow> val gen \<Rightarrow> val gen \<Rightarrow> val gen" where
  "arm_write env h str g1 g2 =
     runtime_op env ''llm_write'' [(h, True), (str, True)] [g1, g2]"

definition arm_str :: "gen_env \<Rightarrow> expr \<Rightarrow> val gen \<Rightarrow> val gen" where
  "arm_str env e g1 =
     runtime_op env ''llm_itoa'' [(e, True)] [g1]"

definition arm_split :: "gen_env \<Rightarrow> expr \<Rightarrow> expr \<Rightarrow> expr \<Rightarrow> val gen \<Rightarrow> val gen \<Rightarrow> val gen \<Rightarrow> val gen" where
  "arm_split env str d i g1 g2 g3 =
     runtime_op env ''llm_split'' [(str, True), (d, True), (i, False)] [g1, g2, g3]"

definition arm_time_now :: "gen_env \<Rightarrow> val gen" where
  "arm_time_now env =
     runtime_op env ''llm_tai_now'' [] []"

definition arm_time_nano :: "gen_env \<Rightarrow> val gen" where
  "arm_time_nano env =
     runtime_op env ''llm_tai_nano'' [] []"

definition arm_time_get :: "gen_env \<Rightarrow> expr \<Rightarrow> expr \<Rightarrow> val gen \<Rightarrow> val gen \<Rightarrow> val gen" where
  "arm_time_get env t i g1 g2 =
     runtime_op env ''llm_tai_get'' [(t, True), (i, False)] [g1, g2]"

definition arm_time_set :: "gen_env \<Rightarrow> expr \<Rightarrow> expr \<Rightarrow> expr \<Rightarrow> expr \<Rightarrow> expr \<Rightarrow> expr \<Rightarrow> val gen \<Rightarrow> val gen \<Rightarrow> val gen \<Rightarrow> val gen \<Rightarrow> val gen \<Rightarrow> val gen \<Rightarrow> val gen" where
  "arm_time_set env y m d h mn sec g1 g2 g3 g4 g5 g6 =
     runtime_op env ''llm_tai_set'' [(y, True), (m, True), (d, True), (h, True), (mn, True), (sec, True)] [g1, g2, g3, g4, g5, g6]"

definition arm_env :: "gen_env \<Rightarrow> expr \<Rightarrow> val gen \<Rightarrow> val gen" where
  "arm_env env k g1 =
     runtime_op env ''llm_getenv'' [(k, True)] [g1]"

definition arm_http_client :: "gen_env \<Rightarrow> expr \<Rightarrow> expr \<Rightarrow> expr \<Rightarrow> val gen \<Rightarrow> val gen \<Rightarrow> val gen \<Rightarrow> val gen" where
  "arm_http_client env m u b g1 g2 g3 =
     runtime_op env ''llm_http_client'' [(m, True), (u, True), (b, True)] [g1, g2, g3]"

definition arm_http_server :: "gen_env \<Rightarrow> expr \<Rightarrow> expr \<Rightarrow> val gen \<Rightarrow> val gen \<Rightarrow> val gen" where
  "arm_http_server env op arg g1 g2 =
     runtime_op env ''llm_http_server'' [(op, True), (arg, True)] [g1, g2]"

definition arm_http_header :: "gen_env \<Rightarrow> expr \<Rightarrow> expr \<Rightarrow> val gen \<Rightarrow> val gen \<Rightarrow> val gen" where
  "arm_http_header env req name g1 g2 =
     runtime_op env ''llm_http_get_header'' [(req, True), (name, True)] [g1, g2]"

definition arm_file_open :: "gen_env \<Rightarrow> expr \<Rightarrow> expr \<Rightarrow> val gen \<Rightarrow> val gen \<Rightarrow> val gen" where
  "arm_file_open env p m g1 g2 =
     runtime_op env ''llm_file_open'' [(p, True), (m, True)] [g1, g2]"

definition arm_time_zone :: "gen_env \<Rightarrow> val gen" where
  "arm_time_zone env =
     runtime_op env ''llm_timezone'' [] []"

lemmas runtime_arms =
  arm_cat_def arm_sub_def arm_loc_def arm_reg_def arm_read_def arm_write_def
  arm_str_def arm_split_def arm_time_now_def arm_time_nano_def arm_time_get_def arm_time_set_def
  arm_env_def arm_http_client_def arm_http_server_def arm_http_header_def arm_file_open_def arm_time_zone_def

section \<open>Expressions\<close>

text \<open>
  \<open>expand\<close> generates the body of a template under the expansion map of the call.
\<close>

fun gen_expr :: "gen_env \<Rightarrow> (expand_map \<Rightarrow> expr \<Rightarrow> val gen) \<Rightarrow> expand_map \<Rightarrow> expr \<Rightarrow> val gen" where
  "gen_expr env expand em (Integer i) = greturn (ConstInt i)"
| "gen_expr env expand em (Float x) = greturn (ConstFloat x)"
| "gen_expr env expand em (String str) = gen_string_constant env str"
| "gen_expr env expand em (Identifier name) = gen_identifier env name"
| "gen_expr env expand em (DeBruijn index) = gen_debruijn index"
| "gen_expr env expand em (BinaryOp op l r) =
     gen_binary_op env op l (gen_expr env expand em l) (gen_expr env expand em r)"
| "gen_expr env expand em (Move e) = gen_move em e (gen_expr env expand em e)"
| "gen_expr env expand em (Borrow e) = gen_expr env expand em e"
| "gen_expr env expand em (MutBorrow e) = gen_expr env expand em e"
| "gen_expr env expand em (New shape cnt) = gen_new env shape (gen_expr env expand em cnt)"
| "gen_expr env expand em (Get inst fld idx) =
     gen_get env inst fld (gen_expr env expand em inst) (gen_expr env expand em idx)"
| "gen_expr env expand em (Set inst fld idx v) =
     gen_set env inst fld (gen_expr env expand em inst) (gen_expr env expand em idx) (gen_expr env expand em v)"
| "gen_expr env expand em (If c t f) =
     gen_if (gen_expr env expand em c) (gen_expr env expand em t) (gen_expr env expand em f)"
| "gen_expr env expand em (Apply func args) =
     gen_apply env expand func args (map (gen_expr env expand em) args)"
| "gen_expr env expand em (Expand name) = gen_expand em name"
| "gen_expr env expand em (Let name v body) =
     gen_let env v (gen_expr env expand em v) (gen_expr env expand em body)"
| "gen_expr env expand em (Len e) = gen_len env e (gen_expr env expand em e)"
| "gen_expr env expand em (Cat l r) =
     arm_cat env l r (gen_expr env expand em l) (gen_expr env expand em r)"
| "gen_expr env expand em (Sub str b l) =
     arm_sub env str b l
       (gen_expr env expand em str) (gen_expr env expand em b) (gen_expr env expand em l)"
| "gen_expr env expand em (Loc str p) =
     arm_loc env str p (gen_expr env expand em str) (gen_expr env expand em p)"
| "gen_expr env expand em (Reg str r) =
     arm_reg env str r (gen_expr env expand em str) (gen_expr env expand em r)"
| "gen_expr env expand em (Read h) = arm_read env h (gen_expr env expand em h)"
| "gen_expr env expand em (Write h str) =
     arm_write env h str (gen_expr env expand em h) (gen_expr env expand em str)"
| "gen_expr env expand em (Str e) = arm_str env e (gen_expr env expand em e)"
| "gen_expr env expand em (Split str d i) =
     arm_split env str d i
       (gen_expr env expand em str) (gen_expr env expand em d) (gen_expr env expand em i)"
| "gen_expr env expand em TimeNow = arm_time_now env"
| "gen_expr env expand em TimeNano = arm_time_nano env"
| "gen_expr env expand em (TimeGet t i) =
     arm_time_get env t i (gen_expr env expand em t) (gen_expr env expand em i)"
| "gen_expr env expand em (TimeSet y m d h mn sec) =
     arm_time_set env y m d h mn sec
       (gen_expr env expand em y) (gen_expr env expand em m) (gen_expr env expand em d) (gen_expr env expand em h) (gen_expr env expand em mn) (gen_expr env expand em sec)"
| "gen_expr env expand em (Env k) = arm_env env k (gen_expr env expand em k)"
| "gen_expr env expand em (HttpClient m u b) =
     arm_http_client env m u b
       (gen_expr env expand em m) (gen_expr env expand em u) (gen_expr env expand em b)"
| "gen_expr env expand em (HttpServer op arg) =
     arm_http_server env op arg
       (gen_expr env expand em op) (gen_expr env expand em arg)"
| "gen_expr env expand em (HttpHeader req name) =
     arm_http_header env req name
       (gen_expr env expand em req) (gen_expr env expand em name)"
| "gen_expr env expand em (FileOpen p m) =
     arm_file_open env p m (gen_expr env expand em p) (gen_expr env expand em m)"
| "gen_expr env expand em (Seq e1 e2) =
     (case e1 of
        HttpClient m u b \<Rightarrow>
          gen_seq_http env [(m, True), (u, True), (b, True)]
            [gen_expr env expand em m, gen_expr env expand em u, gen_expr env expand em b]
            (gen_expr env expand em e2)
      | _ \<Rightarrow> gen_seq env e1 (gen_expr env expand em e1) (gen_expr env expand em e2))"
| "gen_expr env expand em (Pack e) = gen_pack env e (gen_expr env expand em e)"
| "gen_expr env expand em (OtelEmit t a b c) =
     gen_otel_emit env [(t, True), (a, True), (b, True), (c, True)]
       [gen_expr env expand em t, gen_expr env expand em a, gen_expr env expand em b, gen_expr env expand em c]"
| "gen_expr env expand em (Unpack e shape) = gen_unpack env e shape (gen_expr env expand em e)"
| "gen_expr env expand em (Map inst fld func) = gen_map env inst fld func (gen_expr env expand em inst)"
| "gen_expr env expand em (Filter inst func) = gen_filter env inst func (gen_expr env expand em inst)"
| "gen_expr env expand em (MoneyOp op l r) =
     gen_money_op op (gen_expr env expand em l) (gen_expr env expand em r)"
| "gen_expr env expand em (MoneyStr e) = gen_money_str env (gen_expr env expand em e)"
| "gen_expr env expand em (TimeOp op l r) =
     gen_time_op op (gen_expr env expand em l) (gen_expr env expand em r)"
| "gen_expr env expand em TimeZone = arm_time_zone env"
| "gen_expr env expand em (Panic e) = gen_panic env (gen_expr env expand em e)"
| "gen_expr env expand em (Trap t f) = gen_trap env (gen_expr env expand em t) (gen_expr env expand em f)"
| "gen_expr env expand em (Shape name flds exported) = greturn (ConstInt 0)"
| "gen_expr env expand em (Import module symbol arity) = greturn (ConstInt 0)"
| "gen_expr env expand em (Define name params body exported) = greturn (ConstInt 0)"
| "gen_expr env expand em (Metadata tag v t) = gen_expr env expand em t"

text \<open>
  Templates expand into their bodies, which may call templates again: the number of nested
  expansions is the fuel.
\<close>

primrec gen_nested :: "gen_env \<Rightarrow> nat \<Rightarrow> expand_map \<Rightarrow> expr \<Rightarrow> val gen" where
  "gen_nested env 0 = gen_expr env (\<lambda>em body s. Inl NoFuel)"
| "gen_nested env (Suc n) = gen_expr env (gen_nested env n)"

end
