(* ===== verification/Gen_Logic.thy ===== *)
theory Gen_Logic
  imports Codegen
begin

text \<open>
  Reasoning about generators: weakest preconditions with a condition on failures, and two
  interfaces.  A relation between generator states that is kept by the steps of the builder is
  kept by every part of the generator that consists of such steps; the relations used later are
  instances.
\<close>

section \<open>Weakest preconditions\<close>

definition wp :: "'a gen \<Rightarrow> ('a \<Rightarrow> gen_state \<Rightarrow> bool) \<Rightarrow> (fail \<Rightarrow> bool) \<Rightarrow> gen_state \<Rightarrow> bool" where
  "wp m Q E s = (case m s of Inl f \<Rightarrow> E f | Inr (x, s') \<Rightarrow> Q x s')"

lemma wp_gbind [simp]: "wp (gbind m k) Q E s = wp m (\<lambda>x. wp (k x) Q E) E s"
  by (simp add: wp_def gbind_def rbind_def split: sum.split prod.split)

lemma wp_greturn [simp]: "wp (greturn x) Q E s = Q x s"
  by (simp add: wp_def greturn_def)

lemma wp_gpanic [simp]: "wp (gpanic msg) Q E s = E (Panicked msg)"
  by (simp add: wp_def gpanic_def)

lemma wp_gget [simp]: "wp (gget f) Q E s = Q (f s) s"
  by (simp add: wp_def gget_def)

lemma wp_gmodify [simp]: "wp (gmodify f) Q E s = Q () (f s)"
  by (simp add: wp_def gmodify_def)

lemma wp_expect [simp]:
  "wp (expect msg x) Q E s = (case x of Some y \<Rightarrow> Q y s | None \<Rightarrow> E (Panicked msg))"
  by (simp add: expect_def split: option.split)

lemma wp_mono: "wp m Q E s \<Longrightarrow> (\<And>x s'. Q x s' \<Longrightarrow> Q' x s') \<Longrightarrow> (\<And>f. E f \<Longrightarrow> E' f) \<Longrightarrow> wp m Q' E' s"
  by (auto simp: wp_def split: sum.splits)

lemma wp_Inr: "m s = Inr (x, s') \<Longrightarrow> wp m Q E s \<Longrightarrow> Q x s'"
  by (simp add: wp_def)

lemma gbind_assoc: "gbind (gbind m f) g = gbind m (\<lambda>x. gbind (f x) g)"
  by (rule ext) (simp add: gbind_def rbind_def split: sum.split)

lemma gbind_greturn [simp]: "gbind (greturn x) k = k x"
  by (rule ext) (simp add: gbind_def greturn_def)

lemma wp_with_stack:
  "wp (with_stack stk m) Q E s =
     wp m (\<lambda>x s'. Q (x, gs_stack s') (s'\<lparr>gs_stack := gs_stack s\<rparr>)) E (s\<lparr>gs_stack := stk\<rparr>)"
  by (simp add: wp_def with_stack_def rbind_def split: sum.split prod.split)

section \<open>Relations kept by a generator\<close>

definition keeps :: "(gen_state \<Rightarrow> gen_state \<Rightarrow> bool) \<Rightarrow> (gen_state \<Rightarrow> fail \<Rightarrow> bool) \<Rightarrow> 'a gen \<Rightarrow> bool" where
  "keeps R E m \<longleftrightarrow> (\<forall>s. wp m (\<lambda>x. R s) (E s) s)"

lemma keepsD: "keeps R E m \<Longrightarrow> m s = Inr (x, s') \<Longrightarrow> R s s'"
  by (auto simp: keeps_def wp_def dest: spec[of _ s])

lemma keepsE: "keeps R E m \<Longrightarrow> m s = Inl f \<Longrightarrow> E s f"
  by (auto simp: keeps_def wp_def dest: spec[of _ s])

text \<open>The state after an instruction.\<close>

definition emitted :: "inst \<Rightarrow> gen_state \<Rightarrow> gen_state" where
  "emitted i s =
     s\<lparr>gs_blocks := (gs_blocks s)[gs_at s := (gs_blocks s ! gs_at s)\<lparr>
         bk_insts := bk_insts (gs_blocks s ! gs_at s) @ [(gs_next s, i)]\<rparr>],
       gs_next := Suc (gs_next s)\<rparr>"

lemma wp_emit [simp]: "wp (emit i t) Q E s = Q (ResVal (gs_next s) t) (emitted i s)"
  by (simp add: wp_def emit_def emitted_def Let_def)

lemma wp_emit_void [simp]: "wp (emit_void i) Q E s = Q () (emitted i s)"
  by (simp add: emit_void_def)

definition terminator :: "inst \<Rightarrow> bool" where
  "terminator i = (case i of Br b \<Rightarrow> True | CondBr c t f \<Rightarrow> True | Ret v \<Rightarrow> True | _ \<Rightarrow> False)"

lemma terminator_simps [simp]:
  "\<not> terminator (Arith op a b)" "\<not> terminator (Cmp p a b)" "\<not> terminator (ZExt a)"
  "\<not> terminator (SIToFP a)" "\<not> terminator (FPToSI a)" "\<not> terminator (PtrToInt a)"
  "\<not> terminator (IntToPtr a)" "\<not> terminator (Gep ty a b)" "\<not> terminator (Load ty a al)"
  "\<not> terminator (Store a b al)" "\<not> terminator (Call f args tail)" "\<not> terminator Alloca"
  "\<not> terminator (ArrayAlloca a)" "\<not> terminator (Phi ins)"
  "terminator (Br t)" "terminator (CondBr a t e)" "terminator (Ret a)"
  by (simp_all add: terminator_def)

text \<open>The panics of the generator that are about the ownership of variables.\<close>

definition ownership_panics :: "string list" where
  "ownership_panics = [''E003'', ''E004'', ''E005'', ''E009'', ''E016'']"

definition benign :: "fail \<Rightarrow> bool" where
  "benign f = (case f of Panicked msg \<Rightarrow> msg \<notin> set ownership_panics | _ \<Rightarrow> False)"

lemma field_message_benign [simp]: "field_message a b \<notin> set ownership_panics"
  by (simp add: field_message_def ownership_panics_def)

named_theorems kept "generators that keep a relation"

lemma same_rets: "s\<lparr>gs_cg := c, gs_rets := gs_rets s\<rparr> = s\<lparr>gs_cg := c\<rparr>"
  by (cases s) simp

locale straight_line =
  fixes R :: "gen_state \<Rightarrow> gen_state \<Rightarrow> bool" and E :: "gen_state \<Rightarrow> fail \<Rightarrow> bool"
  assumes refl [simp]: "R s s"
    and trans: "R a b \<Longrightarrow> R b c \<Longrightarrow> R a c"
    and emit_step: "\<not> terminator i \<Longrightarrow> R s (emitted i s)"
    and add_step: "R s (s\<lparr>gs_cg := add_function ln name n (gs_cg s), gs_rets := rets\<rparr>)"
    and globals_step: "R s (s\<lparr>gs_globals := g\<rparr>)"
    and panic: "benign f \<Longrightarrow> E s f"
    and earlier: "R s s' \<Longrightarrow> E s' f \<Longrightarrow> E s f"
begin

lemma keep_bind [kept]: "keeps R E m \<Longrightarrow> (\<And>x. keeps R E (k x)) \<Longrightarrow> keeps R E (gbind m k)"
  unfolding keeps_def wp_gbind by (blast intro: wp_mono trans earlier)

lemma keep_return [kept]: "keeps R E (greturn x)"
  by (simp add: keeps_def)

lemma keep_get [kept]: "keeps R E (gget f)"
  by (simp add: keeps_def)

lemma keep_emit [kept]: "\<not> terminator i \<Longrightarrow> keeps R E (emit i t)"
  by (simp add: keeps_def emit_step)

lemma keep_emit_void [kept]: "\<not> terminator i \<Longrightarrow> keeps R E (emit_void i)"
  by (simp add: keeps_def emit_step)

lemma keep_panic [kept]: "msg \<notin> set ownership_panics \<Longrightarrow> keeps R E (gpanic msg)"
  by (simp add: keeps_def panic benign_def)

lemma keep_expect [kept]: "msg \<notin> set ownership_panics \<Longrightarrow> keeps R E (expect msg x)"
  by (simp add: keeps_def panic benign_def split: option.split)

lemma keep_all [kept]: "\<forall>m \<in> set ms. keeps R E m \<Longrightarrow> keeps R E (gen_all ms)"
  by (induction ms) (auto intro!: kept)

lemma keep_each [kept]: "(\<And>x. x \<in> set xs \<Longrightarrow> keeps R E (f x)) \<Longrightarrow> keeps R E (gen_each f xs)"
  unfolding gen_each_def by (intro kept) auto

lemma keep_if [kept]: "(c \<Longrightarrow> keeps R E m) \<Longrightarrow> (\<not> c \<Longrightarrow> keeps R E n) \<Longrightarrow> keeps R E (if c then m else n)"
  by simp

lemma keep_prod [kept]: "(\<And>a b. p = (a, b) \<Longrightarrow> keeps R E (f a b)) \<Longrightarrow> keeps R E (case p of (a, b) \<Rightarrow> f a b)"
  by (cases p) simp

lemma keep_option [kept]:
  "keeps R E m \<Longrightarrow> (\<And>y. x = Some y \<Longrightarrow> keeps R E (k y)) \<Longrightarrow> keeps R E (case x of None \<Rightarrow> m | Some y \<Rightarrow> k y)"
  by (cases x) simp_all

lemma keep_add [kept]: "keeps R E (get_or_add_external_fn env name ret n)"
  unfolding get_or_add_external_fn_def by (simp add: keeps_def add_step)

lemma keep_module_add [kept]: "keeps R E (module_add_function env name n)"
  using add_step[where ln = "ge_names env" and name = name and n = n]
  by (simp add: keeps_def module_add_function_def on_codegen_def) (metis same_rets)

lemma keep_string [kept]: "keeps R E (gen_string_constant env str)"
  unfolding gen_string_constant_def Let_def
  by (simp add: keeps_def globals_step split: option.split)

lemma keep_call [kept]: "keeps R E (build_call f args tail)"
  unfolding build_call_def by (intro kept) simp

lemma keep_rt [kept]: "keeps R E (rt_call env name ret args)" "keeps R E (rt_void env name args)"
  unfolding rt_call_def rt_void_def by (intro kept)+

lemma keep_as_int [kept]: "keeps R E (as_int v)"
  unfolding as_int_def by (cases "ty_of v") (auto intro!: kept)

lemma keep_conversions [kept]: "keeps R E (into_pointer_value v)" "keeps R E (into_float_value v)"
  unfolding into_pointer_value_def into_float_value_def
  by (auto simp: ownership_panics_def intro!: kept)

lemma keep_drop [kept]: "keeps R E (emit_auto_drop env v shape is_ptr)"
  unfolding emit_auto_drop_def by (intro kept) (simp add: ownership_panics_def)

lemma keep_drop_item [kept]: "keeps R E (drop_item env item)"
  unfolding drop_item_def by (intro kept)

lemma keep_maybe_drop [kept]: "keeps R E (maybe_drop_val env e v)"
  unfolding maybe_drop_val_def by (intro kept)

lemma keep_drop_operands [kept]: "keeps R E (drop_operands env es vs)"
  unfolding drop_operands_def by (intro kept) (auto intro!: kept split: prod.split)

lemma keep_column [kept]: "keeps R E (column p k)"
  unfolding column_def by (intro kept) simp_all

lemma keep_elements [kept]: "keeps R E (load_element t p i)" "keeps R E (store_element t p i v)"
  unfolding load_element_def store_element_def by (intro kept; simp)+

lemma keep_counters [kept]:
  "keeps R E alloca_zero" "keeps R E (load_int p)" "keeps R E (loop_test p n)" "keeps R E (step_counter p v)"
  unfolding alloca_zero_def load_int_def loop_test_def step_counter_def by (intro kept; simp)+

lemma keep_shape [kept]: "keeps R E (get_shape name)"
  unfolding get_shape_def by (intro kept) (simp add: ownership_panics_def)

lemma keep_alloc [kept]: "keeps R E (alloc_soa env n flds)"
  unfolding alloc_soa_def Let_def by (intro kept) (auto intro!: kept)

lemma keep_call_named [kept]: "keeps R E (call_named env name args)"
  unfolding call_named_def by (intro kept) (simp add: ownership_panics_def)

lemma keep_row [kept]: "keeps R E (load_row flds p i)"
  unfolding load_row_def by (intro kept) (auto intro!: kept)

lemma keep_named [kept]:
  "(\<And>name. func = Identifier name \<Longrightarrow> keeps R E (f name)) \<Longrightarrow> keeps R E d \<Longrightarrow>
   keeps R E (case func of Identifier name \<Rightarrow> f name | _ \<Rightarrow> d)"
  by (cases func) simp_all

lemma keep_row_matches [kept]: "keeps R E (row_matches env func vs)"
  unfolding row_matches_def by (intro kept) simp

lemma keep_compare [kept]: "keeps R E (compare_to_int p l r)"
  unfolding compare_to_int_def by (intro kept) simp_all

lemma keep_E008 [kept]: "keeps R E (gpanic ''E008'')"
  by (intro kept) (simp add: ownership_panics_def)

lemma keep_float_op [kept]: "keeps R E (float_op op l r)"
  by (cases op) (simp_all add: float_op_def keep_E008 keep_compare keep_emit)

lemma keep_int_op [kept]: "keeps R E (int_op op l r)"
  by (cases op) (simp_all add: int_op_def keep_E008 keep_compare keep_emit)

lemma keep_operators [kept]: "keeps R E (promote v)" "keeps R E (numeric_op op l r)"
  unfolding numeric_op_def promote_def by (intro kept; simp)+

lemma keep_join [kept]: "keeps R E (join_handles env hs vs)"
  by (induction hs arbitrary: vs) (auto intro!: kept)

lemma keep_call_function [kept]: "keeps R E (call_function env name full args vs)"
  unfolding call_function_def callee_def dup_argument_def
  by (intro kept) (auto simp: ownership_panics_def intro!: kept)

lemma keep_captures [kept]: "keeps R E (load_captures caps)" "keeps R E (store_captures caps)"
  unfolding load_captures_def store_captures_def by (auto intro!: kept)

end

text \<open>
  Relations that the steps on the stack keep as well: the arms without control flow of their own
  keep such a relation when the generators of their operands do.
\<close>

definition same_tables :: "gen_state \<Rightarrow> gen_state \<Rightarrow> bool" where
  "same_tables s s' \<longleftrightarrow>
     (\<exists>fs. gs_cg s' = (gs_cg s)\<lparr>cg_functions := cg_functions (gs_cg s) @ fs\<rparr>)"

text \<open>The symbol names to which a call may resolve, whatever functions the module has.\<close>

definition candidates :: "llvm_names \<Rightarrow> codegen \<Rightarrow> string \<Rightarrow> string list" where
  "candidates ln cg name =
     (case cg_imports cg name of
        Some module \<Rightarrow> [namespaced module name]
      | None \<Rightarrow> [namespaced (get_module_name cg) name, mangle_name ln cg name, name])"

lemma resolve_candidate: "resolve_func_name ln cg name \<in> set (candidates ln cg name)"
  by (auto simp: resolve_func_name_def candidates_def Let_def split: option.split)

lemma candidates_functions [simp]: "candidates ln (cg\<lparr>cg_functions := fs\<rparr>) name = candidates ln cg name"
  by (simp add: candidates_def get_module_name_def mangle_name_def split: option.split)

definition expands ::
  "(gen_state \<Rightarrow> gen_state \<Rightarrow> bool) \<Rightarrow> (gen_state \<Rightarrow> fail \<Rightarrow> bool) \<Rightarrow> gen_env \<Rightarrow>
   (expand_map \<Rightarrow> expr \<Rightarrow> val gen) \<Rightarrow> string list \<Rightarrow> bool" where
  "expands R E env expand names \<longleftrightarrow>
     (\<forall>name \<in> set names. \<forall>em s t params body.
        t \<in> set (candidates (ge_names env) (gs_cg s) name) \<longrightarrow>
        map_of (cg_templates (gs_cg s)) t = Some (params, body) \<longrightarrow>
        wp (expand em body) (\<lambda>x. R s) (E s) s)"

locale arms = straight_line +
  assumes tables: "R s s' \<Longrightarrow> same_tables s s'"
    and stack_step: "R s (s\<lparr>gs_stack := stk\<rparr>)"
    and depth_step: "R s (s\<lparr>gs_depth := d\<rparr>)"
    and any_panic: "E s (Panicked msg)"
begin

lemma keep_any_panic [kept]: "keeps R E (gpanic msg)" "keeps R E (expect msg x)"
  by (simp_all add: keeps_def any_panic split: option.split)

lemma keep_stack [kept]: "keeps R E (gmodify (\<lambda>s. s\<lparr>gs_stack := f s\<rparr>))"
  by (simp add: keeps_def stack_step)

lemma keep_depth [kept]: "keeps R E (gmodify (\<lambda>s. s\<lparr>gs_depth := d\<rparr>))"
  by (simp add: keeps_def depth_step)

lemma keep_with_stack [kept]: "keeps R E m \<Longrightarrow> keeps R E (with_stack stk m)"
  unfolding keeps_def wp_with_stack
proof
  fix s :: gen_state
  assume *: "\<forall>s. wp m (\<lambda>x. R s) (E s) s"
  let ?s = "s\<lparr>gs_stack := stk\<rparr>"
  have "wp m (\<lambda>x. R ?s) (E ?s) ?s" using * ..
  then show "wp m (\<lambda>x s'. R s (s'\<lparr>gs_stack := gs_stack s\<rparr>)) (E s) ?s"
    by (rule wp_mono) (blast intro: trans stack_step, blast intro: earlier stack_step)
qed

lemma keep_variables [kept]:
  "keeps R E (gen_debruijn i)" "keeps R E (move_item i)" "keeps R E (gen_expand em name)"
  by (auto simp: keeps_def wp_def gen_debruijn_def move_item_def gen_expand_def gbind_def expect_def
      greturn_def gpanic_def rbind_def Let_def stack_step any_panic split: option.split)

lemma keep_move [kept]: "keeps R E g \<Longrightarrow> keeps R E (gen_move em e g)"
proof -
  have "keeps R E (\<lambda>s. if index \<ge> length (gs_stack s) then Inl (Panicked ''E003'')
           else move_item (slot (gs_stack s) index) s)" for index
    using keep_variables(2) by (auto simp: keeps_def wp_def any_panic split: sum.split)
  then show "keeps R E g \<Longrightarrow> keeps R E (gen_move em e g)"
    by (cases e) (auto simp: gen_move_def intro!: kept)
qed

lemma keep_identifier [kept]: "keeps R E (gen_identifier env name)"
  unfolding gen_identifier_def by (intro kept)

lemma keep_let [kept]: "keeps R E gv \<Longrightarrow> keeps R E gb \<Longrightarrow> keeps R E (gen_let env e gv gb)"
  unfolding gen_let_def by (intro kept)

lemma keep_runtime_op [kept]: "\<forall>g \<in> set gs. keeps R E g \<Longrightarrow> keeps R E (runtime_op env name es gs)"
  unfolding runtime_op_def by (intro kept)

lemma keep_binary [kept]:
  "keeps R E (gen_parallel_expr env gl) \<Longrightarrow> keeps R E gl \<Longrightarrow> keeps R E gr \<Longrightarrow>
   keeps R E (gen_binary_op env op l gl gr)"
  unfolding gen_binary_op_def by (intro kept)

lemma keep_arith [kept]: "keeps R E (emit (Arith a l r) t)"
  by (intro kept) simp

lemma keep_money_tail [kept]:
  "keeps R E (case op of
       TAdd \<Rightarrow> emit (Arith IAdd lhs rhs) I64
     | TSub \<Rightarrow> emit (Arith ISub lhs rhs) I64
     | TMul \<Rightarrow> gbind (emit (Arith IMul lhs rhs) I64) (\<lambda>mul. emit (Arith ISDiv mul scale) I64)
     | TDiv \<Rightarrow> gbind (emit (Arith IMul lhs scale) I64) (\<lambda>scaled. emit (Arith ISDiv scaled rhs) I64)
     | _ \<Rightarrow> gpanic ''E008'')"
  by (cases op) (simp_all add: keep_any_panic keep_arith keep_bind)

lemma keep_time_tail [kept]:
  "keeps R E (case op of
       TAdd \<Rightarrow> emit (Arith IAdd lhs rhs) I64
     | TSub \<Rightarrow> emit (Arith ISub lhs rhs) I64
     | _ \<Rightarrow> gpanic ''E008'')"
  by (cases op) (simp_all add: keep_any_panic keep_arith)

lemma keep_money [kept]: "keeps R E gl \<Longrightarrow> keeps R E gr \<Longrightarrow> keeps R E (gen_money_op op gl gr)"
  unfolding gen_money_op_def Let_def by (intro kept)

lemma keep_time [kept]: "keeps R E gl \<Longrightarrow> keeps R E gr \<Longrightarrow> keeps R E (gen_time_op op gl gr)"
  unfolding gen_time_op_def by (intro kept)

lemma keep_soa [kept]:
  "keeps R E g \<Longrightarrow> keeps R E (gen_new env shape g)"
  "keeps R E gi \<Longrightarrow> keeps R E gx \<Longrightarrow> keeps R E (gen_get env e fld gi gx)"
  "keeps R E gi \<Longrightarrow> keeps R E gx \<Longrightarrow> keeps R E gv \<Longrightarrow> keeps R E (gen_set env e fld gi gx gv)"
  unfolding gen_new_def gen_get_def gen_set_def by (intro kept; simp)+

lemma keep_async [kept]:
  "\<forall>g \<in> set gs. keeps R E g \<Longrightarrow> keeps R E (gen_async env kind es gs)"
  unfolding gen_async_def by (intro kept) (auto intro!: kept)

lemma keep_effects [kept]:
  "keeps R E g1 \<Longrightarrow> keeps R E g2 \<Longrightarrow> keeps R E (gen_seq env e g1 g2)"
  "\<forall>g \<in> set gs. keeps R E g \<Longrightarrow> keeps R E g2 \<Longrightarrow> keeps R E (gen_seq_http env es gs g2)"
  "\<forall>g \<in> set gs. keeps R E g \<Longrightarrow> keeps R E (gen_otel_emit env es gs)"
  unfolding gen_seq_def gen_seq_http_def gen_otel_emit_def by (intro kept; assumption)+

lemma keep_texts [kept]:
  "keeps R E g \<Longrightarrow> keeps R E (gen_len env e g)"
  "keeps R E g \<Longrightarrow> keeps R E (gen_pack env e g)"
  "keeps R E g \<Longrightarrow> keeps R E (gen_unpack env e shape g)"
  "keeps R E g \<Longrightarrow> keeps R E (gen_panic env g)"
  "keeps R E g \<Longrightarrow> keeps R E (gen_money_str env g)"
  unfolding gen_len_def gen_pack_def gen_unpack_def gen_panic_def gen_money_str_def
  by (intro kept; simp)+

end

text \<open>
  The whole generator.  What is left to show of a relation is that the arms with control flow
  keep it.
\<close>

locale generator = arms +
  assumes if_arm: "keeps R E gc \<Longrightarrow> keeps R E gt \<Longrightarrow> keeps R E gf \<Longrightarrow> keeps R E (gen_if gc gt gf)"
    and parallel_arm: "keeps R E g \<Longrightarrow> keeps R E (gen_parallel_expr env g)"
    and trap_arm: "keeps R E gt \<Longrightarrow> keeps R E gf \<Longrightarrow> keeps R E (gen_trap env gt gf)"
    and map_arm: "keeps R E gi \<Longrightarrow> keeps R E (gen_map env inst fld func gi)"
    and filter_arm: "keeps R E gi \<Longrightarrow> keeps R E (gen_filter env inst func gi)"
begin

lemma keep_final_arg: "keeps R E g \<Longrightarrow> keeps R E (gen_final_arg env arg final g)"
  unfolding gen_final_arg_def by (cases final) (simp_all add: keep_string)

lemma keep_args: "\<forall>g \<in> set (map snd args). keeps R E g \<Longrightarrow> keeps R E (gen_args env name n i args)"
proof (induction args arbitrary: i)
  case (Cons a args)
  then show ?case
    unfolding gen_args.simps by (intro kept parallel_arm keep_final_arg) simp_all
qed (simp add: keep_return)

lemma keep_push: "keeps R E (push_params ps em)"
proof (induction ps arbitrary: em)
  case (Cons p ps)
  then show ?case unfolding push_params.simps by (intro kept)
qed (simp add: keep_return)

text \<open>A step that keeps the relation in the states that satisfy a condition.\<close>

definition keeps_at :: "(gen_state \<Rightarrow> bool) \<Rightarrow> 'x gen \<Rightarrow> bool" where
  "keeps_at P m \<longleftrightarrow> (\<forall>s. P s \<longrightarrow> wp m (\<lambda>x. R s) (E s) s)"

lemma keeps_at_bind:
  assumes "\<And>s s'. R s s' \<Longrightarrow> P s \<Longrightarrow> P s'" "keeps_at P m" "\<And>x. keeps_at P (k x)"
  shows "keeps_at P (gbind m k)"
  unfolding keeps_at_def wp_gbind
proof (intro allI impI)
  fix s assume "P s"
  with assms(2) have "wp m (\<lambda>x. R s) (E s) s" by (simp add: keeps_at_def)
  then show "wp m (\<lambda>x. wp (k x) (\<lambda>x. R s) (E s)) (E s) s"
  proof (rule wp_mono)
    fix x s' assume R: "R s s'"
    with assms(1) \<open>P s\<close> have "P s'" by blast
    with assms(3) have "wp (k x) (\<lambda>x. R s') (E s') s'" by (simp add: keeps_at_def)
    then show "wp (k x) (\<lambda>x. R s) (E s) s'"
      by (rule wp_mono) (use R in \<open>blast intro: trans earlier\<close>)+
  qed
qed

lemma keeps_at: "keeps R E m \<Longrightarrow> keeps_at P m"
  by (simp add: keeps_at_def keeps_def)

definition is_template :: "gen_env \<Rightarrow> string \<Rightarrow> expr \<Rightarrow> gen_state \<Rightarrow> bool" where
  "is_template env name body s \<longleftrightarrow>
     (\<exists>t params. t \<in> set (candidates (ge_names env) (gs_cg s) name) \<and>
        map_of (cg_templates (gs_cg s)) t = Some (params, body))"

lemma is_template_stable:
  assumes "R s s'" "is_template env name body s"
  shows "is_template env name body s'"
proof -
  obtain fs where "gs_cg s' = (gs_cg s)\<lparr>cg_functions := cg_functions (gs_cg s) @ fs\<rparr>"
    using tables[OF assms(1)] by (auto simp: same_tables_def)
  with assms(2) show ?thesis by (simp add: is_template_def)
qed

lemma keeps_at_prod: "(\<And>a b. keeps_at P (f a b)) \<Longrightarrow> keeps_at P (case p of (a, b) \<Rightarrow> f a b)"
  by (cases p) simp

lemma keep_template:
  assumes "expands R E env expand names" "name \<in> set names"
  shows "keeps_at (is_template env name body) (expand_template env expand params body vals args)"
proof -
  have e: "keeps_at (is_template env name body) (expand em body)" for em
    using assms by (auto simp: expands_def keeps_at_def is_template_def)
  show ?thesis
    unfolding expand_template_def
    by (intro keeps_at_bind[OF is_template_stable] keeps_at_prod keeps_at[OF keep_return]
        keeps_at[OF keep_get] keeps_at[OF keep_push] keeps_at[OF keep_stack] keeps_at[OF keep_each] e)
       (auto intro!: kept)
qed

lemma keep_apply:
  assumes "\<forall>g \<in> set gs. keeps R E g"
    and "\<And>name. func = Identifier name \<Longrightarrow> expands R E env expand [name]"
  shows "keeps R E (gen_apply env expand func args gs)"
proof (cases "\<exists>name. func = Identifier name")
  case True
  then obtain name where f: "func = Identifier name" by blast
  have args: "keeps R E (gen_args env name n i (zip args gs))" for n i
    using assms(1) by (intro keep_args) (auto dest: set_zip_rightD)
  show ?thesis
    unfolding keeps_def
  proof
    fix s :: gen_state
    let ?full = "resolve_func_name (ge_names env) (gs_cg s) name"
    let ?rest = "\<lambda>template (vals, handles). gbind (join_handles env handles vals) (\<lambda>vals.
          case template of
            Some (params, body) \<Rightarrow> expand_template env expand params body vals args
          | None \<Rightarrow> call_function env name ?full args vals)"
    show "wp (gen_apply env expand func args gs) (\<lambda>x. R s) (E s) s"
    proof (cases "map_of (cg_templates (gs_cg s)) ?full")
      case None
      have "keeps R E (gbind (gen_args env name (length args) 0 (zip args gs)) (?rest None))"
        by (intro kept args) (auto intro!: kept)
      then show ?thesis by (simp add: gen_apply_def f None keeps_def case_prod_unfold)
    next
      case (Some t)
      obtain params body where t: "t = (params, body)" by (cases t)
      have "is_template env name body s"
        using Some resolve_candidate[of "ge_names env" "gs_cg s" name] by (auto simp: is_template_def t)
      moreover have "keeps_at (is_template env name body)
          (gbind (gen_args env name (length args) 0 (zip args gs)) (?rest (Some t)))"
        unfolding t
        by (intro keeps_at_bind[OF is_template_stable] keeps_at_prod keeps_at[OF args] keeps_at[OF keep_join])
           (assumption | unfold option.case prod.case, rule keep_template[OF assms(2)[OF f]], simp)+
      ultimately show ?thesis by (simp add: gen_apply_def f Some keeps_at_def case_prod_unfold)
    qed
  qed
next
  case False
  then show ?thesis by (cases func) (simp_all add: gen_apply_def keep_any_panic)
qed

end

text \<open>The names that an expression calls, at any depth.\<close>

function called_names :: "expr \<Rightarrow> string list" where
  "called_names e =
     (case e of Apply (Identifier name) args \<Rightarrow> [name] | _ \<Rightarrow> []) @
     concat (map called_names (children e))"
  by pat_completeness auto
termination by (relation "measure size") (simp_all add: children_size)

declare called_names.simps [simp del]

lemma called_names_child: "c \<in> set (children e) \<Longrightarrow> set (called_names c) \<subseteq> set (called_names e)"
  by (subst (2) called_names.simps) auto

lemma called_names_apply: "name \<in> set (called_names (Apply (Identifier name) args))"
  by (subst called_names.simps) simp

lemma expands_mono: "expands R E env expand names \<Longrightarrow> set names' \<subseteq> set names \<Longrightarrow> expands R E env expand names'"
  by (auto simp: expands_def)

context generator
begin

lemma keep_http:
  "(\<And>m u b. e = HttpClient m u b \<Longrightarrow> keeps R E (f m u b)) \<Longrightarrow> keeps R E d \<Longrightarrow>
   keeps R E (case e of HttpClient m u b \<Rightarrow> f m u b | _ \<Rightarrow> d)"
  by (cases e) simp_all

lemma gen_expr_keeps: "expands R E env expand (called_names e) \<Longrightarrow> keeps R E (gen_expr env expand em e)"
proof (induction e rule: measure_induct_rule[of size])
  case (less e)
  have sub: "keeps R E (gen_expr env expand em c)" if "c \<in> set (children e)" for c
    using less.IH[OF children_size[OF that]] expands_mono[OF less.prems called_names_child[OF that]] .
  have sub2: "keeps R E (gen_expr env expand em c')" if "c \<in> set (children e)" "c' \<in> set (children c)" for c c'
  proof -
    have "size c' < size e" using that children_size by (meson less_trans)
    then show ?thesis
      using less.IH expands_mono[OF less.prems] called_names_child[OF that(1)] called_names_child[OF that(2)]
      by blast
  qed
  have call: "expands R E env expand [name]" if "e = Apply (Identifier name) args" for name args
    using expands_mono[OF less.prems, of "[name]"] called_names_apply[of name args] that by simp
  show ?case
  proof (cases e)
    case (Seq l r)
    then show ?thesis
      using sub sub2[of l] by (simp add: children_def) (intro keep_http keep_effects; simp add: children_def)
  next
    case (Apply f args)
    then show ?thesis using sub call by (auto simp: children_def intro!: keep_apply)
  qed (use sub in \<open>simp_all add: children_def runtime_arms keep_binary keep_move keep_soa keep_let keep_texts
    keep_runtime_op keep_effects keep_money keep_time keep_identifier keep_variables keep_string keep_return
    parallel_arm if_arm trap_arm map_arm filter_arm\<close>)
qed

end

text \<open>
  Relations that every step of the builder keeps: control flow is then no different from the rest.
\<close>

locale control_steps = straight_line +
  assumes any_emit_step: "R s (emitted i s)"
    and append_step: "R s (s\<lparr>gs_blocks := bs\<rparr>)"
    and position_step: "R s (s\<lparr>gs_at := b\<rparr>)"
begin

lemma keep_any_emit [kept]: "keeps R E (emit i t)" "keeps R E (emit_void i)"
  by (simp_all add: keeps_def any_emit_step)

lemma keep_append [kept]: "keeps R E (append_basic_block f l)"
  by (simp add: keeps_def wp_def append_basic_block_def append_step)

lemma keep_position [kept]:
  "keeps R E (position_at_end b)" "keeps R E get_insert_block" "keeps R E parent_function"
  by (simp_all add: keeps_def position_at_end_def position_step get_insert_block_def parent_function_def)

lemma keep_kernel [kept]: "keeps R E (try_opencl env func a b n x y)"
  unfolding try_opencl_def by (intro kept)

lemma keep_loops [kept]:
  "keeps R E (cpu_map env func f n p q x y)"
  "keeps R E (copy_columns f flds k n p q)"
  "keeps R E (filter_count env func f flds n p)"
  "keeps R E (filter_copy env func f flds n p q i)"
  unfolding cpu_map_def copy_columns_def filter_count_def filter_copy_def by (intro kept)+

end

locale builder_steps = arms + control_steps

sublocale builder_steps \<subseteq> generator
proof
  fix gc gt gf :: "val gen" and g gi :: "val gen" and env inst fld func
  show "keeps R E (gen_if gc gt gf)" if "keeps R E gc" "keeps R E gt" "keeps R E gf"
    using that unfolding gen_if_def by (intro kept)
  show par: "keeps R E (gen_parallel_expr env g)" if "keeps R E g" for g :: "val gen" and env
    using that unfolding gen_parallel_expr_def by (intro kept)
  have sub: "keeps R E (gen_trap_sub_fn env g caps name)" if "keeps R E g" for g :: "val gen" and env caps name
    using that unfolding gen_trap_sub_fn_def by (intro kept)
  show "keeps R E (gen_trap env gt gf)" if "keeps R E gt" "keeps R E gf"
    using that unfolding gen_trap_def by (intro kept sub)
  show "keeps R E (gen_map env inst fld func gi)" if "keeps R E gi"
    using that unfolding gen_map_def Let_def by (intro kept; simp)
  show "keeps R E (gen_filter env inst func gi)" if "keeps R E gi"
    using that unfolding gen_filter_def by (intro kept; simp)
qed

section \<open>The tables of the generator\<close>

text \<open>
  The first use: a run of the generator changes the tables of the module only by adding
  functions.
\<close>

lemma add_function_tables: "\<exists>fs. add_function ln name n cg = cg\<lparr>cg_functions := cg_functions cg @ fs\<rparr>"
  by (auto simp: add_function_def Let_def)

lemma same_tables_refl [simp]: "same_tables s s"
  by (auto simp: same_tables_def intro: exI[of _ "[]"])

lemma same_tables_trans: "same_tables a b \<Longrightarrow> same_tables b c \<Longrightarrow> same_tables a c"
  by (auto simp: same_tables_def)

lemma same_tables_steps [simp]:
  "same_tables s (emitted i s)"
  "same_tables s (s\<lparr>gs_cg := add_function ln name n (gs_cg s), gs_rets := rets\<rparr>)"
  "same_tables s (s\<lparr>gs_globals := g\<rparr>)"
  "same_tables s (s\<lparr>gs_stack := stk\<rparr>)"
  "same_tables s (s\<lparr>gs_depth := d\<rparr>)"
  "same_tables s (s\<lparr>gs_blocks := bs\<rparr>)"
  "same_tables s (s\<lparr>gs_at := b\<rparr>)"
  by (auto simp: same_tables_def emitted_def add_function_tables intro: exI[of _ "[]"])

interpretation frame: builder_steps same_tables "\<lambda>s f. True"
  by unfold_locales (auto intro: same_tables_trans)

end
