(* ===== verification/Gen_Blocks.thy ===== *)
theory Gen_Blocks
  imports Gen_Logic
begin

text \<open>
  The control flow of the generated code.  Every block that the generator leaves behind ends with
  its only terminator, which branches to blocks of the same function; the block at which the
  builder stands is open.
\<close>

section \<open>Open and closed blocks\<close>

primrec targets :: "inst \<Rightarrow> nat list" where
  "targets (Br b) = [b]"
| "targets (CondBr c t f) = [t, f]"
| "targets (Ret v) = []"
| "targets (Arith op a b) = []"
| "targets (Cmp p a b) = []"
| "targets (ZExt a) = []"
| "targets (SIToFP a) = []"
| "targets (FPToSI a) = []"
| "targets (PtrToInt a) = []"
| "targets (IntToPtr a) = []"
| "targets (Gep t a b) = []"
| "targets (Load t a al) = []"
| "targets (Store a b al) = []"
| "targets (Call f args tail) = []"
| "targets Alloca = []"
| "targets (ArrayAlloca a) = []"
| "targets (Phi ins) = []"

definition open_block :: "block \<Rightarrow> bool" where
  "open_block b = list_all (\<lambda>(n, i). \<not> terminator i) (bk_insts b)"

definition closed_block :: "block list \<Rightarrow> block \<Rightarrow> bool" where
  "closed_block bs b =
     (bk_insts b \<noteq> [] \<and> list_all (\<lambda>(n, i). \<not> terminator i) (butlast (bk_insts b)) \<and>
      terminator (snd (last (bk_insts b))) \<and>
      list_all (\<lambda>t. t < length bs \<and> bk_fun (bs ! t) = bk_fun b) (targets (snd (last (bk_insts b)))))"

definition open_at :: "gen_state \<Rightarrow> bool" where
  "open_at s \<longleftrightarrow> gs_at s < length (gs_blocks s) \<and> open_block (gs_blocks s ! gs_at s)"

text \<open>What a generator that starts in an open block does to the blocks.\<close>

definition flows :: "gen_state \<Rightarrow> gen_state \<Rightarrow> bool" where
  "flows s s' \<longleftrightarrow>
     open_at s' \<and> length (gs_blocks s) \<le> length (gs_blocks s') \<and>
     (\<forall>b < length (gs_blocks s). b \<noteq> gs_at s \<longrightarrow> gs_blocks s' ! b = gs_blocks s ! b) \<and>
     bk_fun (gs_blocks s' ! gs_at s) = bk_fun (gs_blocks s ! gs_at s) \<and>
     bk_fun (gs_blocks s' ! gs_at s') = bk_fun (gs_blocks s ! gs_at s) \<and>
     (gs_at s' = gs_at s \<or> length (gs_blocks s) \<le> gs_at s') \<and>
     (\<forall>b < length (gs_blocks s'). b = gs_at s \<or> length (gs_blocks s) \<le> b \<longrightarrow> b \<noteq> gs_at s' \<longrightarrow>
        closed_block (gs_blocks s') (gs_blocks s' ! b))"

definition block_step :: "gen_state \<Rightarrow> gen_state \<Rightarrow> bool" where
  "block_step s s' \<longleftrightarrow> same_tables s s' \<and> (open_at s \<longrightarrow> flows s s')"

lemma closed_block_mono:
  assumes "closed_block bs b" "length bs \<le> length bs'"
    and "\<And>i. i < length bs \<Longrightarrow> bk_fun (bs' ! i) = bk_fun (bs ! i)"
  shows "closed_block bs' b"
  using assms by (auto simp: closed_block_def list_all_iff)

lemma flows_funs:
  assumes "flows s s'" "i < length (gs_blocks s)"
  shows "bk_fun (gs_blocks s' ! i) = bk_fun (gs_blocks s ! i)"
  using assms by (cases "i = gs_at s") (auto simp: flows_def)

lemma flows_trans:
  assumes "flows a b" "flows b c" "open_at a"
  shows "flows a c"
proof -
  have closed: "closed_block (gs_blocks c) (gs_blocks c ! i)"
    if "i < length (gs_blocks c)" "i = gs_at a \<or> length (gs_blocks a) \<le> i" "i \<noteq> gs_at c" for i
  proof (cases "i < length (gs_blocks b) \<and> i \<noteq> gs_at b")
    case True
    then have "closed_block (gs_blocks b) (gs_blocks b ! i)" "gs_blocks c ! i = gs_blocks b ! i"
      using assms that by (auto simp: flows_def)
    then show ?thesis
      using closed_block_mono[of "gs_blocks b" _ "gs_blocks c"] flows_funs[OF assms(2)] assms(2)
      by (auto simp: flows_def)
  next
    case False
    then show ?thesis using assms(2) that by (auto simp: flows_def)
  qed
  have "gs_blocks c ! i = gs_blocks a ! i" if "i < length (gs_blocks a)" "i \<noteq> gs_at a" for i
    using assms that unfolding flows_def by (metis order_less_le_trans not_le)
  with closed assms flows_funs[OF assms(2), of "gs_at a"] show ?thesis
    unfolding flows_def open_at_def by auto
qed

lemma flows_refl: "open_at s \<Longrightarrow> flows s s"
  by (auto simp: flows_def)
section \<open>Straight-line code\<close>

definition add_insts :: "(nat \<times> inst) list \<Rightarrow> block \<Rightarrow> block" where
  "add_insts is b = b\<lparr>bk_insts := bk_insts b @ is\<rparr>"

definition linear :: "gen_state \<Rightarrow> gen_state \<Rightarrow> bool" where
  "linear s s' \<longleftrightarrow> gs_at s' = gs_at s \<and>
     (\<exists>is. list_all (\<lambda>(n, i). \<not> terminator i) is \<and>
        gs_blocks s' = (gs_blocks s)[gs_at s := add_insts is (gs_blocks s ! gs_at s)])"

lemma add_insts_simps [simp]:
  "add_insts [] b = b" "add_insts ys (add_insts xs b) = add_insts (xs @ ys) b"
  "bk_fun (add_insts is b) = bk_fun b" "bk_insts (add_insts is b) = bk_insts b @ is"
  by (simp_all add: add_insts_def)

lemma emitted_blocks:
  "gs_blocks (emitted i s) = (gs_blocks s)[gs_at s := add_insts [(gs_next s, i)] (gs_blocks s ! gs_at s)]"
  "gs_at (emitted i s) = gs_at s"
  by (simp_all add: emitted_def add_insts_def)

lemma linear_trans:
  assumes "linear a b" "linear b c"
  shows "linear a c"
proof -
  obtain xs ys where x: "list_all (\<lambda>(n, i). \<not> terminator i) xs" "list_all (\<lambda>(n, i). \<not> terminator i) ys"
    and at: "gs_at b = gs_at a" "gs_at c = gs_at a"
    and b: "gs_blocks b = (gs_blocks a)[gs_at a := add_insts xs (gs_blocks a ! gs_at a)]"
    and c: "gs_blocks c = (gs_blocks b)[gs_at a := add_insts ys (gs_blocks b ! gs_at a)]"
    using assms by (auto simp: linear_def)
  have "gs_blocks c = (gs_blocks a)[gs_at a := add_insts (xs @ ys) (gs_blocks a ! gs_at a)]"
    by (cases "gs_at a < length (gs_blocks a)") (simp_all add: c b list_update_beyond not_less)
  then show ?thesis using x at by (auto simp: linear_def intro!: exI[of _ "xs @ ys"])
qed

interpretation linear: straight_line linear "\<lambda>s f. True"
proof
  show "linear s s" for s by (auto simp: linear_def intro!: exI[of _ "[]"])
  show "linear s (emitted i s)" if "\<not> terminator i" for i s
    using that by (auto simp: linear_def emitted_blocks intro!: exI[of _ "[(gs_next s, i)]"])
qed (erule (1) linear_trans | simp add: linear_def exI[of _ "[]"])+

lemma linear_panics [kept]:
  "keeps linear (\<lambda>s f. True) (gpanic msg)" "keeps linear (\<lambda>s f. True) (expect msg x)"
  by (simp_all add: keeps_def split: option.split)

lemma linear_flows:
  assumes "linear s s'" "open_at s"
  shows "flows s s'"
  using assms by (auto simp: linear_def flows_def open_at_def open_block_def nth_list_update)

section \<open>Runs with pending blocks\<close>

text \<open>
  The state of a run that began in \<open>s0\<close>, in a block of the function \<open>f\<close>: the builder stands at \<open>a\<close>;
  of the blocks of the run exactly \<open>ds\<close> are still open, and \<open>ks\<close> are known to be blocks of \<open>f\<close>.
\<close>

definition pending ::
  "gen_state \<Rightarrow> string \<Rightarrow> nat \<Rightarrow> nat list \<Rightarrow> nat list \<Rightarrow> gen_state \<Rightarrow> bool" where
  "pending s0 f a ds ks s \<longleftrightarrow>
     gs_at s = a \<and> gs_at s0 < length (gs_blocks s0) \<and> bk_fun (gs_blocks s0 ! gs_at s0) = f \<and>
     length (gs_blocks s0) \<le> length (gs_blocks s) \<and>
     (\<forall>b < length (gs_blocks s0). b \<noteq> gs_at s0 \<longrightarrow> gs_blocks s ! b = gs_blocks s0 ! b) \<and>
     (\<forall>b < length (gs_blocks s). b = gs_at s0 \<or> length (gs_blocks s0) \<le> b \<longrightarrow>
        (if b \<in> set ds then open_block (gs_blocks s ! b) else closed_block (gs_blocks s) (gs_blocks s ! b))) \<and>
     (\<forall>b \<in> set ds. b < length (gs_blocks s) \<and> (b = gs_at s0 \<or> length (gs_blocks s0) \<le> b)) \<and>
     (\<forall>b \<in> set ks. b < length (gs_blocks s) \<and> bk_fun (gs_blocks s ! b) = f) \<and>
     distinct ds \<and> gs_at s0 \<in> set ks"

lemma pending_start:
  "open_at s \<Longrightarrow> pending s (bk_fun (gs_blocks s ! gs_at s)) (gs_at s) [gs_at s] [gs_at s] s"
  by (auto simp: pending_def open_at_def)

lemma pending_flows: "pending s0 f a [a] ks s \<Longrightarrow> a \<in> set ks \<Longrightarrow> flows s0 s"
  by (auto simp: pending_def flows_def open_at_def)

lemma pending_open: "pending s0 f a (a # ds) ks s \<Longrightarrow> open_at s"
  by (auto simp: pending_def open_at_def)

lemma pending_append:
  assumes "pending s0 f a ds ks s"
  shows "pending s0 f a (ds @ [length (gs_blocks s)]) (if g = f then length (gs_blocks s) # ks else ks)
     (s\<lparr>gs_blocks := gs_blocks s @ [\<lparr>bk_fun = g, bk_label = l, bk_insts = []\<rparr>]\<rparr>)"
proof -
  have "closed_block (gs_blocks s @ [x]) b" if "closed_block (gs_blocks s) b" for x b
    using that by (rule closed_block_mono) (simp_all add: nth_append)
  then show ?thesis
    using assms unfolding pending_def
    by (auto simp: nth_append open_block_def less_Suc_eq)
qed

lemma pending_run:
  assumes p: "pending s0 f a (a # ds) ks s" and run: "flows s s'"
  shows "pending s0 f (gs_at s') (gs_at s' # ds) (if a \<in> set ks then gs_at s' # ks else ks) s'"
proof -
  note funs = flows_funs[OF run]
  have at: "gs_at s = a" "a < length (gs_blocks s)" "a \<notin> set ds"
    and d: "\<forall>b \<in> set ds. b < length (gs_blocks s)" using p by (auto simp: pending_def)
  have closed: "closed_block (gs_blocks s') b" if "closed_block (gs_blocks s) b" for b
    using that run funs by (intro closed_block_mono[of "gs_blocks s" _ "gs_blocks s'"]) (auto simp: flows_def)
  have new: "gs_at s' = a \<or> length (gs_blocks s) \<le> gs_at s'" "gs_at s' < length (gs_blocks s')"
    "length (gs_blocks s) \<le> length (gs_blocks s')" "open_block (gs_blocks s' ! gs_at s')"
    using run at by (auto simp: flows_def open_at_def)
  have same: "gs_blocks s' ! b = gs_blocks s ! b" if "b < length (gs_blocks s)" "b \<noteq> a" for b
    using run at that by (auto simp: flows_def)
  have fresh: "closed_block (gs_blocks s') (gs_blocks s' ! b)"
    if "b < length (gs_blocks s')" "b = a \<or> length (gs_blocks s) \<le> b" "b \<noteq> gs_at s'" for b
    using run at that by (auto simp: flows_def)
  show ?thesis
    unfolding pending_def
  proof (intro conjI allI impI)
    fix b assume b: "b < length (gs_blocks s')" "b = gs_at s0 \<or> length (gs_blocks s0) \<le> b"
    consider "b = gs_at s'" | "b \<noteq> gs_at s'" "b = a \<or> length (gs_blocks s) \<le> b"
      | "b \<noteq> gs_at s'" "b \<noteq> a" "b < length (gs_blocks s)" by fastforce
    then show "if b \<in> set (gs_at s' # ds) then open_block (gs_blocks s' ! b)
        else closed_block (gs_blocks s') (gs_blocks s' ! b)"
    proof cases
      case 2
      then show ?thesis using fresh b at d by auto
    next
      case 3
      then show ?thesis using p b same closed by (auto simp: pending_def)
    qed (use new in simp)
  next
    show "gs_blocks s' ! b = gs_blocks s0 ! b" if "b < length (gs_blocks s0)" "b \<noteq> gs_at s0" for b
      using p same[of b] that at by (auto simp: pending_def)
    show "\<forall>b\<in>set (gs_at s' # ds). b < length (gs_blocks s') \<and> (b = gs_at s0 \<or> length (gs_blocks s0) \<le> b)"
      using p new d at by (auto simp: pending_def)
    show "\<forall>b\<in>set (if a \<in> set ks then gs_at s' # ks else ks). b < length (gs_blocks s') \<and> bk_fun (gs_blocks s' ! b) = f"
      using p new funs run by (auto simp: pending_def flows_def open_at_def)
    show "distinct (gs_at s' # ds)" using p new at d by (auto simp: pending_def)
  qed (use p new in \<open>auto simp: pending_def\<close>)
qed


text \<open>Closing the block at which the builder stands.\<close>

lemma pending_close:
  assumes p: "pending s0 f a (a # ds) ks s" and i: "terminator i"
    and t: "\<forall>t \<in> set (targets i). t < length (gs_blocks s) \<and>
      bk_fun (gs_blocks s ! t) = bk_fun (gs_blocks s ! a)"
  shows "pending s0 f a ds ks (emitted i s)"
proof -
  have at: "gs_at s = a" "a < length (gs_blocks s)" "open_block (gs_blocks s ! a)"
    using p by (auto simp: pending_def)
  let ?bs = "(gs_blocks s)[a := add_insts [(gs_next s, i)] (gs_blocks s ! a)]"
  have bs: "gs_blocks (emitted i s) = ?bs" "gs_at (emitted i s) = a" by (simp_all add: emitted_blocks at)
  have own: "bk_fun (?bs ! b) = bk_fun (gs_blocks s ! b)" for b
    using at by (cases "b = a") simp_all
  have closed: "closed_block ?bs b" if "closed_block (gs_blocks s) b" for b
    using that own by (intro closed_block_mono[of "gs_blocks s" _ ?bs]) auto
  have "closed_block ?bs (?bs ! a)"
    using t i own at(2,3) unfolding closed_block_def open_block_def by (simp add: list_all_iff)
  then have "if b \<in> set ds then open_block (?bs ! b) else closed_block ?bs (?bs ! b)"
    if "b < length (gs_blocks s)" "b = gs_at s0 \<or> length (gs_blocks s0) \<le> b" for b
    using p that closed by (cases "b = a") (auto simp: pending_def)
  moreover have "?bs ! b = gs_blocks s0 ! b" if "b < length (gs_blocks s0)" "b \<noteq> gs_at s0" for b
    using p that by (auto simp: pending_def)
  ultimately show ?thesis
    using p own unfolding pending_def bs by simp
qed

lemma pending_weaken:
  "pending s0 f a ds ks s \<Longrightarrow> set ks' \<subseteq> set ks \<Longrightarrow> gs_at s0 \<in> set ks' \<Longrightarrow> pending s0 f a ds ks' s"
  unfolding pending_def by blast

lemma pending_linear:
  assumes "pending s0 f a (a # ds) ks s" "linear s s'"
  shows "pending s0 f a (a # ds) ks s'"
proof -
  from pending_open[OF assms(1)] assms(2) linear_flows have fl: "flows s s'" by blast
  have at: "gs_at s' = a" "gs_at s0 \<in> set ks" using assms by (auto simp: linear_def pending_def)
  show ?thesis
    by (rule pending_weaken[OF pending_run[OF assms(1) fl, unfolded at(1)] _ at(2)]) auto
qed

lemma pending_position: "pending s0 f a ds ks s \<Longrightarrow> pending s0 f b ds ks (s\<lparr>gs_at := b\<rparr>)"
  by (auto simp: pending_def)

lemma pending_swap: "pending s0 f a (b # c # ds) ks s \<Longrightarrow> pending s0 f a (c # b # ds) ks s"
  by (auto simp: pending_def)

lemma pending_same: "gs_blocks s' = gs_blocks s \<Longrightarrow> gs_at s' = gs_at s \<Longrightarrow> pending s0 f a ds ks s \<Longrightarrow> pending s0 f a ds ks s'"
  by (simp add: pending_def)

section \<open>Rules for the steps\<close>

text \<open>One rule per step of the builder, for a chain of steps in the order of the code.\<close>

abbreviation wlp :: "'x gen \<Rightarrow> ('x \<Rightarrow> gen_state \<Rightarrow> bool) \<Rightarrow> gen_state \<Rightarrow> bool" where
  "wlp m Q s \<equiv> wp m Q (\<lambda>f. True) s"

lemma step_linear:
  assumes "pending s0 f a (a # ds) ks s" "keeps linear (\<lambda>s f. True) m"
    and "\<And>x s'. pending s0 f a (a # ds) ks s' \<Longrightarrow> wlp (k x) Q s'"
  shows "wlp (gbind m k) Q s"
proof -
  have "wlp m (\<lambda>x. linear s) s" using assms(2) by (simp add: keeps_def)
  then show ?thesis
    unfolding wp_gbind by (rule wp_mono) (simp_all add: assms(3) pending_linear[OF assms(1)])
qed

lemma step_linear2:
  assumes "pending s0 f a (a # ds) ks s" "keeps linear (\<lambda>s f. True) m"
    and "\<And>x y s'. pending s0 f a (a # ds) ks s' \<Longrightarrow> wlp (k x y) Q s'"
  shows "wlp (gbind m (\<lambda>(x, y). k x y)) Q s"
  using assms(1,2) by (rule step_linear) (simp add: assms(3) case_prod_unfold)

lemma step_run:
  assumes "pending s0 f a (a # ds) ks s" "keeps block_step (\<lambda>s f. True) g"
    and "\<And>x b s'. pending s0 f b (b # ds) (if a \<in> set ks then b # ks else ks) s' \<Longrightarrow> wlp (k x) Q s'"
  shows "wlp (gbind g k) Q s"
proof -
  note pending_open[OF assms(1)]
  moreover have "wlp g (\<lambda>x. block_step s) s" using assms(2) by (simp add: keeps_def)
  ultimately have "wlp g (\<lambda>x. flows s) s" by (auto simp: block_step_def elim: wp_mono)
  then show ?thesis
    unfolding wp_gbind by (rule wp_mono) (auto intro: assms(3) pending_run[OF assms(1)])
qed

lemma step_main:
  assumes "pending s0 f a (a # ds) ks s" "keeps block_step (\<lambda>s f. True) g" "a \<in> set ks"
    and "\<And>x b s'. pending s0 f b (b # ds) (b # ks) s' \<Longrightarrow> wlp (k x) Q s'"
  shows "wlp (gbind g k) Q s"
  using step_run[OF assms(1,2), of k Q] assms(3,4) by simp

lemma step_other:
  assumes "pending s0 f a (a # ds) ks s" "keeps block_step (\<lambda>s f. True) g"
    and "\<And>x y b ks' s'. pending s0 f b (b # ds) ks' s' \<Longrightarrow> set ks \<subseteq> set ks' \<Longrightarrow> wlp (k x y) Q s'"
  shows "wlp (gbind g (\<lambda>(x, y). k x y)) Q s"
  using assms(1,2) by (rule step_run) (auto simp: case_prod_unfold intro: assms(3) split: if_splits)

lemma step_get:
  assumes "pending s0 f a ds ks s" "\<And>x. pending s0 f a ds ks s \<Longrightarrow> wlp (k x) Q s"
  shows "wlp (gbind (gget h) k) Q s"
  using assms by simp

lemma step_where:
  assumes "pending s0 f a ds ks s" "pending s0 f a ds ks s \<Longrightarrow> wlp (k a) Q s"
  shows "wlp (gbind get_insert_block k) Q s"
  using assms by (simp add: get_insert_block_def pending_def)

lemma step_state:
  assumes "pending s0 f a ds ks s" "\<And>s'. pending s0 f a ds ks s' \<Longrightarrow> wlp (k ()) Q s'"
  shows "wlp (gbind (gmodify (\<lambda>s. s\<lparr>gs_stack := h s\<rparr>)) k) Q s"
    "wlp (gbind (gmodify (\<lambda>s. s\<lparr>gs_depth := d\<rparr>)) k) Q s"
  using assms(1) by (auto intro!: assms(2) elim: pending_same[rotated 2])

lemma step_check:
  assumes "pending s0 f a ds ks s" "pending s0 f a ds ks s \<Longrightarrow> wlp (k ()) Q s"
  shows "wlp (gbind (if c then gpanic msg else greturn ()) k) Q s"
  using assms by simp

lemma step_parent:
  assumes "pending s0 f a ds ks s" "a \<in> set ks" "pending s0 f a ds ks s \<Longrightarrow> wlp (k f) Q s"
  shows "wlp (gbind parent_function k) Q s"
  using assms by (auto simp: parent_function_def pending_def)

lemma wlp_append:
  "wlp (append_basic_block f l) Q s \<longleftrightarrow>
     Q (length (gs_blocks s)) (s\<lparr>gs_blocks := gs_blocks s @ [\<lparr>bk_fun = f, bk_label = l, bk_insts = []\<rparr>]\<rparr>)"
  by (simp add: wp_def append_basic_block_def)

lemma step_append:
  assumes "pending s0 f a ds ks s"
    and "\<And>b s'. pending s0 f a (ds @ [b]) (b # ks) s' \<Longrightarrow> wlp (k b) Q s'"
  shows "wlp (gbind (append_basic_block f l) k) Q s"
  using assms(2)[OF pending_append[OF assms(1), of f l, simplified]]
  by (simp add: wlp_append)

lemma step_append_other:
  assumes "pending s0 f a ds ks s"
    and "\<And>b ks' s'. pending s0 f a (ds @ [b]) ks' s' \<Longrightarrow> set ks \<subseteq> set ks' \<Longrightarrow> wlp (k b) Q s'"
  shows "wlp (gbind (append_basic_block g l) k) Q s"
  using assms(2)[OF pending_append[OF assms(1), of g l]]
  by (simp add: wlp_append subset_insertI split: if_splits)

lemmas step_appends =
  step_append[where ds = "[x1]" for x1, unfolded append.simps]
  step_append[where ds = "[x1, x2]" for x1 x2, unfolded append.simps]
  step_append[where ds = "[x1, x2, x3]" for x1 x2 x3, unfolded append.simps]
  step_append[where ds = "[x1, x2, x3, x4]" for x1 x2 x3 x4, unfolded append.simps]

lemma step_position:
  assumes "pending s0 f a (b # ds) ks s"
    and "\<And>s'. pending s0 f b (b # ds) ks s' \<Longrightarrow> wlp (k ()) Q s'"
  shows "wlp (gbind (position_at_end b) k) Q s"
  using assms(2)[OF pending_position[OF assms(1)]] by (simp add: position_at_end_def)

lemma step_position_second:
  assumes "pending s0 f a (c # b # ds) ks s"
    and "\<And>s'. pending s0 f b (b # c # ds) ks s' \<Longrightarrow> wlp (k ()) Q s'"
  shows "wlp (gbind (position_at_end b) k) Q s"
  using pending_swap[OF assms(1)] assms(2) by (rule step_position)

lemma pending_known:
  "pending s0 f a ds ks s \<Longrightarrow> b \<in> set ks \<Longrightarrow> b < length (gs_blocks s) \<and> bk_fun (gs_blocks s ! b) = f"
  by (simp add: pending_def)

lemma step_br:
  assumes "pending s0 f a (a # ds) ks s" "a \<in> set ks" "t \<in> set ks"
    and "\<And>s'. pending s0 f a ds ks s' \<Longrightarrow> wlp (k ()) Q s'"
  shows "wlp (gbind (emit_void (Br t)) k) Q s"
  using assms(4)[OF pending_close[OF assms(1), of "Br t"]] pending_known[OF assms(1)] assms(2,3) by simp

lemma step_condbr:
  assumes "pending s0 f a (a # ds) ks s" "a \<in> set ks" "t \<in> set ks" "u \<in> set ks"
    and "\<And>s'. pending s0 f a ds ks s' \<Longrightarrow> wlp (k ()) Q s'"
  shows "wlp (gbind (emit_void (CondBr c t u)) k) Q s"
  using assms(5)[OF pending_close[OF assms(1), of "CondBr c t u"]] pending_known[OF assms(1)] assms(2-4) by simp

lemma step_ret:
  assumes "pending s0 f a (a # ds) ks s" "\<And>s'. pending s0 f a ds ks s' \<Longrightarrow> wlp (k ()) Q s'"
  shows "wlp (gbind (emit_void (Ret v)) k) Q s"
  using assms(2)[OF pending_close[OF assms(1), of "Ret v"]] by simp

lemma step_last:
  assumes "pending s0 f a [a] ks s" "a \<in> set ks" "keeps linear (\<lambda>s f. True) m"
  shows "wlp m (\<lambda>x. flows s0) s"
proof -
  have "wlp (gbind m greturn) (\<lambda>x. flows s0) s"
    using assms(1,3) by (rule step_linear) (simp add: pending_flows[OF _ assms(2)])
  then show ?thesis unfolding wp_gbind by (rule wp_mono) simp_all
qed

section \<open>The arms with control flow\<close>

lemma flows_start:
  assumes "open_at s"
    and "\<And>s f a. pending s f a [a] [a] s \<Longrightarrow> wlp m (\<lambda>x. flows s) s"
  shows "wlp m (\<lambda>x. flows s) s"
  using assms(2)[OF pending_start[OF assms(1)]] .

lemma if_flows:
  assumes "keeps block_step (\<lambda>s f. True) gc" "keeps block_step (\<lambda>s f. True) gt" "keeps block_step (\<lambda>s f. True) gf"
    and "open_at s"
  shows "wlp (gen_if gc gt gf) (\<lambda>x. flows s) s"
  using assms(4)
proof (rule flows_start)
  fix s :: gen_state and f a
  assume "pending s f a [a] [a] s"
  then show "wlp (gen_if gc gt gf) (\<lambda>x. flows s) s"
    unfolding gen_if_def
    by - ((erule step_main, rule assms, simp) | (erule step_parent, simp) | erule step_get step_where step_state
      step_check step_appends step_position | (erule step_br, simp, simp) | (erule step_condbr, simp, simp, simp)
      | (erule step_linear, (intro kept; simp; fail)[1])
      | (erule step_last, simp, (intro kept; simp)[1]))+
qed

lemmas plain_steps = step_get step_where step_state step_check step_appends step_position step_position_second

lemma step_try_opencl:
  assumes "pending s0 f a (a # ds) ks s" "a \<in> set ks" "c \<in> set ks" "d \<in> set ks"
    and "\<And>s'. pending s0 f a ds ks s' \<Longrightarrow> wlp (k ()) Q s'"
  shows "wlp (gbind (try_opencl env func v w n c d) k) Q s"
  using assms unfolding try_opencl_def gbind_assoc
  apply -
  apply (erule step_get)
  subgoal for x
    by (cases x; simp only: option.case gbind_assoc)
       ((erule step_br, (simp; fail), (simp; fail)) | (erule step_condbr, (simp; fail), (simp; fail), (simp; fail))
        | (erule step_linear, (intro kept; simp; fail)[1]) | erule assms(5))+
  done

lemma gbind_prod: "gbind (case p of (x, y) \<Rightarrow> f x y) k = (case p of (x, y) \<Rightarrow> gbind (f x y) k)"
  by (simp add: case_prod_unfold)

lemma step_cpu_map:
  assumes "pending s0 f a [c, d] ks s" "c \<in> set ks" "d \<in> set ks"
    and "\<And>e ks' s'. pending s0 f e [d] ks' s' \<Longrightarrow> set ks \<subseteq> set ks' \<Longrightarrow> wlp (k ()) Q s'"
  shows "wlp (gbind (cpu_map env func f n p q c d) k) Q s"
  using assms(1-3) unfolding cpu_map_def gbind_assoc gbind_prod
  by - (erule plain_steps | (erule step_br, (simp; fail), (simp; fail))
      | (erule step_condbr, (simp; fail), (simp; fail), (simp; fail))
      | (erule step_linear2 step_linear, (intro kept; simp; fail)[1])
      | (erule assms(4), force))+

lemma step_copy_columns:
  assumes "pending s0 f a [a] ks s" "a \<in> set ks"
    and "\<And>e ks' s'. pending s0 f e [e] ks' s' \<Longrightarrow> e \<in> set ks' \<Longrightarrow> wlp (k ()) Q s'"
  shows "wlp (gbind (copy_columns f flds i n p q) k) Q s"
  using assms(1,2) unfolding copy_columns_def gbind_assoc gbind_prod
  by - (erule plain_steps | (erule step_br, (simp; fail), (simp; fail))
      | (erule step_condbr, (simp; fail), (simp; fail), (simp; fail))
      | (erule step_linear2 step_linear, (intro kept; simp; fail)[1])
      | (erule assms(3), (simp; fail)))+

lemma step_copy_if:
  assumes "pending s0 f a [a] ks s" "a \<in> set ks"
    and "\<And>e ks' s'. pending s0 f e [e] ks' s' \<Longrightarrow> e \<in> set ks' \<Longrightarrow> wlp (k ()) Q s'"
  shows "wlp (gbind (if c then copy_columns f flds i n p q else greturn ()) k) Q s"
  using assms(1,2) by (cases c; simp only: if_True if_False gbind_greturn)
    ((erule step_copy_columns, assumption, erule assms(3), assumption) | (erule assms(3), assumption))+

lemma step_filter_count:
  assumes "pending s0 f a [a] ks s" "a \<in> set ks"
    and "\<And>x y e ks' s'. pending s0 f e [e] ks' s' \<Longrightarrow> e \<in> set ks' \<Longrightarrow> wlp (k x y) Q s'"
  shows "wlp (gbind (filter_count env func f flds n p) (\<lambda>(x, y). k x y)) Q s"
  using assms(1,2) unfolding filter_count_def gbind_assoc gbind_prod
  by - (erule plain_steps | (erule step_br, (simp; fail), (simp; fail))
      | (erule step_condbr, (simp; fail), (simp; fail), (simp; fail))
      | (erule step_linear2 step_linear, (intro kept; simp; fail)[1])
      | (erule assms(3), (simp; fail)))+

lemma step_filter_copy:
  assumes "pending s0 f a [a] ks s" "a \<in> set ks"
    and "\<And>e ks' s'. pending s0 f e [e] ks' s' \<Longrightarrow> e \<in> set ks' \<Longrightarrow> wlp (k ()) Q s'"
  shows "wlp (gbind (filter_copy env func f flds n p q i) k) Q s"
  using assms(1,2) unfolding filter_copy_def gbind_assoc gbind_prod
  by - (erule plain_steps | (erule step_br, (simp; fail), (simp; fail))
      | (erule step_condbr, (simp; fail), (simp; fail), (simp; fail))
      | (erule step_linear2 step_linear, (intro kept; simp; fail)[1])
      | (erule assms(3), (simp; fail)))+

lemma map_flows:
  assumes "keeps block_step (\<lambda>s f. True) gi" and "open_at s"
  shows "wlp (gen_map env inst fld func gi) (\<lambda>x. flows s) s"
  using assms(2)
proof (rule flows_start)
  fix s :: gen_state and f a
  assume "pending s f a [a] [a] s"
  then show "wlp (gen_map env inst fld func gi) (\<lambda>x. flows s) s"
    unfolding gen_map_def Let_def
    by - (erule plain_steps | (erule step_main, rule assms, simp) | (erule step_parent, (simp; fail))
      | (erule step_copy_if, force)
      | (erule step_try_opencl, (simp; fail), (simp; fail), (simp; fail))
      | (erule step_cpu_map, (simp; fail), (simp; fail))
      | (erule step_linear2 step_linear, (intro kept; simp; fail)[1])
      | (erule step_last, (simp; fail), (intro kept; simp; fail)[1]))+
qed

lemma filter_flows:
  assumes "keeps block_step (\<lambda>s f. True) gi" and "open_at s"
  shows "wlp (gen_filter env inst func gi) (\<lambda>x. flows s) s"
  using assms(2)
proof (rule flows_start)
  fix s :: gen_state and f a
  assume "pending s f a [a] [a] s"
  then show "wlp (gen_filter env inst func gi) (\<lambda>x. flows s) s"
    unfolding gen_filter_def
    by - ((erule step_main, rule assms, simp) | (erule step_parent, (simp; fail))
      | (erule step_filter_count, (simp; fail)) | (erule step_filter_copy, (simp; fail))
      | (erule step_linear2 step_linear, (intro kept; simp; fail)[1])
      | (erule step_last, (simp; fail), (intro kept; simp; fail)[1]))+
qed

text \<open>The new functions of tasks and traps: their blocks are another function's.\<close>

lemma block_with_stack: "keeps block_step (\<lambda>s f. True) g \<Longrightarrow> keeps block_step (\<lambda>s f. True) (with_stack stk g)"
  unfolding keeps_def wp_with_stack
proof
  fix s :: gen_state
  assume "\<forall>s. wlp g (\<lambda>x. block_step s) s"
  then have "wlp g (\<lambda>x. block_step (s\<lparr>gs_stack := stk\<rparr>)) (s\<lparr>gs_stack := stk\<rparr>)" ..
  then show "wlp g (\<lambda>x s'. block_step s (s'\<lparr>gs_stack := gs_stack s\<rparr>)) (s\<lparr>gs_stack := stk\<rparr>)"
    by (rule wp_mono) (simp_all add: block_step_def flows_def open_at_def same_tables_def)
qed

lemma parallel_flows:
  assumes "keeps block_step (\<lambda>s f. True) g" and "open_at s"
  shows "wlp (gen_parallel_expr env g) (\<lambda>x. flows s) s"
  using assms(2)
proof (rule flows_start)
  fix s :: gen_state and f a
  assume "pending s f a [a] [a] s"
  then show "wlp (gen_parallel_expr env g) (\<lambda>x. flows s) s"
    unfolding gen_parallel_expr_def
    by - (erule step_get step_where step_state step_ret step_position_second step_position
      | (erule step_linear, (intro kept; simp; fail)[1])
      | (erule step_append_other, unfold append.simps)
      | (erule step_other, rule block_with_stack, rule assms)
      | (erule step_last, force, (intro kept; simp; fail)[1]))+
qed

lemma step_sub_fn:
  assumes "pending s0 f a [a] ks s" "keeps block_step (\<lambda>s f. True) g"
    and "\<And>x ks' s'. pending s0 f a [a] ks' s' \<Longrightarrow> set ks \<subseteq> set ks' \<Longrightarrow> wlp (k x) Q s'"
  shows "wlp (gbind (gen_trap_sub_fn env g caps name) k) Q s"
  using assms(1) unfolding gen_trap_sub_fn_def gbind_assoc gbind_prod
  by - (erule step_get step_where step_state step_ret step_position_second step_position
    | (erule step_append_other, unfold append.simps)
    | (erule step_other, rule block_with_stack, rule assms)
    | (simp only: gbind_greturn, erule assms(3), blast)
    | (erule step_linear, (intro kept; simp; fail)[1]))+

lemma trap_flows:
  assumes "keeps block_step (\<lambda>s f. True) gt" "keeps block_step (\<lambda>s f. True) gf" and "open_at s"
  shows "wlp (gen_trap env gt gf) (\<lambda>x. flows s) s"
  using assms(3)
proof (rule flows_start)
  fix s :: gen_state and f a
  assume "pending s f a [a] [a] s"
  then show "wlp (gen_trap env gt gf) (\<lambda>x. flows s) s"
    unfolding gen_trap_def
    by - (erule step_get | (erule step_sub_fn, rule assms) | (erule step_linear, (intro kept; simp; fail)[1])
      | (erule step_last, force, (intro kept; simp; fail)[1]))+
qed

section \<open>The generator\<close>

lemma keeps_block_step:
  assumes "keeps same_tables (\<lambda>s f. True) m" "\<And>s. open_at s \<Longrightarrow> wlp m (\<lambda>x. flows s) s"
  shows "keeps block_step (\<lambda>s f. True) m"
  unfolding keeps_def
proof
  fix s :: gen_state
  have "wlp m (\<lambda>x. same_tables s) s" using assms(1) by (simp add: keeps_def)
  then show "wlp m (\<lambda>x. block_step s) s"
    using assms(2)[of s] by (auto simp: wp_def block_step_def split: sum.splits)
qed

lemma block_step_tables: "keeps block_step (\<lambda>s f. True) m \<Longrightarrow> keeps same_tables (\<lambda>s f. True) m"
  unfolding keeps_def by (auto simp: block_step_def intro: wp_mono)

lemma flows_open: "flows a b \<Longrightarrow> open_at b"
  by (simp add: flows_def)

interpretation blocks: generator block_step "\<lambda>s f. True"
proof
  show "block_step s s" for s by (simp add: block_step_def flows_refl)
  show "block_step a c" if "block_step a b" "block_step b c" for a b c
    using that flows_open by (auto simp: block_step_def intro: same_tables_trans flows_trans)
  show "block_step s (emitted i s)" if "\<not> terminator i" for i s
    using that linear_flows linear.emit_step by (simp add: block_step_def)
qed (auto simp: block_step_def flows_def open_at_def intro!: keeps_block_step if_flows map_flows filter_flows
  trap_flows parallel_flows frame.if_arm frame.map_arm frame.filter_arm frame.trap_arm frame.parallel_arm
  dest: block_step_tables)

end
