(* ===== verification/Templates.thy ===== *)
theory Templates
  imports Gen_Logic
begin

text \<open>
  Template expansion: the fuel of \<open>gen_nested\<close>.  More fuel never changes a result; the fuel is
  enough when the calls of templates are nested less deeply than it; and a template that calls
  itself is expanded without end.
\<close>

section \<open>More fuel\<close>

definition below :: "'a gen \<Rightarrow> 'a gen \<Rightarrow> bool" where
  "below m n \<longleftrightarrow> (\<forall>s. m s = Inl NoFuel \<or> m s = n s)"

named_theorems mono_rules "generators that are monotone in their parts"

lemma below_refl [mono_rules]: "below m m"
  by (simp add: below_def)

lemma below_bind [mono_rules]:
  assumes "below m n" "\<And>x. below (k x) (l x)"
  shows "below (gbind m k) (gbind n l)"
  unfolding below_def
proof
  fix s
  consider "m s = Inl NoFuel" | "m s = n s" using assms(1) by (auto simp: below_def)
  then show "gbind m k s = Inl NoFuel \<or> gbind m k s = gbind n l s"
    using assms(2) by cases (auto simp: gbind_def rbind_def below_def split: sum.split)
qed

lemma below_if [mono_rules]: "below m m' \<Longrightarrow> below n n' \<Longrightarrow> below (if c then m else n) (if c then m' else n')"
  by simp

lemma below_prod [mono_rules]:
  "(\<And>a b. p = (a, b) \<Longrightarrow> below (f a b) (g a b)) \<Longrightarrow> below (case p of (a, b) \<Rightarrow> f a b) (case p of (a, b) \<Rightarrow> g a b)"
  by (cases p) simp

lemma below_option [mono_rules]:
  "below m m' \<Longrightarrow> (\<And>y. x = Some y \<Longrightarrow> below (k y) (l y)) \<Longrightarrow>
   below (case x of None \<Rightarrow> m | Some y \<Rightarrow> k y) (case x of None \<Rightarrow> m' | Some y \<Rightarrow> l y)"
  by (cases x) simp_all

lemma below_all [mono_rules]: "list_all2 below ms ns \<Longrightarrow> below (gen_all ms) (gen_all ns)"
  by (induction rule: list_all2_induct) (auto intro!: mono_rules)

lemma rbind_below: "r = Inl NoFuel \<or> r = r' \<Longrightarrow> rbind r k = Inl NoFuel \<or> rbind r k = rbind r' k"
  by auto

lemma below_with_stack [mono_rules]: "below m n \<Longrightarrow> below (with_stack stk m) (with_stack stk n)"
  unfolding below_def with_stack_def by (intro allI rbind_below) simp

lemma below_tasks [mono_rules]:
  "below g h \<Longrightarrow> below (gen_parallel_expr env g) (gen_parallel_expr env h)"
  "below g h \<Longrightarrow> below (gen_trap_sub_fn env g caps name) (gen_trap_sub_fn env h caps name)"
  "below g h \<Longrightarrow> below g' h' \<Longrightarrow> below (gen_trap env g g') (gen_trap env h h')"
  unfolding gen_parallel_expr_def gen_trap_sub_fn_def gen_trap_def
  by (intro mono_rules; assumption)+

lemma below_arms [mono_rules]:
  "below g h \<Longrightarrow> below g' h' \<Longrightarrow> below (gen_binary_op env op l g g') (gen_binary_op env op l h h')"
  "below g h \<Longrightarrow> below g' h' \<Longrightarrow> below (gen_money_op op g g') (gen_money_op op h h')"
  "below g h \<Longrightarrow> below g' h' \<Longrightarrow> below (gen_time_op op g g') (gen_time_op op h h')"
  "below g h \<Longrightarrow> below g' h' \<Longrightarrow> below (gen_let env e g g') (gen_let env e h h')"
  "below g h \<Longrightarrow> below g' h' \<Longrightarrow> below g'' h'' \<Longrightarrow> below (gen_if g g' g'') (gen_if h h' h'')"
  "below g h \<Longrightarrow> below (gen_new env shape g) (gen_new env shape h)"
  "below g h \<Longrightarrow> below g' h' \<Longrightarrow> below (gen_get env e fld g g') (gen_get env e fld h h')"
  "below g h \<Longrightarrow> below g' h' \<Longrightarrow> below g'' h'' \<Longrightarrow> below (gen_set env e fld g g' g'') (gen_set env e fld h h' h'')"
  "below g h \<Longrightarrow> below (gen_map env e fld func g) (gen_map env e fld func h)"
  "below g h \<Longrightarrow> below (gen_filter env e func g) (gen_filter env e func h)"
  "below g h \<Longrightarrow> below (gen_len env e g) (gen_len env e h)"
  "below g h \<Longrightarrow> below (gen_pack env e g) (gen_pack env e h)"
  "below g h \<Longrightarrow> below (gen_unpack env e shape g) (gen_unpack env e shape h)"
  "below g h \<Longrightarrow> below (gen_panic env g) (gen_panic env h)"
  "below g h \<Longrightarrow> below (gen_money_str env g) (gen_money_str env h)"
  "below g h \<Longrightarrow> below g' h' \<Longrightarrow> below (gen_seq env e g g') (gen_seq env e h h')"
  "list_all2 below gs hs \<Longrightarrow> below (runtime_op env name es gs) (runtime_op env name es hs)"
  "list_all2 below gs hs \<Longrightarrow> below (gen_otel_emit env es gs) (gen_otel_emit env es hs)"
  "list_all2 below gs hs \<Longrightarrow> below g h \<Longrightarrow> below (gen_seq_http env es gs g) (gen_seq_http env es hs h)"
  unfolding gen_binary_op_def gen_money_op_def gen_time_op_def gen_let_def gen_if_def gen_new_def gen_get_def
    gen_set_def gen_map_def gen_filter_def gen_len_def gen_pack_def gen_unpack_def gen_panic_def
    gen_money_str_def gen_seq_def runtime_op_def gen_otel_emit_def gen_seq_http_def gen_async_def Let_def
  by (intro mono_rules; assumption)+

lemma below_move [mono_rules]: "below g h \<Longrightarrow> below (gen_move em e g) (gen_move em e h)"
  by (cases e) (simp_all add: gen_move_def below_refl)

lemma below_final_arg [mono_rules]: "below g h \<Longrightarrow> below (gen_final_arg env arg final g) (gen_final_arg env arg final h)"
  unfolding gen_final_arg_def by (cases final) (auto intro!: mono_rules)

lemma below_args [mono_rules]:
  "list_all2 below gs hs \<Longrightarrow> below (gen_args env name n i (zip args gs)) (gen_args env name n i (zip args hs))"
proof (induction args arbitrary: i gs hs)
  case (Cons a args)
  then show ?case by (cases gs; cases hs) (auto intro!: mono_rules)
qed (simp add: below_refl)

lemma below_apply [mono_rules]:
  assumes "list_all2 below gs hs" "\<And>em body. below (x em body) (y em body)"
  shows "below (gen_apply env x func args gs) (gen_apply env y func args hs)"
  using assms by (cases func) (auto simp: gen_apply_def expand_template_def intro!: mono_rules)

lemma below_http:
  "(\<And>m u b. e = HttpClient m u b \<Longrightarrow> below (f m u b) (f' m u b)) \<Longrightarrow> below d d' \<Longrightarrow>
   below (case e of HttpClient m u b \<Rightarrow> f m u b | _ \<Rightarrow> d) (case e of HttpClient m u b \<Rightarrow> f' m u b | _ \<Rightarrow> d')"
  by (cases e) simp_all

lemma gen_expr_mono:
  assumes "\<And>em body. below (x em body) (y em body)"
  shows "below (gen_expr env x em e) (gen_expr env y em e)"
proof (induction e rule: measure_induct_rule[of size])
  case (less e)
  have sub: "below (gen_expr env x em c) (gen_expr env y em c)" if "c \<in> set (children e)" for c
    using less.IH[OF children_size[OF that]] .
  have sub2: "below (gen_expr env x em c') (gen_expr env y em c')"
    if "c \<in> set (children e)" "c' \<in> set (children c)" for c c'
    using less.IH[of c'] that children_size by (meson less_trans)
  show ?case
  proof (cases e)
    case (Seq l r)
    then show ?thesis
      using sub sub2[of l] by (simp add: children_def) (intro below_http below_arms; simp add: children_def)
  next
    case (Apply f args)
    then show ?thesis
      using sub by (auto simp: children_def list_all2_conv_all_nth intro!: below_apply assms)
  qed (use sub in \<open>simp_all add: children_def runtime_arms below_refl mono_rules\<close>)
qed

lemma gen_nested_mono: "below (gen_nested env n em e) (gen_nested env (n + k) em e)"
proof (induction n arbitrary: em e)
  case 0
  have "below (\<lambda>s. Inl NoFuel) m" for m :: "val gen" by (simp add: below_def)
  then show ?case by (cases k) (simp_all add: gen_expr_mono below_refl)
next
  case (Suc n)
  then show ?case by (simp add: gen_expr_mono)
qed

section \<open>Enough fuel\<close>

text \<open>The calls in \<open>e\<close> nest at most \<open>n\<close> templates.\<close>

definition body_of :: "codegen \<Rightarrow> string \<Rightarrow> expr option" where
  "body_of cg t = map_option snd (map_of (cg_templates cg) t)"

primrec nesting_ok :: "llvm_names \<Rightarrow> codegen \<Rightarrow> nat \<Rightarrow> expr \<Rightarrow> bool" where
  "nesting_ok ln cg 0 e =
     list_all (\<lambda>name. list_all (\<lambda>t. body_of cg t = None) (candidates ln cg name)) (called_names e)"
| "nesting_ok ln cg (Suc n) e =
     list_all (\<lambda>name. list_all (\<lambda>t. case body_of cg t of
         None \<Rightarrow> True | Some body \<Rightarrow> nesting_ok ln cg n body) (candidates ln cg name)) (called_names e)"

lemma nesting_ok_functions [simp]: "nesting_ok ln (cg\<lparr>cg_functions := fs\<rparr>) n e = nesting_ok ln cg n e"
  by (induction n arbitrary: e) (simp_all add: body_of_def cong: option.case_cong)

definition fuel_suffices :: "llvm_names \<Rightarrow> nat \<Rightarrow> expr \<Rightarrow> gen_state \<Rightarrow> fail \<Rightarrow> bool" where
  "fuel_suffices ln n e s f \<longleftrightarrow> (nesting_ok ln (gs_cg s) n e \<longrightarrow> f \<noteq> NoFuel)"

interpretation fuel: builder_steps same_tables "fuel_suffices ln n e" for ln n e
  by unfold_locales
     (auto simp: fuel_suffices_def benign_def intro: same_tables_trans, simp add: same_tables_def, force)

lemma keeps_mono: "keeps R E m \<Longrightarrow> (\<And>s f. E s f \<Longrightarrow> E' s f) \<Longrightarrow> keeps R E' m"
  unfolding keeps_def by (blast intro: wp_mono)

lemma gen_nested_fuel: "keeps same_tables (fuel_suffices (ge_names env) n e) (gen_nested env n em e)"
proof (induction n arbitrary: em e)
  case 0
  have "expands same_tables (fuel_suffices (ge_names env) 0 e) env (\<lambda>em body s. Inl NoFuel) (called_names e)"
    by (auto simp: expands_def wp_def fuel_suffices_def body_of_def list_all_iff)
  then show ?case by (simp add: fuel.gen_expr_keeps)
next
  case (Suc n)
  have "wp (gen_nested env n em body) (\<lambda>x. same_tables s) (fuel_suffices (ge_names env) (Suc n) e s) s"
    if "name \<in> set (called_names e)" "t \<in> set (candidates (ge_names env) (gs_cg s) name)"
      "map_of (cg_templates (gs_cg s)) t = Some (params, body)" for em body s name t params
  proof (rule wp_mono)
    show "wp (gen_nested env n em body) (\<lambda>x. same_tables s) (fuel_suffices (ge_names env) n body s) s"
      using Suc[of body em] by (simp add: keeps_def)
    show "fuel_suffices (ge_names env) (Suc n) e s f" if "fuel_suffices (ge_names env) n body s f" for f
      using that \<open>name \<in> _\<close> \<open>t \<in> _\<close> \<open>map_of _ t = _\<close>
      by (force simp: fuel_suffices_def list_all_iff body_of_def)
  qed
  then have "expands same_tables (fuel_suffices (ge_names env) (Suc n) e) env (gen_nested env n) (called_names e)"
    unfolding expands_def by blast
  then show ?case by (simp add: fuel.gen_expr_keeps)
qed

text \<open>C25: the generator returns.  When the templates called by an expression, directly and through
  other templates, are nested at most \<open>n\<close> deep, the generator with fuel \<open>n\<close> returns a value or
  panics; it does not run out of fuel.\<close>

theorem gen_terminates:
  assumes "nesting_ok (ge_names env) (gs_cg s) n e"
  shows "gen_nested env n em e s \<noteq> Inl NoFuel"
  using keepsE[OF gen_nested_fuel, of env n em e s NoFuel] assms by (auto simp: fuel_suffices_def)

section \<open>A template that calls itself\<close>

definition pushed :: "val \<Rightarrow> expr \<Rightarrow> gen_state \<Rightarrow> gen_state" where
  "pushed v arg s = s\<lparr>gs_stack := gs_stack s @
     [\<lparr>si_value = v, si_state = Available, si_shape = shape_of arg s, si_is_ptr = is_ptr_of arg s\<rparr>]\<rparr>"

lemma gen_apply_self:
  assumes "resolve_func_name (ge_names env) (gs_cg s) f = t" "f \<noteq> ''query''"
    and "map_of (cg_templates (gs_cg s)) t = Some ([\<lparr>param_name = p, param_expand = True\<rparr>], body)"
    and "g s = Inr (v, s)"
    and "x [p \<mapsto> length (gs_stack s)] body (pushed v arg s) = Inl NoFuel"
  shows "gen_apply env x (Identifier f) [arg] [g] s = Inl NoFuel"
  using assms
  by (simp add: gen_apply_def gbind_def gget_def greturn_def gmodify_def final_arg_def gen_final_arg_def
      expand_template_def pushed_def)

lemma self_call_diverges:
  assumes "resolve_func_name (ge_names env) (gs_cg s) f = t" "f \<noteq> ''query''"
    and "map_of (cg_templates (gs_cg s)) t =
      Some ([\<lparr>param_name = p, param_expand = True\<rparr>], Apply (Identifier f) [Expand p])"
    and "em p = Some i" "i < length (gs_stack s)" "si_state (gs_stack s ! i) \<noteq> Moved"
  shows "gen_nested env n em (Apply (Identifier f) [Expand p]) s = Inl NoFuel"
  using assms
proof (induction n arbitrary: em s i)
  case 0
  have "gen_expand em p s = Inr (si_value (gs_stack s ! i), s)"
    using 0 by (simp add: gen_expand_def gbind_def expect_def greturn_def Let_def)
  then show ?case using 0 by (simp add: gen_apply_self)
next
  case (Suc n)
  let ?v = "si_value (gs_stack s ! i)"
  have g: "gen_expand em p s = Inr (?v, s)"
    using Suc.prems by (simp add: gen_expand_def gbind_def expect_def greturn_def Let_def)
  have "gen_nested env n [p \<mapsto> length (gs_stack s)] (Apply (Identifier f) [Expand p]) (pushed ?v (Expand p) s)
      = Inl NoFuel"
    using Suc.prems by (intro Suc.IH[of _ _ "length (gs_stack s)"]) (simp_all add: pushed_def)
  then show ?case using Suc.prems g by (simp add: gen_apply_self)
qed

text \<open>C26: a template that calls itself is never finished.  Nothing in the compiler rejects a
  recursive template; the generator expands the body of \<open>f\<close>, given by \<open>: f ~p @1 f ~p\<close>, inside
  itself until the stack of the compiler overflows: no fuel is enough.\<close>

theorem recursive_template_diverges:
  assumes "resolve_func_name (ge_names env) (gs_cg s) f = t" "f \<noteq> ''query''"
    and "map_of (cg_templates (gs_cg s)) t =
      Some ([\<lparr>param_name = p, param_expand = True\<rparr>], Apply (Identifier f) [Expand p])"
  shows "gen_nested env n em (Apply (Identifier f) [Integer i]) s = Inl NoFuel"
proof -
  let ?body = "Apply (Identifier f) [Expand p]"
  have g: "greturn (ConstInt i) s = Inr (ConstInt i, s)" by (simp add: greturn_def)
  have "gen_nested env m [p \<mapsto> length (gs_stack s)] ?body (pushed (ConstInt i) (Integer i) s) = Inl NoFuel" for m
    using assms by (intro self_call_diverges[of _ _ _ t _ _ "length (gs_stack s)"]) (simp_all add: pushed_def)
  then show ?thesis using assms g by (cases n) (simp_all add: gen_apply_self)
qed

definition plain_gen :: gen_env where
  "plain_gen = \<lparr>ge_names = plain_names, ge_threshold = 50, ge_max_depth = 0, ge_stack_ok = (\<lambda>s. True),
     ge_f64_show = (\<lambda>x. ''0'')\<rparr>"

definition empty_gen :: "codegen \<Rightarrow> gen_state" where
  "empty_gen cg = \<lparr>gs_cg = cg, gs_rets = Map.empty, gs_globals = Map.empty, gs_depth = 0, gs_stack = [],
     gs_blocks = [], gs_at = 0, gs_next = 0\<rparr>"

definition looping_module :: codegen where
  "looping_module =
     (case declare_function plain_names ''f'' [\<lparr>param_name = ''p'', param_expand = True\<rparr>]
        (Apply (Identifier ''f'') [Expand ''p'']) True (codegen_new ''main.llm'') of
        Inr cg \<Rightarrow> cg | Inl err \<Rightarrow> codegen_new [])"

lemma recursive_template_diverges_witness:
  "gen_nested plain_gen 1000 Map.empty (Apply (Identifier ''f'') [Integer 1]) (empty_gen looping_module) = Inl NoFuel"
proof (rule recursive_template_diverges)
  show "resolve_func_name (ge_names plain_gen) (gs_cg (empty_gen looping_module)) ''f'' = ''f''" by code_simp
  show "''f'' \<noteq> ''query''" by simp
  show "map_of (cg_templates (gs_cg (empty_gen looping_module))) ''f'' =
    Some ([\<lparr>param_name = ''p'', param_expand = True\<rparr>], Apply (Identifier ''f'') [Expand ''p''])" by code_simp
qed

definition adding_module :: codegen where
  "adding_module =
     (case declare_function plain_names ''g'' [\<lparr>param_name = ''p'', param_expand = True\<rparr>]
        (BinaryOp TAdd (Expand ''p'') (Integer 1)) True (codegen_new ''main.llm'') of
        Inr cg \<Rightarrow> cg | Inl err \<Rightarrow> codegen_new [])"

lemma adding_module_nesting:
  "nesting_ok plain_names adding_module 1 (Apply (Identifier ''g'') [Integer 1])"
  by code_simp

lemma gen_terminates_witness:
  "gen_nested plain_gen 1 Map.empty (Apply (Identifier ''g'') [Integer 1]) (empty_gen adding_module) \<noteq> Inl NoFuel"
  using adding_module_nesting by (intro gen_terminates) (simp add: plain_gen_def empty_gen_def)

end
