(* ===== verification/Ownership.thy ===== *)
theory Ownership
  imports Verify
begin

text \<open>
  What the verifier promises: a reference semantics of the uses of variables, and the proof
  that a verified function never touches a variable after it was moved.

  A binding is identified by the moment it is made.  A run of an expression extends a
  history of events: a binding is made, read, or moved out of; \<open>Wild\<close> is an access outside
  the stack.  Branches and the outcome of a \<open>Trap\<close> are chosen freely.  The environment
  of a \<open>Trap\<close> is what the code generator captures (\<open>codegen/expr.rs\<close>, \<open>Expr::Trap\<close>
  and \<open>codegen/parallel.rs\<close>): the variables that are not moved.
\<close>

section \<open>Conservative verifiers\<close>

text \<open>Verification only ever marks variables as moved, and never a borrowed one.\<close>

definition may_become :: "var_state \<Rightarrow> var_state \<Rightarrow> bool" where
  "may_become s s' = (s' = s \<or> s' = Moved \<and> s \<noteq> Borrowed)"

definition ctx_step :: "vctx \<Rightarrow> vctx \<Rightarrow> bool" where
  "ctx_step ctx ctx' \<longleftrightarrow>
     ctx' = ctx\<lparr>vc_stack := vc_stack ctx'\<rparr> \<and> list_all2 may_become (vc_stack ctx) (vc_stack ctx')"

definition conservative :: "verifier \<Rightarrow> bool" where
  "conservative v \<longleftrightarrow> (\<forall>ctx ctx'. v ctx = Inr ctx' \<longrightarrow> ctx_step ctx ctx')"

lemma may_become_refl [simp]: "may_become s s"
  by (simp add: may_become_def)

lemma may_become_trans: "may_become s s' \<Longrightarrow> may_become s' s'' \<Longrightarrow> may_become s s''"
  by (auto simp: may_become_def)

lemma ctx_step_refl [simp]: "ctx_step ctx ctx"
  by (simp add: ctx_step_def list.rel_refl)

lemma ctx_step_trans: "ctx_step a b \<Longrightarrow> ctx_step b c \<Longrightarrow> ctx_step a c"
  by (cases a; cases b; cases c)
     (auto simp: ctx_step_def intro: list_all2_trans[OF may_become_trans])

lemma ctx_step_frame:
  assumes "ctx_step ctx ctx'"
  shows "vc_shapes ctx' = vc_shapes ctx" "vc_functions ctx' = vc_functions ctx"
    "vc_stack_shapes ctx' = vc_stack_shapes ctx" "vc_expand ctx' = vc_expand ctx"
    "length (vc_stack ctx') = length (vc_stack ctx)"
  using assms by (cases ctx; cases ctx'; auto simp: ctx_step_def dest: list_all2_lengthD)+

named_theorems conserve "rules for conservative verifiers"

lemma conservative_Inr [conserve]: "conservative Inr"
  by (simp add: conservative_def)

lemma conservative_Inl [conserve]: "conservative (\<lambda>ctx. Inl err)"
  by (simp add: conservative_def)

lemma conservative_read [conserve]: "conservative (read_slot i)"
  by (simp add: conservative_def read_slot_def)

lemma may_become_update: "xs ! i \<noteq> Borrowed \<Longrightarrow> list_all2 may_become xs (xs[i := Moved])"
  by (cases "i < length xs")
     (auto simp: list_all2_conv_all_nth nth_list_update may_become_def list_update_beyond)

lemma conservative_move [conserve]: "conservative (move_slot i)"
  by (auto simp: conservative_def move_slot_def ctx_step_def intro: may_become_update)

lemma conservative_at_index [conserve]: "(\<And>i. conservative (k i)) \<Longrightarrow> conservative (at_index k n)"
  by (simp add: conservative_def at_index_def)

lemma conservative_at_expand [conserve]:
  "(\<And>i. conservative (k i)) \<Longrightarrow> conservative (at_expand k name)"
  by (simp add: conservative_def at_expand_def split: option.split)

lemma conservative_seq [conserve]: "\<forall>v \<in> set vs. conservative v \<Longrightarrow> conservative (verify_seq vs)"
proof (induction vs)
  case (Cons v vs)
  then show ?case
    unfolding conservative_def by (simp add: rbind_Inr_iff) (blast intro: ctx_step_trans)
qed (simp add: conservative_def)

lemma conservative_checks [conserve]:
  "conservative (check_field inst field)" "conservative (check_shape name)"
  "conservative (check_inferred e)" "conservative (check_map_field e field)"
  "conservative (check_func func)" "conservative (check_callee func)"
  "conservative (verify_identifier name)"
  by (auto simp: conservative_def check_field_def check_shape_def check_inferred_def
      check_map_field_def check_func_def check_callee_def verify_identifier_def
      split: option.splits expr.splits if_splits)

lemma conservative_let [conserve]:
  assumes v: "conservative v" and b: "conservative b"
  shows "conservative (verify_let val v b)"
  unfolding conservative_def
proof (intro allI impI)
  fix ctx ctx' assume "verify_let val v b ctx = Inr ctx'"
  then obtain ctx1 ctx2 where 1: "v ctx = Inr ctx1"
    and 2: "b (ctx1\<lparr>vc_stack := vc_stack ctx1 @ [Available],
       vc_stack_shapes := vc_stack_shapes ctx1 @ [infer_shape val (vc_stack_shapes ctx1)]\<rparr>) = Inr ctx2"
    and ctx': "ctx' = ctx2\<lparr>vc_stack := butlast (vc_stack ctx2),
       vc_stack_shapes := butlast (vc_stack_shapes ctx2)\<rparr>"
    by (auto simp: verify_let_def rbind_Inr_iff)
  from b 2 have s2: "ctx_step (ctx1\<lparr>vc_stack := vc_stack ctx1 @ [Available],
       vc_stack_shapes := vc_stack_shapes ctx1 @ [infer_shape val (vc_stack_shapes ctx1)]\<rparr>) ctx2"
    by (auto simp: conservative_def)
  then have "list_all2 may_become (vc_stack ctx1 @ [Available]) (vc_stack ctx2)"
    by (simp add: ctx_step_def)
  then have "list_all2 may_become (vc_stack ctx1) (butlast (vc_stack ctx2))"
    by (auto simp: list_all2_append1 butlast_append list_all2_Cons1)
  then have "ctx_step ctx1 ctx'"
    using ctx_step_frame[OF s2] ctx' by (cases ctx1; cases ctx2) (simp add: ctx_step_def)
  moreover have "ctx_step ctx ctx1" using v 1 by (simp add: conservative_def)
  ultimately show "ctx_step ctx ctx'" by (rule ctx_step_trans[rotated])
qed

lemma conservative_if [conserve]:
  assumes c: "conservative c" and t: "conservative t" and f: "conservative f"
  shows "conservative (verify_if c t f)"
  unfolding conservative_def
proof (intro allI impI)
  fix ctx ctx' assume "verify_if c t f ctx = Inr ctx'"
  then obtain ctx1 ctx2 where 1: "c ctx = Inr ctx1" and 2: "t ctx1 = Inr ctx2"
    and 3: "f (ctx2\<lparr>vc_stack := vc_stack ctx1, vc_stack_shapes := vc_stack_shapes ctx1\<rparr>) = Inr ctx'"
    by (auto simp: verify_if_def rbind_Inr_iff split: if_split_asm)
  have s1: "ctx_step ctx ctx1" and s2: "ctx_step ctx1 ctx2"
    using c t 1 2 by (auto simp: conservative_def)
  have "ctx2\<lparr>vc_stack := vc_stack ctx1, vc_stack_shapes := vc_stack_shapes ctx1\<rparr> = ctx1"
    using ctx_step_frame[OF s2] by (cases ctx1; cases ctx2) simp
  with f 3 have "ctx_step ctx1 ctx'" by (simp add: conservative_def)
  with s1 show "ctx_step ctx ctx'" by (rule ctx_step_trans)
qed

lemma conservative_trap [conserve]: "conservative (verify_trap t f)"
  by (auto simp: conservative_def verify_trap_def rbind_Inr_iff)

lemma conservative_verify_move [conserve]:
  "conservative v \<Longrightarrow> conservative (verify_move inner v)"
  by (auto simp: verify_move_def split: expr.split intro!: conserve)

lemma verify_expr_conservative: "conservative (verify_expr e)"
  by (induction e) (auto simp del: verify_seq.simps intro!: conserve)

lemma verify_expr_step: "verify_expr e ctx = Inr ctx' \<Longrightarrow> ctx_step ctx ctx'"
  using verify_expr_conservative[of e] by (simp add: conservative_def)

section \<open>Runs\<close>

datatype event = Bind nat | Use nat | Take nat | Wild

type_synonym history = "event list"

text \<open>The subexpressions a strict construct evaluates, in order.\<close>

definition operands :: "expr \<Rightarrow> expr list" where
  "operands e =
     (case e of
        Borrow a \<Rightarrow> [a] | MutBorrow a \<Rightarrow> [a] | Move a \<Rightarrow> [a] | Seq a b \<Rightarrow> [a, b] | New s a \<Rightarrow> [a]
      | Get a f b \<Rightarrow> [a, b] | Set a f b c \<Rightarrow> [a, b, c] | Pack a \<Rightarrow> [a] | Unpack a s \<Rightarrow> [a]
      | Map a f g \<Rightarrow> [a] | Filter a g \<Rightarrow> [a] | Apply g as \<Rightarrow> as | BinaryOp t a b \<Rightarrow> [a, b]
      | Cat a b \<Rightarrow> [a, b] | Loc a b \<Rightarrow> [a, b] | Reg a b \<Rightarrow> [a, b] | Write a b \<Rightarrow> [a, b]
      | Sub a b c \<Rightarrow> [a, b, c] | Split a b c \<Rightarrow> [a, b, c] | TimeGet a b \<Rightarrow> [a, b]
      | TimeSet a b c d f g \<Rightarrow> [a, b, c, d, f, g] | MoneyOp t a b \<Rightarrow> [a, b]
      | TimeOp t a b \<Rightarrow> [a, b] | HttpClient a b c \<Rightarrow> [a, b, c] | HttpServer a b \<Rightarrow> [a, b]
      | HttpHeader a b \<Rightarrow> [a, b] | FileOpen a b \<Rightarrow> [a, b] | Len a \<Rightarrow> [a] | Str a \<Rightarrow> [a]
      | Read a \<Rightarrow> [a] | Env a \<Rightarrow> [a] | MoneyStr a \<Rightarrow> [a] | Panic a \<Rightarrow> [a]
      | Metadata t v a \<Rightarrow> [a] | OtelEmit a b c d \<Rightarrow> [a, b, c, d] | _ \<Rightarrow> [])"

definition is_variable :: "expr \<Rightarrow> bool" where
  "is_variable e = (case e of DeBruijn i \<Rightarrow> True | Expand x \<Rightarrow> True | _ \<Rightarrow> False)"

definition strict :: "expr \<Rightarrow> bool" where
  "strict e =
     (case e of
        DeBruijn i \<Rightarrow> False | Expand x \<Rightarrow> False | Move a \<Rightarrow> \<not> is_variable a
      | Let x v b \<Rightarrow> False | If c t f \<Rightarrow> False | Trap t f \<Rightarrow> False | _ \<Rightarrow> True)"

definition var_event :: "(nat \<Rightarrow> event) \<Rightarrow> nat list \<Rightarrow> usize \<Rightarrow> event" where
  "var_event C env i = (if i < length env then C (env ! slot env i) else Wild)"

definition expand_event ::
  "(nat \<Rightarrow> event) \<Rightarrow> (string \<Rightarrow> usize option) \<Rightarrow> nat list \<Rightarrow> string \<Rightarrow> event" where
  "expand_event C xm env x =
     (case xm x of Some i \<Rightarrow> if i < length env then C (env ! i) else Wild | None \<Rightarrow> Wild)"

definition live :: "history \<Rightarrow> nat list \<Rightarrow> nat list" where
  "live h env = filter (\<lambda>k. Take k \<notin> set h) env"

text \<open>
  \<open>runs xm env e h h'\<close>: after the history \<open>h\<close>, evaluating \<open>e\<close> where the variables
  are the bindings \<open>env\<close> (the innermost last) and \<open>xm\<close> gives the positions of the
  expansion parameters may leave the history \<open>h'\<close>.  A panic inside a \<open>Trap\<close> may
  happen after any prefix of a run of its first part.
\<close>

inductive runs :: "(string \<Rightarrow> usize option) \<Rightarrow> nat list \<Rightarrow> expr \<Rightarrow> history \<Rightarrow> history \<Rightarrow> bool"
  and runs_all :: "(string \<Rightarrow> usize option) \<Rightarrow> nat list \<Rightarrow> expr list \<Rightarrow> history \<Rightarrow> history \<Rightarrow> bool"
  for xm :: "string \<Rightarrow> usize option" where
  var: "runs xm env (DeBruijn i) h (h @ [var_event Use env i])"
| xvar: "runs xm env (Expand x) h (h @ [expand_event Use xm env x])"
| move: "runs xm env (Move (DeBruijn i)) h (h @ [var_event Take env i])"
| xmove: "runs xm env (Move (Expand x)) h (h @ [expand_event Take xm env x])"
| let_in: "runs xm env v h h1 \<Longrightarrow> runs xm (env @ [length h1]) b (h1 @ [Bind (length h1)]) h2 \<Longrightarrow>
    runs xm env (Let x v b) h h2"
| if_true: "runs xm env c h h1 \<Longrightarrow> runs xm env t h1 h2 \<Longrightarrow> runs xm env (If c t f) h h2"
| if_false: "runs xm env c h h1 \<Longrightarrow> runs xm env f h1 h2 \<Longrightarrow> runs xm env (If c t f) h h2"
| trap_ok: "runs xm (live h env) t h h1 \<Longrightarrow> runs xm env (Trap t f) h h1"
| trap_panic: "runs xm (live h env) t h h1 \<Longrightarrow> length h \<le> n \<Longrightarrow>
    runs xm (live h env) f (take n h1) h2 \<Longrightarrow> runs xm env (Trap t f) h h2"
| strict: "strict e \<Longrightarrow> runs_all xm env (operands e) h h' \<Longrightarrow> runs xm env e h h'"
| none: "runs_all xm env [] h h"
| more: "runs xm env e h h1 \<Longrightarrow> runs_all xm env es h1 h2 \<Longrightarrow> runs_all xm env (e # es) h h2"

text \<open>The promise: no binding is read or moved after it was moved, and no access is wild.\<close>

fun safe_trace :: "history \<Rightarrow> bool" where
  "safe_trace [] = True"
| "safe_trace (ev # evs) =
     (ev \<noteq> Wild \<and> safe_trace evs \<and>
      (case ev of Take k \<Rightarrow> Use k \<notin> set evs \<and> Take k \<notin> set evs | _ \<Rightarrow> True))"

lemma safe_trace_snoc:
  "safe_trace (h @ [ev]) \<longleftrightarrow> safe_trace h \<and> ev \<noteq> Wild \<and>
     (case ev of Use k \<Rightarrow> Take k \<notin> set h | Take k \<Rightarrow> Take k \<notin> set h | _ \<Rightarrow> True)"
  by (induction h) (auto split: event.splits)

lemma safe_trace_prefix: "safe_trace (a @ b) \<Longrightarrow> safe_trace a"
  by (induction a) (auto split: event.splits)

lemma runs_extends:
  "runs xm env e h h' \<Longrightarrow> \<exists>evs. h' = h @ evs"
  "runs_all xm env es h h' \<Longrightarrow> \<exists>evs. h' = h @ evs"
proof (induction rule: runs_runs_all.inducts)
  case (trap_panic h env t h1 n f h2)
  then obtain a b where "h1 = h @ a" "h2 = take n h1 @ b" by blast
  with \<open>length h \<le> n\<close> show ?case by (simp add: take_append)
qed auto

section \<open>The simulation\<close>

text \<open>Function bodies as the code generator runs them: no definition inside, literal metadata.\<close>

definition is_literal :: "expr \<Rightarrow> bool" where
  "is_literal e = (case e of String s \<Rightarrow> True | Integer i \<Rightarrow> True | Float x \<Rightarrow> True | _ \<Rightarrow> False)"

definition plain_node :: "expr \<Rightarrow> bool" where
  "plain_node e =
     (case e of Define name params body exported \<Rightarrow> False
      | Metadata tag val t \<Rightarrow> is_literal tag \<and> is_literal val | _ \<Rightarrow> True)"

definition parts :: "expr \<Rightarrow> expr list" where
  "parts e =
     (case e of Let x v b \<Rightarrow> [v, b] | If c t f \<Rightarrow> [c, t, f] | Trap t f \<Rightarrow> [t, f] | _ \<Rightarrow> operands e)"

lemma parts_size: "e' \<in> set (parts e) \<Longrightarrow> size e' < size e"
  by (cases e) (auto simp: parts_def operands_def dest: size_member)

function plain :: "expr \<Rightarrow> bool" where
  "plain e = (plain_node e \<and> (\<forall>e' \<in> set (parts e). plain e'))"
  by pat_completeness auto
termination by (relation "measure size") (simp_all add: parts_size)

declare plain.simps [simp del]

lemma plain_eqs:
  "plain (DeBruijn i) = True"
  "plain (Move a) = plain a"
  "plain (If c t f) = (plain c \<and> plain t \<and> plain f)"
  by (subst plain.simps, simp add: plain_node_def parts_def operands_def)+

text \<open>
  The verifier's state and the history agree: a variable is \<open>Moved\<close> exactly when its
  binding was taken, and every binding lies in the past.
\<close>

definition well_timed :: "history \<Rightarrow> bool" where
  "well_timed h \<longleftrightarrow> (\<forall>j < length h. \<forall>k. h ! j = Take k \<longrightarrow> k < j)"

lemma well_timed_snoc:
  "well_timed (h @ [ev]) \<longleftrightarrow> well_timed h \<and> (\<forall>k. ev = Take k \<longrightarrow> k < length h)"
  by (auto simp: well_timed_def nth_append less_Suc_eq)

lemma well_timed_take: "well_timed h \<Longrightarrow> well_timed (take n h)"
  by (simp add: well_timed_def)

lemma well_timed_less: "well_timed h \<Longrightarrow> Take k \<in> set h \<Longrightarrow> k < length h"
  unfolding well_timed_def in_set_conv_nth by (metis less_trans)

definition agrees :: "vctx \<Rightarrow> nat list \<Rightarrow> history \<Rightarrow> bool" where
  "agrees ctx env h \<longleftrightarrow>
     map (\<lambda>s. s = Moved) (vc_stack ctx) = map (\<lambda>k. Take k \<in> set h) env \<and>
     MutBorrowed \<notin> set (vc_stack ctx) \<and> distinct env \<and>
     (\<forall>k \<in> set env. k < length h) \<and> well_timed h"

lemma agrees_length: "agrees ctx env h \<Longrightarrow> length (vc_stack ctx) = length env"
  unfolding agrees_def by (metis length_map)

lemma agrees_nth:
  "agrees ctx env h \<Longrightarrow> i < length env \<Longrightarrow> vc_stack ctx ! i = Moved \<longleftrightarrow> Take (env ! i) \<in> set h"
  unfolding agrees_def by (metis (mono_tags, lifting) length_map nth_map)

lemma agrees_snoc:
  "agrees ctx env h \<Longrightarrow> (\<forall>k. ev \<noteq> Take k) \<Longrightarrow> agrees ctx env (h @ [ev])"
  unfolding agrees_def by (auto simp: less_Suc_eq well_timed_snoc)

lemma agrees_take:
  assumes a: "agrees ctx env h" and i: "i < length env"
  shows "agrees (ctx\<lparr>vc_stack := (vc_stack ctx)[i := Moved]\<rparr>) env (h @ [Take (env ! i)])"
proof -
  have d: "distinct env" using a by (simp add: agrees_def)
  have "map (\<lambda>s. s = Moved) ((vc_stack ctx)[i := Moved]) = map (\<lambda>k. Take k \<in> set (h @ [Take (env ! i)])) env"
    using agrees_length[OF a] agrees_nth[OF a] d i
    by (intro nth_equalityI) (auto simp: nth_list_update nth_eq_iff_index_eq)
  moreover have "MutBorrowed \<notin> set ((vc_stack ctx)[i := Moved])"
    using a set_update_subset_insert[of "vc_stack ctx" i Moved] by (auto simp: agrees_def)
  ultimately show ?thesis
    using a i by (auto simp: agrees_def less_Suc_eq well_timed_snoc)
qed

text \<open>A single access.\<close>

lemma at_index_read:
  assumes "agrees ctx env h" "at_index read_slot i ctx = Inr ctx'" "safe_trace h"
  shows "agrees ctx' env (h @ [var_event Use env i]) \<and> safe_trace (h @ [var_event Use env i])"
  using assms agrees_length[OF assms(1)] agrees_nth[OF assms(1), of "slot env i"]
  by (auto simp: at_index_def read_slot_def var_event_def safe_trace_snoc slot_def
      intro: agrees_snoc split: if_split_asm)

lemma at_expand_read:
  assumes "agrees ctx env h" "at_expand read_slot x ctx = Inr ctx'" "safe_trace h"
  shows "agrees ctx' env (h @ [expand_event Use (vc_expand ctx) env x]) \<and>
    safe_trace (h @ [expand_event Use (vc_expand ctx) env x])"
  using assms agrees_length[OF assms(1)] agrees_nth[OF assms(1)]
  by (auto simp: at_expand_def read_slot_def expand_event_def safe_trace_snoc
      intro: agrees_snoc split: if_split_asm option.split_asm)

lemma at_index_move:
  assumes "agrees ctx env h" "at_index move_slot i ctx = Inr ctx'" "safe_trace h"
  shows "agrees ctx' env (h @ [var_event Take env i]) \<and> safe_trace (h @ [var_event Take env i])"
  using assms agrees_length[OF assms(1)] agrees_nth[OF assms(1), of "slot env i"]
    agrees_take[OF assms(1), of "slot env i"]
  by (auto simp: at_index_def move_slot_def var_event_def safe_trace_snoc slot_def
      split: if_split_asm)

lemma at_expand_move:
  assumes "agrees ctx env h" "at_expand move_slot x ctx = Inr ctx'" "safe_trace h"
  shows "agrees ctx' env (h @ [expand_event Take (vc_expand ctx) env x]) \<and>
    safe_trace (h @ [expand_event Take (vc_expand ctx) env x])"
  using assms agrees_length[OF assms(1)] agrees_nth[OF assms(1)] agrees_take[OF assms(1)]
  by (auto simp: at_expand_def move_slot_def expand_event_def safe_trace_snoc
      split: if_split_asm option.split_asm)

text \<open>Entering and leaving a scope.\<close>

lemma agrees_push:
  assumes "agrees ctx env h"
  shows "agrees (ctx\<lparr>vc_stack := vc_stack ctx @ [Available], vc_stack_shapes := ss\<rparr>)
    (env @ [length h]) (h @ [Bind (length h)])"
  using assms well_timed_less[of h "length h"]
  by (auto simp: agrees_def well_timed_snoc less_Suc_eq)

lemma agrees_pop:
  assumes "agrees ctx (env @ [k]) h"
  shows "agrees (ctx\<lparr>vc_stack := butlast (vc_stack ctx), vc_stack_shapes := ss\<rparr>) env h"
proof -
  have "map (\<lambda>s. s = Moved) (butlast (vc_stack ctx)) = map (\<lambda>k. Take k \<in> set h) env"
    using assms by (simp add: agrees_def map_butlast)
  with assms show ?thesis by (auto simp: agrees_def dest: in_set_butlastD)
qed

text \<open>Capturing the environment of a \<open>Trap\<close>, and coming back from it.\<close>

lemma agrees_capture:
  assumes a: "agrees ctx env h"
  shows "agrees (capture_context ctx) (live h env) h"
proof -
  have "filter captured (vc_stack ctx) = filter (\<lambda>s. s \<noteq> Moved) (vc_stack ctx)"
    using a unfolding agrees_def
    by (intro filter_cong) (auto simp: captured_def, metis var_state.exhaust)
  also have "length \<dots> = length (filter Not (map (\<lambda>s. s = Moved) (vc_stack ctx)))"
    by (simp add: filter_map o_def)
  also have "\<dots> = length (live h env)"
    using a by (simp add: agrees_def live_def filter_map o_def)
  finally have "map (\<lambda>s. s = Moved) (map (\<lambda>_. Borrowed) (filter captured (vc_stack ctx)))
      = map (\<lambda>k. Take k \<in> set h) (live h env)"
    by (intro nth_equalityI) (auto simp: live_def dest!: nth_mem)
  then show ?thesis
    using a by (auto simp: agrees_def capture_context_def live_def)
qed

definition all_borrowed :: "vctx \<Rightarrow> bool" where
  "all_borrowed ctx \<longleftrightarrow> (\<forall>s \<in> set (vc_stack ctx). s = Borrowed)"

lemma all_borrowed_capture: "all_borrowed (capture_context ctx)"
  by (simp add: all_borrowed_def capture_context_def)

lemma all_borrowed_step:
  assumes "ctx_step ctx ctx'" "all_borrowed ctx"
  shows "all_borrowed ctx'"
proof -
  have "\<forall>s \<in> set ys. s = Borrowed"
    if "list_all2 may_become xs ys" "\<forall>s \<in> set xs. s = Borrowed" for xs ys
    using that by (induction rule: list_all2_induct) (auto simp: may_become_def)
  with assms show ?thesis unfolding ctx_step_def all_borrowed_def by blast
qed

lemma all_borrowed_live:
  assumes "agrees c env h" "all_borrowed c" "k \<in> set env"
  shows "Take k \<notin> set h"
proof -
  obtain i where i: "i < length env" "env ! i = k"
    using assms(3) by (auto simp: in_set_conv_nth)
  then have "vc_stack c ! i = Borrowed"
    using assms(2) agrees_length[OF assms(1)] by (simp add: all_borrowed_def)
  then show ?thesis using agrees_nth[OF assms(1) i(1)] i by simp
qed

lemma agrees_return:
  assumes a: "agrees ctx env h" and c: "agrees c (live h env) h2" "all_borrowed c"
    and h2: "h2 = h @ evs"
  shows "agrees ctx env h2"
proof -
  have "Take k \<in> set h2 \<longleftrightarrow> Take k \<in> set h" if "k \<in> set env" for k
    using all_borrowed_live[OF c, of k] that by (auto simp: live_def h2)
  then have "map (\<lambda>k. Take k \<in> set h2) env = map (\<lambda>k. Take k \<in> set h) env" by simp
  moreover have "\<forall>k \<in> set env. k < length h2" using a by (auto simp: agrees_def h2)
  ultimately show ?thesis using a c(1) by (simp add: agrees_def)
qed

lemma agrees_prefix:
  assumes a: "agrees ctx env h" and c: "agrees c (live h env) (h @ evs)" "all_borrowed c"
  shows "agrees (capture_context ctx) (live h env) (h @ take n evs)"
proof -
  have cap: "agrees (capture_context ctx) (live h env) h" using a by (rule agrees_capture)
  have "Take k \<notin> set (h @ take n evs)" "Take k \<notin> set h" if "k \<in> set (live h env)" for k
    using all_borrowed_live[OF c, of k] that by (auto dest: in_set_takeD)
  then have "map (\<lambda>k. Take k \<in> set (h @ take n evs)) (live h env) = map (\<lambda>k. Take k \<in> set h) (live h env)"
    by simp
  moreover have "well_timed (h @ take n evs)"
    using c(1) well_timed_take[of "h @ evs" "length h + n"] by (simp add: agrees_def)
  ultimately show ?thesis using cap by (auto simp: agrees_def)
qed

text \<open>The checks do not change the context, so a strict construct verifies its operands.\<close>

lemma checks_keep:
  "check_field inst field ctx = Inr ctx' \<Longrightarrow> ctx' = ctx"
  "check_shape name ctx = Inr ctx' \<Longrightarrow> ctx' = ctx"
  "check_inferred e ctx = Inr ctx' \<Longrightarrow> ctx' = ctx"
  "check_map_field e field ctx = Inr ctx' \<Longrightarrow> ctx' = ctx"
  "check_func func ctx = Inr ctx' \<Longrightarrow> ctx' = ctx"
  "check_callee func ctx = Inr ctx' \<Longrightarrow> ctx' = ctx"
  "verify_identifier name ctx = Inr ctx' \<Longrightarrow> ctx' = ctx"
  by (auto simp: check_field_def check_shape_def check_inferred_def check_map_field_def
      check_func_def check_callee_def verify_identifier_def
      split: option.split_asm expr.split_asm if_split_asm)

lemma verify_literal: "is_literal e \<Longrightarrow> verify_expr e ctx = Inr ctx"
  by (cases e) (simp_all add: is_literal_def)

lemma rbind_Inr_right: "rbind r Inr = r"
  by (cases r) simp_all

lemma verify_operands:
  assumes "verify_expr e ctx = Inr ctx'" "strict e" "plain_node e"
  shows "verify_seq (map verify_expr (operands e)) ctx = Inr ctx'"
  using assms
  by (cases e)
     (auto simp: strict_def operands_def plain_node_def is_variable_def rbind_Inr_iff
        verify_literal verify_move_def
        split: if_split_asm expr.split_asm dest: checks_keep)

lemma plain_parts: "plain e \<Longrightarrow> e' \<in> set (parts e) \<Longrightarrow> plain e'"
  by (subst (asm) plain.simps) simp

lemma plain_operands: "plain e \<Longrightarrow> strict e \<Longrightarrow> e' \<in> set (operands e) \<Longrightarrow> plain e'"
  by (rule plain_parts) (auto simp: parts_def strict_def split: expr.split)

lemma plain_plain_node: "plain e \<Longrightarrow> plain_node e"
  by (subst (asm) plain.simps) simp

lemma verify_trap_Inr:
  "verify_trap t f ctx = Inr ctx' \<longleftrightarrow> ctx' = ctx \<and>
     (\<exists>c1. t (capture_context ctx) = Inr c1) \<and> (\<exists>c2. f (capture_context ctx) = Inr c2)"
  by (auto simp: verify_trap_def rbind_Inr_iff)

lemma trap_states:
  assumes "verify_expr t (capture_context ctx) = Inr c"
  shows "all_borrowed c"
  by (rule all_borrowed_step[OF verify_expr_step[OF assms] all_borrowed_capture])

lemma runs_sound:
  "runs xm env e h h' \<Longrightarrow> plain e \<Longrightarrow> agrees ctx env h \<Longrightarrow> vc_expand ctx = xm \<Longrightarrow>
     verify_expr e ctx = Inr ctx' \<Longrightarrow> safe_trace h \<Longrightarrow> agrees ctx' env h' \<and> safe_trace h'"
  "runs_all xm env es h h' \<Longrightarrow> \<forall>e \<in> set es. plain e \<Longrightarrow> agrees ctx env h \<Longrightarrow> vc_expand ctx = xm \<Longrightarrow>
     verify_seq (map verify_expr es) ctx = Inr ctx' \<Longrightarrow> safe_trace h \<Longrightarrow>
     agrees ctx' env h' \<and> safe_trace h'"
proof (induction arbitrary: ctx ctx' and ctx ctx' rule: runs_runs_all.inducts)
  case (var env i h)
  then show ?case by (simp add: at_index_read)
next
  case (xvar env x h)
  then show ?case using at_expand_read[of ctx env h x ctx'] by simp
next
  case (move env i h)
  then show ?case by (simp add: verify_move_def at_index_move)
next
  case (xmove env x h)
  then show ?case using at_expand_move[of ctx env h x ctx'] by (simp add: verify_move_def)
next
  case (let_in env v h h1 b h2 x)
  from let_in.prems(4) obtain ctx1 ctx2 where 1: "verify_expr v ctx = Inr ctx1"
    and 2: "verify_expr b (ctx1\<lparr>vc_stack := vc_stack ctx1 @ [Available],
       vc_stack_shapes := vc_stack_shapes ctx1 @ [infer_shape v (vc_stack_shapes ctx1)]\<rparr>) = Inr ctx2"
    and ctx': "ctx' = ctx2\<lparr>vc_stack := butlast (vc_stack ctx2),
       vc_stack_shapes := butlast (vc_stack_shapes ctx2)\<rparr>"
    by (auto simp: verify_let_def rbind_Inr_iff)
  have p: "plain v" "plain b" using plain_parts[OF let_in.prems(1)] by (simp_all add: parts_def)
  have v: "agrees ctx1 env h1 \<and> safe_trace h1"
    by (rule let_in.IH(2)[OF p(1) let_in.prems(2,3) 1 let_in.prems(5)])
  have "agrees ctx2 (env @ [length h1]) h2 \<and> safe_trace h2"
    by (rule let_in.IH(4)[OF p(2) agrees_push _ 2])
       (use v ctx_step_frame[OF verify_expr_step[OF 1]] let_in.prems(3) in
         \<open>simp_all add: safe_trace_snoc\<close>)
  then show ?case by (auto simp: ctx' intro: agrees_pop)
next
  case (if_true env c h h1 t h2 f)
  from if_true.prems(4) obtain ctx1 ctx2 ctx3 where 1: "verify_expr c ctx = Inr ctx1"
    and 2: "verify_expr t ctx1 = Inr ctx2"
    and 3: "verify_expr f (ctx2\<lparr>vc_stack := vc_stack ctx1, vc_stack_shapes := vc_stack_shapes ctx1\<rparr>) = Inr ctx'"
    and eq: "vc_stack ctx2 = vc_stack ctx'"
    by (auto simp: verify_if_def rbind_Inr_iff split: if_split_asm)
  have p: "plain c" "plain t" using plain_parts[OF if_true.prems(1)] by (simp_all add: parts_def)
  have c: "agrees ctx1 env h1 \<and> safe_trace h1"
    by (rule if_true.IH(2)[OF p(1) if_true.prems(2,3) 1 if_true.prems(5)])
  have "agrees ctx2 env h2 \<and> safe_trace h2"
    by (rule if_true.IH(4)[OF p(2) _ _ 2])
       (use c ctx_step_frame[OF verify_expr_step[OF 1]] if_true.prems(3) in simp_all)
  then show ?case by (simp add: agrees_def eq)
next
  case (if_false env c h h1 f h2 t)
  from if_false.prems(4) obtain ctx1 ctx2 where 1: "verify_expr c ctx = Inr ctx1"
    and 2: "verify_expr t ctx1 = Inr ctx2"
    and 3: "verify_expr f (ctx2\<lparr>vc_stack := vc_stack ctx1, vc_stack_shapes := vc_stack_shapes ctx1\<rparr>) = Inr ctx'"
    by (auto simp: verify_if_def rbind_Inr_iff split: if_split_asm)
  have p: "plain c" "plain f" using plain_parts[OF if_false.prems(1)] by (simp_all add: parts_def)
  have c: "agrees ctx1 env h1 \<and> safe_trace h1"
    by (rule if_false.IH(2)[OF p(1) if_false.prems(2,3) 1 if_false.prems(5)])
  show ?case
    by (rule if_false.IH(4)[OF p(2) _ _ 3])
       (use c ctx_step_frame[OF verify_expr_step[OF 1]] ctx_step_frame[OF verify_expr_step[OF 2]]
         if_false.prems(3) in \<open>simp_all add: agrees_def\<close>)
next
  case (trap_ok h env t h1 f)
  from trap_ok.prems(4) obtain c1 where t: "verify_expr t (capture_context ctx) = Inr c1"
    and ctx': "ctx' = ctx"
    unfolding verify_expr.simps verify_trap_Inr by blast
  have p: "plain t" using plain_parts[OF trap_ok.prems(1)] by (simp add: parts_def)
  obtain evs where h1: "h1 = h @ evs" using runs_extends(1)[OF trap_ok.IH(1)] by blast
  have "agrees c1 (live h env) h1 \<and> safe_trace h1"
    by (rule trap_ok.IH(2)[OF p agrees_capture _ t])
       (use trap_ok.prems in \<open>simp_all add: capture_context_def\<close>)
  then show ?case
    using agrees_return[OF trap_ok.prems(2) _ trap_states[OF t] h1] by (simp add: ctx')
next
  case (trap_panic h env t h1 n f h2)
  from trap_panic.prems(4) obtain c1 c2 where t: "verify_expr t (capture_context ctx) = Inr c1"
    and f: "verify_expr f (capture_context ctx) = Inr c2" and ctx': "ctx' = ctx"
    unfolding verify_expr.simps verify_trap_Inr by blast
  have p: "plain t" "plain f" using plain_parts[OF trap_panic.prems(1)] by (simp_all add: parts_def)
  obtain evs where h1: "h1 = h @ evs" using runs_extends(1)[OF trap_panic.IH(1)] by blast
  let ?evs = "take (n - length h) evs"
  have tk: "take n h1 = h @ ?evs" using trap_panic.hyps by (simp add: h1)
  have 1: "agrees c1 (live h env) h1 \<and> safe_trace h1"
    by (rule trap_panic.IH(2)[OF p(1) agrees_capture _ t])
       (use trap_panic.prems in \<open>simp_all add: capture_context_def\<close>)
  have safe: "safe_trace (h @ ?evs)"
    using 1 safe_trace_prefix[of "h @ ?evs" "drop (n - length h) evs"] by (simp add: h1)
  have "agrees (capture_context ctx) (live h env) (h @ ?evs)"
    using 1 agrees_prefix[OF trap_panic.prems(2) _ trap_states[OF t]] by (simp add: h1)
  then have 2: "agrees c2 (live h env) h2 \<and> safe_trace h2"
    using trap_panic.IH(4)[OF p(2) _ _ f, unfolded tk] safe trap_panic.prems(3)
    by (simp add: capture_context_def)
  obtain evs2 where "h2 = h @ evs2"
    using runs_extends(1)[OF trap_panic.IH(3)] tk by auto
  from agrees_return[OF trap_panic.prems(2) _ trap_states[OF f] this] 2 show ?case
    by (simp add: ctx')
next
  case (strict e env h h')
  have "\<forall>e' \<in> set (operands e). plain e'"
    using plain_operands[OF strict.prems(1) strict.hyps] by blast
  then show ?case
    by (rule strict.IH(2)[OF _ strict.prems(2,3) _ strict.prems(5)])
       (rule verify_operands[OF strict.prems(4) strict.hyps plain_plain_node[OF strict.prems(1)]])
next
  case (none env h)
  then show ?case by simp
next
  case (more env e h h1 es h2)
  from more.prems(4) obtain c1 where 1: "verify_expr e ctx = Inr c1"
    and 2: "verify_seq (map verify_expr es) c1 = Inr ctx'"
    by (auto simp: rbind_Inr_iff)
  have "agrees c1 env h1 \<and> safe_trace h1"
    by (rule more.IH(2)[OF _ more.prems(2,3) 1 more.prems(5)]) (use more.prems in simp)
  then show ?case
    using more.IH(4)[OF _ _ _ 2] more.prems ctx_step_frame[OF verify_expr_step[OF 1]] by simp
qed

section \<open>Verified modules\<close>

definition entry_env :: "param list \<Rightarrow> nat list" where
  "entry_env params = [0..<length params]"

definition entry_history :: "param list \<Rightarrow> history" where
  "entry_history params = map Bind (entry_env params)"

lemma agrees_entry: "agrees (entry_context ds params) (entry_env params) (entry_history params)"
  by (auto simp: agrees_def entry_context_def entry_env_def entry_history_def well_timed_def
      map_replicate_const[symmetric] intro!: nth_equalityI)

lemma safe_entry: "safe_trace (map Bind ks)"
  by (induction ks) auto

lemma verify_defs_None:
  "verify_defs filename ds es = None \<Longrightarrow> e \<in> set es \<Longrightarrow> verify_top filename ds e = None"
  by (induction es) (auto split: option.split_asm)

lemma verify_module_body:
  assumes "verify_module es filename = None" "e \<in> set es"
    and "unwrap_metadata e = Define name params body exported"
  obtains ctx where "verify_expr body (entry_context (register_all es) params) = Inr ctx"
  using verify_defs_None[OF assms(1)[unfolded verify_module_def] assms(2)] assms(3)
  by (auto simp: verify_top_def split: sum.split_asm)

text \<open>Every body has a run, so the theorems below are not about nothing.\<close>

lemma runs_total: "\<exists>h'. runs xm env e h h'"
proof (induction "size e" arbitrary: e env h rule: less_induct)
  case less
  have all: "\<exists>h'. runs_all xm env es h h'"
    if "\<forall>e' \<in> set es. size e' < size e" for es env h
    using that
  proof (induction es arbitrary: h)
    case (Cons a es)
    obtain h1 where "runs xm env a h h1" using less[of a env h] Cons.prems by auto
    moreover obtain h2 where "runs_all xm env es h1 h2" using Cons.IH[of h1] Cons.prems by auto
    ultimately show ?case by (blast intro: more)
  qed (blast intro: none)
  show ?case
  proof (cases "strict e")
    case True
    have "parts e = operands e" using True by (simp add: parts_def strict_def split: expr.splits)
    then have "\<forall>e' \<in> set (operands e). size e' < size e" using parts_size[of _ e] by simp
    with all show ?thesis using True by (blast intro: strict)
  next
    case False
    then consider i where "e = DeBruijn i" | x where "e = Expand x"
      | i where "e = Move (DeBruijn i)" | x where "e = Move (Expand x)"
      | x v b where "e = Let x v b" | c t f where "e = If c t f" | t f where "e = Trap t f"
      by (cases e) (auto simp: strict_def is_variable_def split: expr.split_asm)
    then show ?thesis
    proof cases
      case (5 x v b)
      then show ?thesis using less[of v] less[of b] by (force intro: let_in)
    next
      case (6 c t f)
      then show ?thesis using less[of c] less[of t] by (force intro: if_true)
    next
      case (7 t f)
      then show ?thesis using less[of t] by (force intro: trap_ok)
    qed (blast intro: var xvar move xmove)+
  qed
qed

lemma verified_body_safe:
  assumes "verify_module es filename = None" "e \<in> set es"
    and "unwrap_metadata e = Define name params body exported" "plain body"
    and "runs (expand_params 0 params Map.empty) (entry_env params) body (entry_history params) h"
  shows "safe_trace h"
proof -
  obtain ctx where "verify_expr body (entry_context (register_all es) params) = Inr ctx"
    using verify_module_body[OF assms(1-3)] .
  with runs_sound(1)[OF assms(5,4) agrees_entry] safe_entry show ?thesis
    by (simp add: entry_context_def entry_history_def)
qed

text \<open>C2: what the verifier is for.  In a module that passes \<open>verify_module\<close>, on every run of
  the body of a definition, through every choice of branches and every panic caught by a
  \<open>Trap\<close>, no variable is read or moved after it was moved, and no variable access is
  outside the stack.  The body is plain: it has no nested definition, and its metadata is
  literal.\<close>

theorem verified_function_safe:
  assumes "verify_module es filename = None" "e \<in> set es"
    and "unwrap_metadata e = Define name params body exported" "plain body"
    and "runs (expand_params 0 params Map.empty) (entry_env params) body (entry_history params) h"
  shows "safe_trace h"
  by (rule verified_body_safe[OF assms])

text \<open>\<open>: f x y ? y > x > x\<close>, and the run that takes the first branch.\<close>

definition demo_params :: "param list" where
  "demo_params = [\<lparr>param_name = ''x'', param_expand = False\<rparr>, \<lparr>param_name = ''y'', param_expand = False\<rparr>]"

definition demo_body :: expr where
  "demo_body = If (DeBruijn 0) (Move (DeBruijn 1)) (Move (DeBruijn 1))"

definition demo_module :: "expr list" where
  "demo_module = [Define ''f'' demo_params demo_body True]"

lemma demo_verified: "verify_module demo_module ''m'' = None"
  by (simp add: demo_module_def demo_params_def demo_body_def verify_module_def register_all_def
      register_def unwrap_metadata_def verify_top_def entry_context_def verify_if_def
      at_index_def read_slot_def slot_def verify_move_def move_slot_def)

lemma demo_plain: "plain demo_body"
  by (simp add: demo_body_def plain_eqs)

lemma demo_expand: "expand_params 0 demo_params Map.empty = Map.empty"
  by (simp add: demo_params_def)

lemma demo_run:
  "runs (expand_params 0 demo_params Map.empty) (entry_env demo_params) demo_body
     (entry_history demo_params) [Bind 0, Bind 1, Use 1, Take 0]"
proof -
  have "runs Map.empty [0, 1] (DeBruijn 0) [Bind 0, Bind 1] [Bind 0, Bind 1, Use 1]"
    using runs_runs_all.var[of Map.empty "[0, 1]" 0 "[Bind 0, Bind 1]"]
    by (simp add: var_event_def slot_def)
  moreover have "runs Map.empty [0, 1] (Move (DeBruijn 1)) [Bind 0, Bind 1, Use 1]
      [Bind 0, Bind 1, Use 1, Take 0]"
    using runs_runs_all.move[of Map.empty "[0, 1]" 1 "[Bind 0, Bind 1, Use 1]"]
    by (simp add: var_event_def slot_def)
  ultimately show ?thesis
    by (simp add: demo_expand demo_body_def)
       (simp add: entry_env_def entry_history_def demo_params_def upt_rec if_true)
qed

lemma demo_module_member:
  "Define ''f'' demo_params demo_body True \<in> set demo_module"
  "unwrap_metadata (Define ''f'' demo_params demo_body True)
     = Define ''f'' demo_params demo_body True"
  by (simp_all add: demo_module_def unwrap_metadata_def)

lemma verified_function_safe_witness: "safe_trace [Bind 0, Bind 1, Use 1, Take 0]"
  by (rule verified_function_safe[OF demo_verified demo_module_member demo_plain demo_run])

text \<open>C6: the check of the branches (E009) does what the code generator needs to place its drops
  at compile time: all runs of a verified body, which is plain, move the same parameters.\<close>

theorem verified_moves_agree:
  assumes "verify_module es filename = None" "e \<in> set es"
    and "unwrap_metadata e = Define name params body exported" "plain body"
    and "runs (expand_params 0 params Map.empty) (entry_env params) body (entry_history params) h1"
    and "runs (expand_params 0 params Map.empty) (entry_env params) body (entry_history params) h2"
    and "k < length params"
  shows "Take k \<in> set h1 \<longleftrightarrow> Take k \<in> set h2"
proof -
  obtain ctx where v: "verify_expr body (entry_context (register_all es) params) = Inr ctx"
    using verify_module_body[OF assms(1-3)] .
  have "agrees ctx (entry_env params) h"
    if "runs (expand_params 0 params Map.empty) (entry_env params) body (entry_history params) h" for h
    using runs_sound(1)[OF that assms(4) agrees_entry _ v] safe_entry
    by (simp add: entry_context_def entry_history_def)
  from agrees_nth[OF this[OF assms(5)], of k] agrees_nth[OF this[OF assms(6)], of k] assms(7)
  show ?thesis by (simp add: entry_env_def)
qed

text \<open>\<open>: f x y ? y > x ; y > x\<close>: the second branch also reads \<open>y\<close>.\<close>

definition branches :: expr where
  "branches = If (DeBruijn 0) (Move (DeBruijn 1)) (Seq (DeBruijn 0) (Move (DeBruijn 1)))"

definition branches_module :: "expr list" where
  "branches_module = [Define ''f'' demo_params branches True]"

lemma branches_verified: "verify_module branches_module ''m'' = None" "plain branches"
  by (simp add: branches_module_def demo_params_def branches_def verify_module_def register_all_def
      register_def unwrap_metadata_def verify_top_def entry_context_def verify_if_def
      at_index_def read_slot_def slot_def verify_move_def move_slot_def)
    (simp add: branches_def plain_eqs, subst plain.simps,
      simp add: plain_node_def parts_def operands_def plain_eqs)

lemma read_y: "runs Map.empty [0, 1] (DeBruijn 0) h (h @ [Use 1])"
  using runs_runs_all.var[of Map.empty "[0, 1]" 0 h] by (simp add: var_event_def slot_def)

lemma take_x: "runs Map.empty [0, 1] (Move (DeBruijn 1)) h (h @ [Take 0])"
  using runs_runs_all.move[of Map.empty "[0, 1]" 1 h] by (simp add: var_event_def slot_def)

lemma branches_runs:
  "runs Map.empty [0, 1] branches h (h @ [Use 1, Take 0])"
  "runs Map.empty [0, 1] branches h (h @ [Use 1, Use 1, Take 0])"
proof -
  show "runs Map.empty [0, 1] branches h (h @ [Use 1, Take 0])"
    using if_true[where f = "Seq (DeBruijn 0) (Move (DeBruijn 1))", OF read_y[of h] take_x[of "h @ [Use 1]"]]
    by (simp add: branches_def)
  have "runs Map.empty [0, 1] (Seq (DeBruijn 0) (Move (DeBruijn 1))) h (h @ [Use 1, Take 0])" for h
    using more[OF read_y[of h] more[OF take_x[of "h @ [Use 1]"] none]]
    by (intro runs_runs_all.strict) (simp_all add: strict_def operands_def)
  from if_false[where t = "Move (DeBruijn 1)", OF read_y[of h] this[of "h @ [Use 1]"]]
  show "runs Map.empty [0, 1] branches h (h @ [Use 1, Use 1, Take 0])"
    by (simp add: branches_def)
qed

lemma verified_moves_agree_witness:
  "Take 0 \<in> set [Bind 0, Bind 1, Use 1, Take 0] \<longleftrightarrow> Take 0 \<in> set [Bind 0, Bind 1, Use 1, Use 1, Take 0]"
proof (rule verified_moves_agree[OF branches_verified(1) _ _ branches_verified(2)])
  show "Define ''f'' demo_params branches True \<in> set branches_module"
    by (simp add: branches_module_def)
qed (use branches_runs[of "[Bind 0, Bind 1]"] in \<open>simp_all add: unwrap_metadata_def demo_expand\<close>,
    simp_all add: entry_env_def entry_history_def demo_params_def upt_rec)

section \<open>The capture of a \<open>Trap\<close>\<close>

text \<open>
  The environment captured by a \<open>Trap\<close> holds only the live variables, but the indices inside
  it were resolved by the parser against all of them, and nothing adjusts them.
\<close>

lemma slot_iff: "index < length xs \<Longrightarrow> xs ! slot xs index = rev xs ! index"
  by (simp add: slot_def rev_nth)

lemma verify_borrowed_index:
  "verify_expr (Borrow (DeBruijn i)) ctx =
     (if length (vc_stack ctx) \<le> i then Inl ''E003''
      else if rev (vc_stack ctx) ! i = Moved then Inl ''E004'' else Inr ctx)"
  by (simp add: at_index_def read_slot_def slot_iff)

lemma verify_trapped_index:
  "verify_expr (Trap (Borrow (DeBruijn i)) (Integer n)) ctx =
     (if i < length (filter captured (vc_stack ctx)) then Inr ctx else Inl ''E003'')"
  by (simp add: verify_trap_def at_index_def read_slot_def capture_context_def slot_def)

text \<open>C12: after a move, a \<open>Trap\<close> takes one variable for another.  Below a moved variable let
  the parameter at the bottom of the stack be live, and above it let all variables be live.  A
  borrow of the moved variable is a use after a move (E004), but the verifier accepts it inside a
  \<open>Trap\<close>; a borrow of the live parameter at the bottom is accepted, but inside a \<open>Trap\<close> it is
  refused as an access outside the stack (E003).\<close>

theorem trap_misnames_variables:
  assumes "vc_stack ctx = lower @ Moved # upper" "\<forall>v\<in>set upper. captured v"
    and "lower \<noteq> []" "captured (hd lower)"
  shows "verify_expr (Borrow (DeBruijn (length upper))) ctx = Inl ''E004'' \<and>
    verify_expr (Trap (Borrow (DeBruijn (length upper))) (Integer n)) ctx = Inr ctx \<and>
    verify_expr (Borrow (DeBruijn (length upper + length lower))) ctx = Inr ctx \<and>
    verify_expr (Trap (Borrow (DeBruijn (length upper + length lower))) (Integer n)) ctx
      = Inl ''E003''"
proof -
  obtain v vs where l: "lower = v # vs" using assms(3) by (cases lower) auto
  have v: "captured v" "v \<noteq> Moved" using assms(4) l by (auto simp: captured_def)
  have u: "filter captured upper = upper" using assms(2) by simp
  have m: "\<not> captured Moved" by (simp add: captured_def)
  show ?thesis
    unfolding verify_borrowed_index verify_trapped_index
    using v u m by (simp add: assms(1) l nth_append not_less)
qed

lemma trap_misnames_variables_witness:
  "\<exists>ctx. vc_stack ctx = [Available, Available] @ Moved # [Borrowed] \<and>
     verify_expr (Borrow (DeBruijn 1)) ctx = Inl ''E004'' \<and>
     verify_expr (Trap (Borrow (DeBruijn 1)) (Integer 0)) ctx = Inr ctx"
proof -
  let ?ctx = "\<lparr>vc_shapes = [], vc_functions = Map.empty,
    vc_stack = [Available, Available, Moved, Borrowed], vc_stack_shapes = [None, None, None, None],
    vc_expand = Map.empty\<rparr>"
  show ?thesis
    using trap_misnames_variables[of ?ctx "[Available, Available]" "[Borrowed]" 0]
    by (intro exI[of _ ?ctx]) (simp add: captured_def)
qed

end
