(* ===== verification/Gen_Ownership.thy ===== *)
theory Gen_Ownership
  imports Templates Ownership "HOL-Library.Sublist"
begin

text \<open>
  The code generator keeps ownership states of its own, and panics where they are violated
  (\<open>E003\<close>, \<open>E004\<close>, \<open>E005\<close>, \<open>E009\<close>, \<open>E016\<close>).  Here it is shown to go through the same states
  as the verifier, so that these panics cannot happen on verified code.
\<close>

section \<open>Steps that leave the stack alone\<close>

definition quiet :: "gen_state \<Rightarrow> gen_state \<Rightarrow> bool" where
  "quiet s s' \<longleftrightarrow> gs_stack s' = gs_stack s \<and> same_tables s s'"

definition ownership_panic :: "fail \<Rightarrow> bool" where
  "ownership_panic f \<longleftrightarrow> (\<exists>msg \<in> set ownership_panics. f = Panicked msg)"

abbreviation sound_fail :: "gen_state \<Rightarrow> fail \<Rightarrow> bool" where
  "sound_fail s f \<equiv> \<not> ownership_panic f"

lemma not_ownership_panic [simp]:
  "msg \<notin> set ownership_panics \<Longrightarrow> \<not> ownership_panic (Panicked msg)" "\<not> ownership_panic NoFuel"
  by (auto simp: ownership_panic_def)

lemma emitted_stack [simp]: "gs_stack (emitted i s) = gs_stack s"
  by (simp add: emitted_def)

lemma quiet_refl [simp]: "quiet s s"
  by (simp add: quiet_def)

lemma quiet_trans: "quiet a b \<Longrightarrow> quiet b c \<Longrightarrow> quiet a c"
  by (auto simp: quiet_def intro: same_tables_trans)

interpretation quiet: control_steps quiet sound_fail
  by unfold_locales (auto simp: quiet_def ownership_panic_def benign_def intro: same_tables_trans)

lemma quiet_depth: "keeps quiet sound_fail (gmodify (\<lambda>s. s\<lparr>gs_depth := d\<rparr>))"
  by (simp add: keeps_def quiet_def)

section \<open>Following the verifier\<close>

text \<open>
  The generator and the verifier agree on the states of the variables; what else the generator
  knows of the variables at the bottom of the stack does not change.
\<close>

type_synonym core = "val \<times> string option \<times> bool"

definition core :: "stack_item \<Rightarrow> core" where
  "core item = (si_value item, si_shape item, si_is_ptr item)"

lemma core_state [simp]: "core (item\<lparr>si_state := st\<rparr>) = core item"
  by (simp add: core_def)

lemma core_update [simp]: "(map core xs)[i := core (xs ! i)] = map core xs"
  by (metis list_update_id map_update)

definition mirrors :: "expand_map \<Rightarrow> core list \<Rightarrow> vctx \<Rightarrow> gen_state \<Rightarrow> bool" where
  "mirrors em cs ctx s \<longleftrightarrow>
     vc_stack ctx = map si_state (gs_stack s) \<and> vc_expand ctx = em \<and> cg_templates (gs_cg s) = [] \<and>
     prefix cs (map core (gs_stack s))"

definition follows :: "expand_map \<Rightarrow> verifier \<Rightarrow> 'a gen \<Rightarrow> bool" where
  "follows em v g \<longleftrightarrow>
     (\<forall>cs ctx ctx' s. v ctx = Inr ctx' \<longrightarrow> mirrors em cs ctx s \<longrightarrow> wp g (\<lambda>x. mirrors em cs ctx') (sound_fail s) s)"

lemma followsI:
  "(\<And>cs ctx ctx' s. v ctx = Inr ctx' \<Longrightarrow> mirrors em cs ctx s \<Longrightarrow> wp g (\<lambda>x. mirrors em cs ctx') (sound_fail s) s) \<Longrightarrow>
   follows em v g"
  by (simp add: follows_def)

lemma followsD:
  "follows em v g \<Longrightarrow> v ctx = Inr ctx' \<Longrightarrow> mirrors em cs ctx s \<Longrightarrow> wp g (\<lambda>x. mirrors em cs ctx') (sound_fail s) s"
  by (simp add: follows_def)

lemma mirrors_quiet: "mirrors em cs ctx s \<Longrightarrow> quiet s s' \<Longrightarrow> mirrors em cs ctx s'"
  by (auto simp: mirrors_def quiet_def same_tables_def)

lemma follows_quiet: "keeps quiet sound_fail g \<Longrightarrow> follows em Inr g"
proof (rule followsI)
  fix cs ctx ctx' s
  assume "keeps quiet sound_fail g" and m: "Inr ctx = Inr ctx'" "mirrors em cs ctx s"
  then have "wp g (\<lambda>x. quiet s) (sound_fail s) s" by (simp add: keeps_def)
  then show "wp g (\<lambda>x. mirrors em cs ctx') (sound_fail s) s"
    by (rule wp_mono) (use m in \<open>auto intro: mirrors_quiet\<close>)
qed

lemma follows_bind:
  assumes "follows em v m" "\<And>x. follows em w (k x)"
  shows "follows em (\<lambda>ctx. rbind (v ctx) w) (gbind m k)"
proof (rule followsI)
  fix cs ctx ctx' s
  assume "rbind (v ctx) w = Inr ctx'" "mirrors em cs ctx s"
  then obtain c where "v ctx = Inr c" "w c = Inr ctx'" by (auto simp: rbind_Inr_iff)
  with assms \<open>mirrors em cs ctx s\<close> show "wp (gbind m k) (\<lambda>x. mirrors em cs ctx') (sound_fail s) s"
    unfolding wp_gbind by (blast intro: wp_mono dest: followsD)
qed

text \<open>The verifiers of the operands, in order; checks that leave the context as it is in between.\<close>

lemma follows_nil: "keeps quiet sound_fail g \<Longrightarrow> follows em (verify_seq []) g"
  using follows_quiet by (simp add: follows_def)

lemma follows_seq: "follows em v m \<Longrightarrow> (\<And>x. follows em (verify_seq vs) (k x)) \<Longrightarrow> follows em (verify_seq (v # vs)) (gbind m k)"
  using follows_bind[of em v m "verify_seq vs" k] by (simp add: follows_def)

lemma follows_last: "follows em v g \<Longrightarrow> follows em (verify_seq [v]) g"
  by (auto simp: follows_def rbind_Inr_iff)

lemma follows_skip: "keeps quiet sound_fail m \<Longrightarrow> (\<And>x. follows em v (k x)) \<Longrightarrow> follows em v (gbind m k)"
  using follows_bind[OF follows_quiet, of m em v k] by (simp add: follows_def)

lemma follows_prod: "(\<And>a b. p = (a, b) \<Longrightarrow> follows em v (f a b)) \<Longrightarrow> follows em v (case p of (a, b) \<Rightarrow> f a b)"
  by (cases p) simp

definition only_checks :: "verifier \<Rightarrow> bool" where
  "only_checks v \<longleftrightarrow> (\<forall>ctx ctx'. v ctx = Inr ctx' \<longrightarrow> ctx' = ctx)"

lemma only_checks [simp]:
  "only_checks (check_shape name)" "only_checks (check_inferred e)" "only_checks (check_map_field e fld)"
  "only_checks (check_func f)" "only_checks (check_callee f)" "only_checks (check_field e fld)"
  by (auto simp: only_checks_def check_shape_def check_inferred_def check_map_field_def check_func_def
      check_callee_def check_field_def split: if_split_asm option.split_asm expr.split_asm)

lemma follows_check: "only_checks v \<Longrightarrow> follows em (verify_seq vs) g \<Longrightarrow> follows em (verify_seq (v # vs)) g"
  unfolding follows_def only_checks_def by (clarsimp simp: rbind_Inr_iff) metis
section \<open>The arms\<close>

lemma other_panics [simp]:
  "''E006'' \<notin> set ownership_panics" "''E007'' \<notin> set ownership_panics" "''E008'' \<notin> set ownership_panics"
  "''E010'' \<notin> set ownership_panics" "''E012'' \<notin> set ownership_panics" "''E013'' \<notin> set ownership_panics"
  "''E013: Unknown identifier '' @ name \<notin> set ownership_panics"
  by (simp_all add: ownership_panics_def)

lemma quiet_arith: "keeps quiet sound_fail (emit i t)" "keeps quiet sound_fail (emit_void i)"
  by (fact quiet.keep_any_emit)+

lemma follows_money:
  "follows em vl gl \<Longrightarrow> follows em vr gr \<Longrightarrow> follows em (verify_seq [vl, vr]) (gen_money_op op gl gr)"
  unfolding gen_money_op_def Let_def
  by (rule follows_seq, assumption, rule follows_seq, assumption, rule follows_nil)
     (cases op; simp; intro kept; simp)

lemma follows_soa:
  "follows em v g \<Longrightarrow> follows em (verify_seq [check_shape shape, v]) (gen_new env shape g)"
  "follows em vi gi \<Longrightarrow> follows em vx gx \<Longrightarrow>
   follows em (verify_seq [vi, vx, check_field e fld]) (gen_get env e fld gi gx)"
  "follows em vi gi \<Longrightarrow> follows em vx gx \<Longrightarrow> follows em vv gv \<Longrightarrow>
   follows em (verify_seq [vi, vx, vv, check_field e fld]) (gen_set env e fld gi gx gv)"
  unfolding gen_new_def gen_get_def gen_set_def
  by ((rule follows_seq, assumption | rule follows_check, (simp; fail)
      | rule follows_skip, (intro kept; simp; fail)
      | rule follows_nil, (intro kept; simp; fail))+)
lemma follows_time:
  "follows em vl gl \<Longrightarrow> follows em vr gr \<Longrightarrow> follows em (verify_seq [vl, vr]) (gen_time_op op gl gr)"
  unfolding gen_time_op_def Let_def
  by (rule follows_seq, assumption, rule follows_seq, assumption, rule follows_nil)
     (cases op; simp; intro kept; simp)

lemma follows_texts:
  "follows em v g \<Longrightarrow> follows em (verify_seq [v]) (gen_len env e g)"
  "follows em v g \<Longrightarrow> follows em (verify_seq [v, check_inferred e]) (gen_pack env e g)"
  "follows em v g \<Longrightarrow> follows em (verify_seq [v, check_shape shape]) (gen_unpack env e shape g)"
  "follows em v g \<Longrightarrow> follows em (verify_seq [v]) (gen_panic env g)"
  "follows em v g \<Longrightarrow> follows em (verify_seq [v]) (gen_money_str env g)"
  unfolding gen_len_def gen_pack_def gen_unpack_def gen_panic_def gen_money_str_def
  by ((rule follows_seq, assumption | rule follows_check, (simp; fail)
      | rule follows_skip, (intro kept; simp; fail)
      | rule follows_nil, (intro kept; simp; fail))+)

lemma follows_columns:
  "follows em v g \<Longrightarrow>
   follows em (verify_seq [v, check_map_field e fld, check_func func]) (gen_map env e fld func g)"
  "follows em v g \<Longrightarrow>
   follows em (verify_seq [v, check_inferred e, check_func func]) (gen_filter env e func g)"
  unfolding gen_map_def gen_filter_def Let_def
  by ((rule follows_seq, assumption | rule follows_check, (simp; fail)
      | rule follows_skip, (intro kept; simp; fail)
      | rule follows_nil, (intro kept; simp; fail))+)

lemma follows_gen_all:
  "list_all2 (follows em) vs gs \<Longrightarrow> (\<And>xs. keeps quiet sound_fail (k xs)) \<Longrightarrow>
   follows em (verify_seq vs) (gbind (gen_all gs) k)"
proof (induction arbitrary: k rule: list_all2_induct)
  case Nil
  then show ?case by (simp add: follows_quiet)
next
  case (Cons v vs g gs)
  have *: "gbind (gen_all (g # gs)) k = gbind g (\<lambda>x. gbind (gen_all gs) (\<lambda>xs. k (x # xs)))"
    by (simp add: gbind_assoc)
  show ?case unfolding * using Cons by (intro follows_seq) simp_all
qed

lemma follows_runtime:
  "list_all2 (follows em) vs gs \<Longrightarrow> follows em (verify_seq vs) (runtime_op env name es gs)"
  "list_all2 (follows em) vs gs \<Longrightarrow> follows em (verify_seq vs) (gen_otel_emit env es gs)"
  unfolding runtime_op_def gen_otel_emit_def gen_async_def gbind_assoc
  by (intro follows_gen_all; (intro kept)?; auto intro!: kept)+

lemma follows_seq_arm:
  "follows em vl gl \<Longrightarrow> follows em vr gr \<Longrightarrow> follows em (verify_seq [vl, vr]) (gen_seq env e gl gr)"
  "list_all2 (follows em) vs gs \<Longrightarrow> follows em vr gr \<Longrightarrow>
   follows em (verify_seq [verify_seq vs, vr]) (gen_seq_http env es gs gr)"
proof -
  show "follows em (verify_seq [vl, vr]) (gen_seq env e gl gr)" if "follows em vl gl" "follows em vr gr"
    unfolding gen_seq_def using that
    by (intro follows_seq follows_last follows_skip[OF quiet.keep_maybe_drop])
  show "follows em (verify_seq [verify_seq vs, vr]) (gen_seq_http env es gs gr)"
    if "list_all2 (follows em) vs gs" "follows em vr gr"
    unfolding gen_seq_http_def gen_async_def using that
    by (intro follows_seq follows_last follows_gen_all) (auto intro!: kept)
qed

lemma follows_binary:
  assumes "follows em vl gl" "follows em vr gr" "\<And>s. \<not> hoistable env l s"
  shows "follows em (verify_seq [vl, vr]) (gen_binary_op env op l gl gr)"
proof -
  have "gen_binary_op env op l gl gr = gbind gl (\<lambda>lhs. gbind gr (numeric_op op lhs))"
    using assms(3) by (intro ext) (simp add: gen_binary_op_def gbind_def gget_def)
  with assms(1,2) show ?thesis
    by (auto intro!: follows_seq follows_nil kept)
qed

text \<open>Variables.\<close>

lemma wp_readers:
  "wp (gen_debruijn i) Q F s =
     (if i \<ge> length (gs_stack s) then F (Panicked ''E003'')
      else if si_state (gs_stack s ! slot (gs_stack s) i) = Moved then F (Panicked ''E004'')
      else Q (si_value (gs_stack s ! slot (gs_stack s) i)) s)"
  "wp (move_item i) Q F s =
     (if i \<ge> length (gs_stack s) then F (Panicked ''E003'')
      else if si_state (gs_stack s ! i) = Moved then F (Panicked ''E005'')
      else if si_state (gs_stack s ! i) = Borrowed then F (Panicked ''E016'')
      else Q (si_value (gs_stack s ! i))
        (s\<lparr>gs_stack := (gs_stack s)[i := (gs_stack s ! i)\<lparr>si_state := Moved\<rparr>]\<rparr>))"
  by (simp_all add: wp_def gen_debruijn_def move_item_def Let_def)

lemma slot_map [simp]: "slot (map f xs) i = slot xs i"
  by (simp add: slot_def)

lemma follows_variables:
  "follows em (at_index read_slot i) (gen_debruijn i)"
  "follows em (at_expand read_slot name) (gen_expand em name)"
  "follows em (verify_identifier name) (gen_identifier env name)"
proof -
  show "follows em (at_index read_slot i) (gen_debruijn i)"
    by (rule followsI) (auto simp: at_index_def read_slot_def mirrors_def wp_readers split: if_split_asm)
  show "follows em (at_expand read_slot name) (gen_expand em name)"
    by (rule followsI)
       (auto simp: at_expand_def read_slot_def mirrors_def gen_expand_def wp_def gbind_def expect_def
          greturn_def Let_def split: if_split_asm option.split_asm)
  have "keeps quiet sound_fail (gen_identifier env name)"
    unfolding gen_identifier_def by (intro kept) (simp add: ownership_panics_def)
  then have "follows em Inr (gen_identifier env name)" by (rule follows_quiet)
  then show "follows em (verify_identifier name) (gen_identifier env name)"
    by (auto simp: follows_def verify_identifier_def split: if_split_asm)
qed

lemma move_mirrors:
  assumes "move_slot i ctx = Inr ctx'" "mirrors em cs ctx s" "i < length (gs_stack s)"
  shows "wp (move_item i) (\<lambda>x. mirrors em cs ctx') (sound_fail s) s"
  using assms
  by (auto simp: move_slot_def mirrors_def wp_readers map_update split: if_split_asm)

lemma follows_move:
  assumes "follows em v g"
  shows "follows em (verify_move e v) (gen_move em e g)"
proof (cases e)
  case (DeBruijn i)
  show ?thesis
  proof (rule followsI)
    fix cs ctx ctx' s
    assume *: "verify_move e v ctx = Inr ctx'" "mirrors em cs ctx s"
    then have i: "i < length (gs_stack s)" and m: "move_slot (slot (gs_stack s) i) ctx = Inr ctx'"
      by (auto simp: DeBruijn verify_move_def at_index_def mirrors_def split: if_split_asm)
    have "wp (move_item (slot (gs_stack s) i)) (\<lambda>x. mirrors em cs ctx') (sound_fail s) s"
      using move_mirrors[OF m *(2)] i by simp
    then show "wp (gen_move em e g) (\<lambda>x. mirrors em cs ctx') (sound_fail s) s"
      using i by (simp add: DeBruijn gen_move_def wp_def)
  qed
next
  case (Expand name)
  show ?thesis
  proof (rule followsI)
    fix cs ctx ctx' s
    assume *: "verify_move e v ctx = Inr ctx'" "mirrors em cs ctx s"
    then obtain i where i: "em name = Some i" "i < length (gs_stack s)" and m: "move_slot i ctx = Inr ctx'"
      by (auto simp: Expand verify_move_def at_expand_def mirrors_def split: if_split_asm option.split_asm)
    then show "wp (gen_move em e g) (\<lambda>x. mirrors em cs ctx') (sound_fail s) s"
      using move_mirrors[OF m *(2)] by (simp add: Expand gen_move_def)
  qed
qed (use assms in \<open>simp_all add: verify_move_def gen_move_def\<close>)

section \<open>Binding and branching\<close>

text \<open>Steps of a longer run, as rules that go forward.\<close>

lemma wp_get_stack:
  "mirrors em cs ctx s \<Longrightarrow>
   (\<And>initial. map si_state initial = vc_stack ctx \<Longrightarrow> prefix cs (map core initial) \<Longrightarrow>
      mirrors em cs ctx s \<Longrightarrow> wp (k initial) Q F s) \<Longrightarrow>
   wp (gbind (gget gs_stack) k) Q F s"
  by (simp add: mirrors_def)

lemma wp_get_states:
  "mirrors em cs ctx s \<Longrightarrow> (mirrors em cs ctx s \<Longrightarrow> wp (k (vc_stack ctx)) Q F s) \<Longrightarrow>
   wp (gbind (gget (\<lambda>s. map si_state (gs_stack s))) k) Q F s"
  by (simp add: mirrors_def)

lemma wp_quiet:
  assumes "mirrors em cs ctx s" "keeps quiet sound_fail m"
    and "\<And>x s'. mirrors em cs ctx s' \<Longrightarrow> wp (k x) Q (sound_fail r) s'"
  shows "wp (gbind m k) Q (sound_fail r) s"
proof -
  have "wp m (\<lambda>x. quiet s) (sound_fail s) s" using assms(2) by (simp add: keeps_def)
  then show ?thesis
    unfolding wp_gbind by (rule wp_mono) (use assms(1,3) mirrors_quiet in \<open>blast+\<close>)
qed

lemma wp_follow:
  assumes "follows em v m" "v ctx = Inr ctx'" "mirrors em cs ctx s"
    and "\<And>x s'. mirrors em cs ctx' s' \<Longrightarrow> wp (k x) Q (sound_fail r) s'"
  shows "wp (gbind m k) Q (sound_fail r) s"
  unfolding wp_gbind by (rule wp_mono[OF followsD[OF assms(1-3)]]) (use assms(4) in blast)+

lemma restore_states:
  "length initial = length stack \<Longrightarrow> map si_state (restore initial stack) = map si_state initial"
  unfolding restore_def by (induction initial stack rule: list_induct2) simp_all

lemma prefix_nth: "prefix xs ys \<longleftrightarrow> length xs \<le> length ys \<and> (\<forall>i < length xs. xs ! i = ys ! i)"
proof
  show "prefix xs ys" if "length xs \<le> length ys \<and> (\<forall>i < length xs. xs ! i = ys ! i)"
  proof -
    from that have "take (length xs) ys = xs" by (intro nth_equalityI) auto
    then show ?thesis by (metis take_is_prefix)
  qed
qed (auto simp: prefix_def nth_append)

lemma restore_cores:
  assumes "length initial = length stack" "prefix cs (map core initial)" "prefix cs (map core stack)"
  shows "prefix cs (map core (restore initial stack))"
  using assms by (auto simp: prefix_nth restore_def core_def)

lemma wp_restore:
  assumes "mirrors em cs c2 s" "map si_state initial = vc_stack c1" "prefix cs (map core initial)"
    and "length (vc_stack c2) = length (vc_stack c1)"
    and "\<And>s'. mirrors em cs (c2\<lparr>vc_stack := vc_stack c1, vc_stack_shapes := vc_stack_shapes c1\<rparr>) s' \<Longrightarrow> wp (k ()) Q F s'"
  shows "wp (gbind (gmodify (\<lambda>s. s\<lparr>gs_stack := restore initial (gs_stack s)\<rparr>)) k) Q F s"
proof -
  have "length initial = length (gs_stack s)"
    using assms(1,2,4) by (metis length_map mirrors_def)
  then have "mirrors em cs (c2\<lparr>vc_stack := vc_stack c1, vc_stack_shapes := vc_stack_shapes c1\<rparr>)
      (s\<lparr>gs_stack := restore initial (gs_stack s)\<rparr>)"
    using assms(1-3) by (simp add: mirrors_def restore_states restore_cores)
  with assms(5) show ?thesis by simp
qed

lemma wp_check: "a = b \<Longrightarrow> wp (k ()) Q F s \<Longrightarrow> wp (gbind (if a \<noteq> b then gpanic msg else greturn ()) k) Q F s"
  by simp

lemma wp_last:
  assumes "mirrors em cs ctx s" "keeps quiet sound_fail m"
  shows "wp m (\<lambda>x. mirrors em cs ctx) (sound_fail r) s"
proof -
  have "wp m (\<lambda>x. quiet s) (sound_fail s) s" using assms(2) by (simp add: keeps_def)
  then show ?thesis by (rule wp_mono) (use assms(1) mirrors_quiet in \<open>blast+\<close>)
qed

lemma wp_push:
  assumes "mirrors em cs ctx s"
    and "\<And>s'. mirrors em cs (ctx\<lparr>vc_stack := vc_stack ctx @ [Available], vc_stack_shapes := shapes\<rparr>) s' \<Longrightarrow>
      length cs \<le> length (vc_stack ctx) \<Longrightarrow> wp (k ()) Q F s'"
  shows "wp (gbind (gmodify (\<lambda>s. s\<lparr>gs_stack := gs_stack s @
       [\<lparr>si_value = v, si_state = Available, si_shape = shape, si_is_ptr = is_ptr\<rparr>]\<rparr>)) k) Q F s"
proof -
  have "length cs \<le> length (vc_stack ctx)"
    using assms(1) by (auto simp: mirrors_def dest: prefix_length_le)
  with assms show ?thesis by (simp add: mirrors_def)
qed

lemma wp_pop:
  assumes "mirrors em cs ctx s" "length cs < length (vc_stack ctx)"
    and "\<And>s'. mirrors em cs (ctx\<lparr>vc_stack := butlast (vc_stack ctx), vc_stack_shapes := shapes\<rparr>) s' \<Longrightarrow>
      wp (k ()) Q F s'"
  shows "wp (gbind (gmodify (\<lambda>s. s\<lparr>gs_stack := butlast (gs_stack s)\<rparr>)) k) Q F s"
proof -
  have "prefix cs (butlast (map core (gs_stack s)))"
    using assms(1,2) by (cases "gs_stack s" rule: rev_cases) (auto simp: mirrors_def)
  with assms show ?thesis by (simp add: mirrors_def map_butlast)
qed

lemma follows_let:
  assumes "follows em vv gv" "follows em vb gb" "conservative vb"
  shows "follows em (verify_let e vv vb) (gen_let env e gv gb)"
proof (rule followsI)
  fix cs ctx ctx' s
  assume v: "verify_let e vv vb ctx = Inr ctx'" and m: "mirrors em cs ctx s"
  from v obtain c1 c2 where c: "vv ctx = Inr c1" "vb (c1\<lparr>vc_stack := vc_stack c1 @ [Available],
      vc_stack_shapes := vc_stack_shapes c1 @ [infer_shape e (vc_stack_shapes c1)]\<rparr>) = Inr c2"
    and [simp]: "ctx' = c2\<lparr>vc_stack := butlast (vc_stack c2), vc_stack_shapes := butlast (vc_stack_shapes c2)\<rparr>"
    by (auto simp: verify_let_def rbind_Inr_iff)
  have len: "length (vc_stack c2) = Suc (length (vc_stack c1))"
    using assms(3) c(2) by (auto simp: conservative_def ctx_step_def dest!: spec list_all2_lengthD)
  show "wp (gen_let env e gv gb) (\<lambda>x. mirrors em cs ctx') (sound_fail s) s"
    unfolding gen_let_def using m
    by - (erule wp_follow[OF assms(1) c(1)] wp_push wp_follow[OF assms(2) c(2)]
        | erule wp_pop[where shapes = "butlast (vc_stack_shapes c2)"], simp add: len | erule wp_quiet, (intro kept; fail) | (simp; fail))+
qed

lemma follows_if:
  assumes "follows em vc gc" "follows em vt gt" "follows em vf gf" "conservative vt"
  shows "follows em (verify_if vc vt vf) (gen_if gc gt gf)"
proof (rule followsI)
  fix cs ctx ctx' s
  assume v: "verify_if vc vt vf ctx = Inr ctx'" and m: "mirrors em cs ctx s"
  from v obtain c1 c2 where c: "vc ctx = Inr c1" "vt c1 = Inr c2"
    "vf (c2\<lparr>vc_stack := vc_stack c1, vc_stack_shapes := vc_stack_shapes c1\<rparr>) = Inr ctx'"
    and same: "vc_stack c2 = vc_stack ctx'"
    by (auto simp: verify_if_def rbind_Inr_iff split: if_split_asm)
  have len: "length (vc_stack c2) = length (vc_stack c1)"
    using assms(4) c(2) unfolding conservative_def ctx_step_def by (metis list_all2_lengthD)
  show "wp (gen_if gc gt gf) (\<lambda>x. mirrors em cs ctx') (sound_fail s) s"
    unfolding gen_if_def using m
    by (rule wp_follow[OF assms(1) c(1)])
       (erule wp_get_stack | erule wp_get_states | rule wp_check, rule same
        | erule wp_restore[OF _ _ _ len], assumption, assumption
        | erule wp_follow[OF assms(2) c(2)] | erule wp_follow[OF assms(3) c(3)]
        | erule wp_quiet, (intro kept; fail) | erule wp_last, (intro kept; fail))+
qed

section \<open>Traps and calls\<close>

lemma captures_states: "map si_state (captures stack) = filter captured (map si_state stack)"
  by (induction stack) (auto simp: captures_def captured_def)

lemma wp_load_captures:
  "wp (gen_all (map (\<lambda>(i, item).
       gbind (emit (Gep I64 (ParamVal 0 Ptr) (const_nat i)) Ptr) (\<lambda>member_ptr.
       gbind (emit (Load I64 member_ptr False) I64) (\<lambda>loaded.
       greturn (item\<lparr>si_value := loaded, si_state := Borrowed\<rparr>))))
       (enumerate n caps))) (\<lambda>items s'. map si_state items = map (\<lambda>_. Borrowed) caps \<and> quiet s s') (sound_fail r) s"
proof (induction caps arbitrary: n s)
  case (Cons c caps)
  have q: "quiet s (emitted j (emitted i s))" for i j
    by (rule quiet_trans[of _ "emitted i s"]) (simp_all add: quiet_def)
  show ?case by (simp, rule wp_mono[OF Cons]) (auto intro: quiet_trans[OF q])
qed simp

lemma wp_load:
  assumes "mirrors em cs ctx s" "map si_state caps = filter captured (vc_stack ctx)"
    and "\<And>items s'. mirrors em cs ctx s' \<Longrightarrow> map si_state items = vc_stack (capture_context ctx) \<Longrightarrow>
      wp (k items) Q (sound_fail r) s'"
  shows "wp (gbind (load_captures caps) k) Q (sound_fail r) s"
proof -
  have *: "vc_stack (capture_context ctx) = map (\<lambda>_. Borrowed) caps"
    using arg_cong[OF assms(2), of "map (\<lambda>_. Borrowed)"] by (simp add: capture_context_def o_def)
  show ?thesis
    unfolding wp_gbind load_captures_def
  proof (rule wp_mono[OF wp_load_captures])
    fix items :: "stack_item list" and s' assume "map si_state items = map (\<lambda>_. Borrowed) caps \<and> quiet s s'"
    then show "wp (k items) Q (sound_fail r) s'"
      by (intro assms(3)) (use mirrors_quiet[OF assms(1)] * in auto)
  qed simp
qed

lemma wp_inner:
  assumes "mirrors em cs ctx s" "map si_state items = vc_stack (capture_context ctx)"
    and "follows em v g" "v (capture_context ctx) = Inr c"
    and "\<And>p s'. mirrors em cs ctx s' \<Longrightarrow> wp (k p) Q (sound_fail r) s'"
  shows "wp (gbind (with_stack items g) k) Q (sound_fail r) s"
proof -
  have "mirrors em [] (capture_context ctx) (s\<lparr>gs_stack := items\<rparr>)"
    using assms(1,2) by (simp add: mirrors_def capture_context_def)
  from followsD[OF assms(3,4) this] show ?thesis
    unfolding wp_gbind wp_with_stack
  proof (rule wp_mono)
    fix x s' assume "mirrors em [] c s'"
    with assms(1) have "mirrors em cs ctx (s'\<lparr>gs_stack := gs_stack s\<rparr>)" by (simp add: mirrors_def)
    with assms(5) show "wp (k (x, gs_stack s')) Q (sound_fail r) (s'\<lparr>gs_stack := gs_stack s\<rparr>)" .
  qed simp
qed

lemma wp_sub_fn:
  assumes "mirrors em cs ctx s" "map si_state caps = filter captured (vc_stack ctx)"
    and "follows em v g" "v (capture_context ctx) = Inr c"
    and "\<And>f s'. mirrors em cs ctx s' \<Longrightarrow> wp (k f) Q (sound_fail r) s'"
  shows "wp (gbind (gen_trap_sub_fn env g caps name) k) Q (sound_fail r) s"
  unfolding gen_trap_sub_fn_def gbind_assoc case_prod_unfold gbind_greturn using assms(1)
  by - (erule wp_load[OF _ assms(2)] wp_inner[OF _ _ assms(3,4)] assms(5)
      | assumption | erule wp_quiet, (intro kept; fail))+

lemma follows_trap:
  assumes "follows em vt gt" "follows em vf gf"
  shows "follows em (verify_trap vt vf) (gen_trap env gt gf)"
proof (rule followsI)
  fix cs ctx ctx' s
  assume v: "verify_trap vt vf ctx = Inr ctx'" and m: "mirrors em cs ctx s"
  then obtain c1 c2 where c: "vt (capture_context ctx) = Inr c1" "vf (capture_context ctx) = Inr c2"
    and [simp]: "ctx' = ctx"
    by (auto simp: verify_trap_Inr)
  have caps: "map si_state (captures (gs_stack s)) = filter captured (vc_stack ctx)"
    using m by (simp add: captures_states mirrors_def)
  show "wp (gen_trap env gt gf) (\<lambda>x. mirrors em cs ctx') (sound_fail s) s"
    unfolding gen_trap_def wp_gbind[of "gget (\<lambda>s. captures (gs_stack s))"] wp_gget using m
    unfolding \<open>ctx' = ctx\<close>
    by - (erule wp_sub_fn[OF _ caps assms(1) c(1)] wp_sub_fn[OF _ caps assms(2) c(2)]
        | erule wp_quiet, (intro kept; fail) | erule wp_last, (intro kept; fail))+
qed

lemma follows_final_arg:
  assumes "follows em (verify_expr arg) g"
  shows "follows em (verify_expr arg) (gen_final_arg env arg (final_arg name i arg s) g)"
proof (cases "final_arg name i arg s = arg")
  case False
  then obtain str str' where "arg = String str" "final_arg name i arg s = String str'"
    by (auto simp: final_arg_def split: if_split_asm expr.split_asm option.split_asm)
  moreover have "follows em Inr (gen_string_constant env str')"
    by (intro follows_quiet quiet.keep_string)
  ultimately show ?thesis using False by (simp add: gen_final_arg_def)
qed (use assms in \<open>simp add: gen_final_arg_def\<close>)

text \<open>Operands below the threshold are not hoisted.\<close>

lemma not_hoistable: "complexity e \<le> ge_threshold env \<Longrightarrow> \<not> hoistable env e s"
  by (simp add: hoistable_def)

lemma final_arg_complexity [simp]: "complexity (final_arg name i arg s) = complexity arg"
  by (simp add: final_arg_def split: expr.split option.split)

function below_threshold :: "nat \<Rightarrow> expr \<Rightarrow> bool" where
  "below_threshold n e = (complexity e \<le> n \<and> (\<forall>e' \<in> set (parts e). below_threshold n e'))"
  by pat_completeness auto
termination by (relation "measure (size \<circ> snd)") (simp_all add: parts_size)

declare below_threshold.simps [simp del]

lemma below_threshold_self: "below_threshold n e \<Longrightarrow> complexity e \<le> n"
  by (subst (asm) below_threshold.simps) simp

lemma below_threshold_parts: "below_threshold n e \<Longrightarrow> e' \<in> set (parts e) \<Longrightarrow> below_threshold n e'"
  by (subst (asm) below_threshold.simps) simp

lemma follows_args:
  assumes "\<forall>arg \<in> set args. complexity arg \<le> ge_threshold env"
    and "list_all2 (\<lambda>arg g. follows em (verify_expr arg) g) args gs"
    and "\<And>p. keeps quiet sound_fail (k p)"
  shows "follows em (verify_seq (map verify_expr args)) (gbind (gen_args env name n i (zip args gs)) k)"
  using assms(2,1,3)
proof (induction args gs arbitrary: i k rule: list_all2_induct)
  case Nil
  then show ?case by (simp add: follows_quiet)
next
  case (Cons arg args g gs)
  have *: "gbind (gen_args env name n i (zip (arg # args) (g # gs))) k =
     gbind (gget (final_arg name i arg)) (\<lambda>final.
     gbind (gen_final_arg env arg final g) (\<lambda>v.
     gbind (gen_args env name n (Suc i) (zip args gs)) (\<lambda>(vals, hs). k (v # vals, hs))))"
    using Cons.prems(1) not_hoistable[of "final_arg name i arg s" env s for s]
    by (intro ext) (simp add: gbind_assoc case_prod_unfold, simp add: gbind_def gget_def)
  have rest: "follows em (verify_seq (map verify_expr args))
      (gbind (gen_args env name n (Suc i) (zip args gs)) (\<lambda>(vals, hs). k (v # vals, hs)))" for v
    using Cons.prems by (intro Cons.IH) auto
  have "follows em (verify_seq (map verify_expr (arg # args)))
      (gbind (gen_final_arg env arg (final_arg name i arg s) g) (\<lambda>v.
       gbind (gen_args env name n (Suc i) (zip args gs)) (\<lambda>(vals, hs). k (v # vals, hs))))" for s
    unfolding list.map using rest by (intro follows_seq follows_final_arg Cons.hyps(1))
  then show ?case unfolding * by (auto simp: follows_def)
qed

lemma follows_apply:
  assumes "\<forall>arg \<in> set args. complexity arg \<le> ge_threshold env"
    and "list_all2 (\<lambda>arg g. follows em (verify_expr arg) g) args gs"
  shows "follows em (verify_seq (check_callee func # map verify_expr args)) (gen_apply env x func args gs)"
proof (rule follows_check)
  show "follows em (verify_seq (map verify_expr args)) (gen_apply env x func args gs)"
  proof (cases "\<exists>name. func = Identifier name")
    case True
    then obtain name where f: "func = Identifier name" by blast
    have "follows em (verify_seq (map verify_expr args))
        (gbind (gen_args env name (length args) 0 (zip args gs)) (\<lambda>(args_vals, handles).
         gbind (join_handles env handles args_vals) (call_function env name full args)))" for full
      by (intro follows_args assms) (auto intro!: kept)
    then show ?thesis
      by (auto simp: f gen_apply_def follows_def mirrors_def case_prod_unfold)
  next
    case False
    then show ?thesis by (cases func) (simp_all add: gen_apply_def follows_def)
  qed
qed simp

lemma verify_seq_nil: "verify_seq [] = Inr"
  by (rule ext) simp

lemma follows_one: "follows em (verify_seq [v]) g \<longleftrightarrow> follows em v g"
  by (simp add: follows_def rbind_def split: sum.split)

lemmas follows_texts1 = follows_texts(1,4,5)[unfolded follows_one]

lemma follows_runtime1:
  "follows em v g \<Longrightarrow> follows em v (runtime_op env name es [g])"
  "follows em Inr (runtime_op env name es [])"
  using follows_runtime(1)[of em "[v]" "[g]" env name es] follows_runtime(1)[of em "[]" "[]" env name es]
  by (simp_all add: follows_one verify_seq_nil)

lemma gen_expr_follows:
  "plain e \<Longrightarrow> below_threshold (ge_threshold env) e \<Longrightarrow> follows em (verify_expr e) (gen_expr env x em e)"
proof (induction e rule: measure_induct_rule[of size])
  case (less e)
  have sub: "follows em (verify_expr c) (gen_expr env x em c)" if "c \<in> set (parts e)" for c
    by (rule less.IH[OF parts_size[OF that] plain_parts[OF less.prems(1) that] below_threshold_parts[OF less.prems(2) that]])
  have sub2: "follows em (verify_expr c') (gen_expr env x em c')"
    if "c \<in> set (parts e)" "c' \<in> set (parts c)" for c c'
    using less.IH[OF _ plain_parts[OF plain_parts[OF less.prems(1) that(1)] that(2)]]
      parts_size[OF that(1)] parts_size[OF that(2)]
      below_threshold_parts[OF below_threshold_parts[OF less.prems(2) that(1)] that(2)] by simp
  note parts = parts_def operands_def
  show ?case
  proof (cases e)
    case (Seq l r)
    then have r: "follows em (verify_expr r) (gen_expr env x em r)" using sub by (simp add: parts)
    show ?thesis
    proof (cases "\<exists>m u b. l = HttpClient m u b")
      case True
      then obtain m u b where l: "l = HttpClient m u b" by blast
      then have "list_all2 (follows em) (map verify_expr [m, u, b]) (map (gen_expr env x em) [m, u, b])"
        using sub2[of l] by (simp add: Seq parts)
      from follows_seq_arm(2)[OF this r] show ?thesis
        unfolding Seq l verify_expr.simps gen_expr.simps expr.case list.map .
    next
      case False
      then have e: "gen_expr env x em e = gen_seq env l (gen_expr env x em l) (gen_expr env x em r)"
        by (cases l) (simp_all add: Seq)
      have "follows em (verify_expr l) (gen_expr env x em l)" using sub by (simp add: Seq parts)
      from follows_seq_arm(1)[OF this r] show ?thesis unfolding e unfolding Seq verify_expr.simps .
    qed
  next
    case (Apply f args)
    have "list_all2 (\<lambda>arg g. follows em (verify_expr arg) g) args (map (gen_expr env x em) args)"
      using sub by (auto simp: Apply parts list_all2_conv_all_nth)
    moreover have "\<forall>arg \<in> set args. complexity arg \<le> ge_threshold env"
      using below_threshold_self[OF below_threshold_parts[OF less.prems(2)]] by (simp add: Apply parts)
    ultimately show ?thesis
      unfolding Apply verify_expr.simps gen_expr.simps by (intro follows_apply)
  next
    case (If c t f)
    then show ?thesis using sub by (simp add: parts follows_if verify_expr_conservative)
  next
    case (Move a)
    have "follows em (verify_expr a) (gen_expr env x em a)"
    proof (cases "is_variable a")
      case True
      then show ?thesis
        by (cases a) (simp_all add: is_variable_def follows_variables)
    next
      case False
      with Move sub show ?thesis by (simp add: parts is_variable_def split: expr.split_asm)
    qed
    then show ?thesis by (simp add: Move follows_move)
  next
    case (BinaryOp op l r)
    then have "follows em (verify_seq [verify_expr l, verify_expr r]) (gen_expr env x em e)"
      using sub not_hoistable[OF below_threshold_self[OF below_threshold_parts[OF less.prems(2), of l]]]
      by (simp add: parts follows_binary del: verify_seq.simps)
    then show ?thesis by (auto simp: BinaryOp follows_def split: if_split_asm)
  next
    case (Metadata tag v t)
    then have l: "is_literal tag" "is_literal v" using plain_plain_node[OF less.prems(1)] by (simp_all add: plain_node_def)
    have "follows em (verify_expr t) (gen_expr env x em t)" using sub by (simp add: Metadata parts)
    then show ?thesis
      by (auto simp: Metadata follows_def verify_literal[OF l(1)] verify_literal[OF l(2)] rbind_Inr_iff)
  next
    case (Define name params body exported)
    then show ?thesis using plain_plain_node[OF less.prems(1)] by (simp add: plain_node_def)
  qed (use sub in \<open>simp_all del: verify_seq.simps add: parts runtime_arms follows_quiet quiet.keep_return quiet.keep_string
    follows_variables follows_let verify_expr_conservative follows_trap follows_money follows_time follows_soa follows_columns
    follows_texts follows_texts1 follows_runtime1 follows_runtime\<close>)
qed

end
