(* ===== verification/Functions.thy ===== *)
theory Functions
  imports Gen_Blocks Gen_Ownership
begin

text \<open>
  The whole of \<open>gen_function\<close> (\<open>codegen/symbol.rs\<close>): the declaration, the entry block with the
  parameters, the body, the telemetry around it, the drops at the end and the return.  Every
  block of the result is closed; on verified code there is no ownership panic, and the drops at
  the end are those that the verifier calls for.
\<close>

section \<open>The function\<close>

definition gen_declare :: "gen_env \<Rightarrow> string \<Rightarrow> param list \<Rightarrow> expr \<Rightarrow> bool \<Rightarrow> unit gen" where
  "gen_declare env name params body exported s =
     (case declare_function (ge_names env) name params body exported (gs_cg s) of
        Inl err \<Rightarrow> Inl (CErr err)
      | Inr cg \<Rightarrow> Inr ((), s\<lparr>gs_cg := cg\<rparr>))"

definition entry_item :: "nat option \<Rightarrow> bool list \<Rightarrow> nat \<Rightarrow> stack_item gen" where
  "entry_item arity param_ptrs i =
     gbind (expect ''called Option::unwrap() on a None value''
       (if arity = None \<or> the arity \<le> i then None else Some (ParamVal i I64))) (\<lambda>v.
     greturn \<lparr>si_value = v, si_state = Available, si_shape = None,
       si_is_ptr = (i < length param_ptrs \<and> param_ptrs ! i)\<rparr>)"

definition entry_stack :: "string \<Rightarrow> string \<Rightarrow> nat \<Rightarrow> stack_item list gen" where
  "entry_stack name function arg_count =
     gbind (gget (\<lambda>s. map_of (cg_functions (gs_cg s)) function)) (\<lambda>arity.
     gbind (gget (\<lambda>s. case cg_param_ptrs (gs_cg s) name of
         Some ptrs \<Rightarrow> ptrs | None \<Rightarrow> replicate arg_count False)) (\<lambda>param_ptrs.
     gen_all (map (entry_item arity param_ptrs) [0..<arg_count])))"

definition otel_enter :: "gen_env \<Rightarrow> val gen" where
  "otel_enter env =
     gbind (rt_call env ''llm_get_time_ns'' I64 []) (\<lambda>start_time.
     gbind (rt_void env ''llm_otel_enter_span'' []) (\<lambda>_. greturn start_time))"

definition otel_exit :: "gen_env \<Rightarrow> string \<Rightarrow> val \<Rightarrow> unit gen" where
  "otel_exit env span_name start =
     gbind (rt_call env ''llm_get_time_ns'' I64 []) (\<lambda>end_time.
     gbind (get_or_add_external_fn env ''llm_otel_emit_span'' I64 3) (\<lambda>_.
     gbind (gen_string_constant env span_name) (\<lambda>name_ptr.
     gbind (as_int name_ptr) (\<lambda>name_int.
     gbind (build_call ''llm_otel_emit_span'' [name_int, start, end_time] False) (\<lambda>_.
     rt_void env ''llm_otel_exit_span'' [])))))"

text \<open>The body between the span, and the end of the function.\<close>

definition gen_spanned :: "gen_env \<Rightarrow> string option \<Rightarrow> 'x gen \<Rightarrow> 'x gen" where
  "gen_spanned env otel_span_name body =
     (case otel_span_name of
        None \<Rightarrow> body
      | Some span_name \<Rightarrow>
          gbind (otel_enter env) (\<lambda>start.
          gbind body (\<lambda>res.
          gbind (otel_exit env span_name start) (\<lambda>_. greturn res))))"

definition gen_epilogue :: "gen_env \<Rightarrow> string \<Rightarrow> stack_item list \<Rightarrow> val \<Rightarrow> unit gen" where
  "gen_epilogue env final stack ret_val =
     gbind (gen_each (drop_item env) stack) (\<lambda>_.
     gbind (if final = ''main'' then rt_void env ''llm_emit_wait_all'' [] else greturn ()) (\<lambda>_.
     emit_void (Ret ret_val)))"

definition gen_frame ::
  "gen_env \<Rightarrow> nat \<Rightarrow> string \<Rightarrow> string \<Rightarrow> nat \<Rightarrow> expr \<Rightarrow> string option \<Rightarrow> (val \<times> stack_item list) gen" where
  "gen_frame env fuel name final arg_count body otel_span_name =
     gbind (append_basic_block final ''entry'') (\<lambda>basic_block.
     gbind (position_at_end basic_block) (\<lambda>_.
     gbind (entry_stack name final arg_count) (\<lambda>stack.
     gen_spanned env otel_span_name (with_stack stack (gen_nested env fuel Map.empty body)))))"

definition gen_body :: "gen_env \<Rightarrow> nat \<Rightarrow> string \<Rightarrow> string \<Rightarrow> nat \<Rightarrow> expr \<Rightarrow> string option \<Rightarrow> unit gen" where
  "gen_body env fuel name final arg_count body otel_span_name =
     gbind (gen_frame env fuel name final arg_count body otel_span_name) (\<lambda>(ret_val, stack').
     gen_epilogue env final stack' ret_val)"

definition gen_function ::
  "gen_env \<Rightarrow> nat \<Rightarrow> string \<Rightarrow> param list \<Rightarrow> expr \<Rightarrow> bool \<Rightarrow> string option \<Rightarrow> unit gen" where
  "gen_function env fuel name params body exported otel_span_name =
     gbind (gen_declare env name params body exported) (\<lambda>_.
     gbind (gget (\<lambda>s. final_name (ge_names env) (gs_cg s) name exported)) (\<lambda>final.
     if \<exists>p \<in> set params. param_expand p then greturn ()
     else gen_body env fuel name final (length params) body otel_span_name))"

section \<open>All blocks are closed\<close>

definition all_closed :: "gen_state \<Rightarrow> bool" where
  "all_closed s = list_all (closed_block (gs_blocks s)) (gs_blocks s)"

lemma gen_nested_blocks: "keeps block_step (\<lambda>s f. True) (gen_nested env n em e)"
proof (induction n arbitrary: em e)
  case 0
  then show ?case by (simp, intro blocks.gen_expr_keeps) (simp add: expands_def wp_def)
next
  case (Suc n)
  then show ?case by (simp, intro blocks.gen_expr_keeps) (simp add: expands_def keeps_def)
qed

context straight_line
begin

lemma keep_entry [kept]: "''called Option::unwrap() on a None value'' \<notin> set ownership_panics \<Longrightarrow> keeps R E (entry_stack name f n)"
  unfolding entry_stack_def entry_item_def by (intro kept) (auto intro!: kept)

lemma keep_otel [kept]: "keeps R E (otel_enter env)" "keeps R E (otel_exit env span t)"
  unfolding otel_enter_def otel_exit_def by (intro kept)+

lemma keep_spanned [kept]: "keeps R E g \<Longrightarrow> keeps R E (gen_spanned env otel g)"
  unfolding gen_spanned_def by (intro kept)

end

lemma unwrap_benign [simp]: "''called Option::unwrap() on a None value'' \<notin> set ownership_panics"
  by (simp add: ownership_panics_def)

text \<open>The blocks that were there before the run stay as they are.\<close>

lemma pending_done:
  assumes p: "pending s0 f b [] ks s" and c: "list_all (closed_block bs) bs"
    and s0: "gs_blocks s0 = bs @ [x]" "gs_at s0 = length bs"
  shows "all_closed s"
proof -
  have "closed_block (gs_blocks s) (gs_blocks s ! i)" if "i < length (gs_blocks s)" for i
  proof (cases "i < length bs")
    case True
    then have same: "gs_blocks s ! j = bs ! j" if "j < length bs" for j
      using p s0 that by (auto simp: pending_def nth_append)
    have "closed_block bs (bs ! i)" using c True by (simp add: list_all_length)
    then have "closed_block (gs_blocks s) (bs ! i)"
      by (rule closed_block_mono) (use p s0 same in \<open>auto simp: pending_def\<close>)
    then show ?thesis using same[OF True] by simp
  next
    case False
    then have "i = gs_at s0 \<or> length (gs_blocks s0) \<le> i" using s0 by auto
    then show ?thesis using p that by (auto simp: pending_def)
  qed
  then show ?thesis by (simp add: all_closed_def list_all_length)
qed

lemma gen_spanned_blocks:
  "keeps block_step (\<lambda>s f. True) (gen_spanned env otel (with_stack stk (gen_nested env fuel em body)))"
  by (intro blocks.keep_spanned block_with_stack gen_nested_blocks)

definition entered :: "string \<Rightarrow> gen_state \<Rightarrow> gen_state" where
  "entered final s = s\<lparr>gs_blocks := gs_blocks s @ [\<lparr>bk_fun = final, bk_label = ''entry'', bk_insts = []\<rparr>],
     gs_at := length (gs_blocks s)\<rparr>"

lemma wp_gen_frame:
  "wp (gen_frame env fuel name final n body otel) Q E s =
   wp (gbind (entry_stack name final n) (\<lambda>stack.
     gen_spanned env otel (with_stack stack (gen_nested env fuel Map.empty body)))) Q E (entered final s)"
  unfolding gen_frame_def entered_def
  by (simp add: append_basic_block_def position_at_end_def wp_def gbind_def gmodify_def)

lemma entered_pending:
  "pending (entered final s) final (length (gs_blocks s)) [length (gs_blocks s)] [length (gs_blocks s)] (entered final s)"
  using pending_start[of "entered final s"] by (simp add: open_at_def open_block_def entered_def)

lemma gen_frame_pending:
  "wlp (gen_frame env fuel name final n body otel) (\<lambda>x s'. \<exists>b ks. pending (entered final s) final b [b] ks s') s"
proof -
  have "wlp (gbind (gbind (entry_stack name final n) (\<lambda>stack.
      gen_spanned env otel (with_stack stack (gen_nested env fuel Map.empty body)))) greturn)
      (\<lambda>x s'. \<exists>b ks. pending (entered final s) final b [b] ks s') (entered final s)"
    using entered_pending[of final s] unfolding gbind_assoc
    by - ((erule step_linear, (intro kept; simp; fail)[1]) | (erule step_run, rule gen_spanned_blocks)
      | (simp only: wp_greturn, blast))+
  then show ?thesis unfolding wp_gen_frame wp_gbind[of _ greturn] by (rule wp_mono) simp_all
qed

lemma gen_body_closed:
  assumes "all_closed s"
  shows "wlp (gen_body env fuel name final n body otel) (\<lambda>x. all_closed) s"
proof -
  have finish: "all_closed (emitted (Ret v) s')" if "pending (entered final s) final b [b] ks s'" for v b ks s'
    using pending_close[OF that, of "Ret v"] assms
    by (intro pending_done[of "entered final s" _ _ _ _ "gs_blocks s"]) (simp_all add: all_closed_def entered_def)
  have "wlp (gen_epilogue env final left v) (\<lambda>x. all_closed) s'"
    if "pending (entered final s) final b [b] ks s'" for v left b ks s'
    using that unfolding gen_epilogue_def
    by - ((erule step_linear, (intro kept; simp; fail)[1]) | (simp only: wp_emit_void, erule finish))+
  then show ?thesis
    unfolding gen_body_def wp_gbind by (intro wp_mono[OF gen_frame_pending]) auto
qed

lemma gen_function_closed:
  assumes "all_closed s"
  shows "wlp (gen_function env fuel name params body exported otel) (\<lambda>x. all_closed) s"
proof -
  have "wlp (gen_declare env name params body exported) (\<lambda>x. all_closed) s"
    using assms by (simp add: wp_def gen_declare_def all_closed_def split: sum.split)
  then show ?thesis
    unfolding gen_function_def wp_gbind
    by (rule wp_mono) (simp_all add: gen_body_closed)
qed

section \<open>The states of the variables at the end\<close>

text \<open>The parameters as they are pushed at the entry, and the pointer flags they get.\<close>

definition param_flags :: "codegen \<Rightarrow> string \<Rightarrow> nat \<Rightarrow> bool list" where
  "param_flags cg name n = (case cg_param_ptrs cg name of Some ptrs \<Rightarrow> ptrs | None \<Rightarrow> replicate n False)"

definition param_core :: "bool list \<Rightarrow> nat \<Rightarrow> core" where
  "param_core ptrs i = (ParamVal i I64, None, i < length ptrs \<and> ptrs ! i)"

lemma wp_entry_item:
  assumes "E (Panicked ''called Option::unwrap() on a None value'')"
    and "\<And>item. core item = param_core ptrs i \<Longrightarrow> si_state item = Available \<Longrightarrow> Q item s"
  shows "wp (entry_item arity ptrs i) Q E s"
  using assms by (simp add: entry_item_def core_def param_core_def)

lemma wp_entry_items:
  assumes "E (Panicked ''called Option::unwrap() on a None value'')"
    and "\<And>items. map core items = map (param_core ptrs) is \<Longrightarrow> map si_state items = map (\<lambda>_. Available) is \<Longrightarrow> Q items s"
  shows "wp (gen_all (map (entry_item arity ptrs) is)) Q E s"
  using assms(2)
proof (induction "is" arbitrary: Q)
  case (Cons i "is")
  show ?case
    unfolding list.map gen_all.simps wp_gbind wp_greturn
  proof (rule wp_entry_item)
    show "E (Panicked ''called Option::unwrap() on a None value'')" by (rule assms(1))
    fix item assume "core item = param_core ptrs i" "si_state item = Available"
    then show "wp (gen_all (map (entry_item arity ptrs) is)) (\<lambda>xs. Q (item # xs)) E s"
      by (intro Cons.IH Cons.prems) simp_all
  qed
qed simp

lemma wp_entry_stack:
  assumes "E (Panicked ''called Option::unwrap() on a None value'')"
    and "\<And>items. map core items = map (param_core (param_flags (gs_cg s) name n)) [0..<n] \<Longrightarrow>
      map si_state items = replicate n Available \<Longrightarrow> Q items s"
  shows "wp (entry_stack name final n) Q E s"
  unfolding entry_stack_def wp_gbind wp_gget param_flags_def[symmetric]
  using assms by (intro wp_entry_items) (simp_all add: map_replicate_const)

text \<open>On verified code the run of the body ends with the states that the verifier computes.\<close>

lemma gen_nested_expr: "\<exists>x. gen_nested env n = gen_expr env x"
  by (cases n) auto

lemma wp_body:
  assumes "plain body" "below_threshold (ge_threshold env) body" "cg_templates (gs_cg s) = []"
    and "verify_expr body ctx = Inr ctx'" "vc_expand ctx = Map.empty"
    and "vc_stack ctx = map si_state items"
    and "\<And>res left s'. map core left = map core items \<Longrightarrow> map si_state left = vc_stack ctx' \<Longrightarrow> Q (res, left) s'"
  shows "wp (with_stack items (gen_nested env n Map.empty body)) Q (sound_fail r) s"
proof -
  obtain x where x: "gen_nested env n = gen_expr env x" using gen_nested_expr by blast
  let ?s = "s\<lparr>gs_stack := items\<rparr>"
  have "mirrors Map.empty (map core items) ctx ?s" using assms(3,5,6) by (simp add: mirrors_def)
  from followsD[OF gen_expr_follows[OF assms(1,2)] assms(4) this]
  have *: "wp (gen_expr env x Map.empty body) (\<lambda>v. mirrors Map.empty (map core items) ctx') (sound_fail ?s) ?s" .
  have len: "length (vc_stack ctx') = length items"
    using verify_expr_step[OF assms(4)] assms(6) unfolding ctx_step_def
    by (metis length_map list_all2_lengthD)
  have ends: "map core (gs_stack s') = map core items \<and> map si_state (gs_stack s') = vc_stack ctx'"
    if "mirrors Map.empty (map core items) ctx' s'" for s'
  proof -
    from that have pre: "prefix (map core items) (map core (gs_stack s'))" and st: "vc_stack ctx' = map si_state (gs_stack s')"
      by (simp_all add: mirrors_def)
    from pre obtain zs where z: "map core (gs_stack s') = map core items @ zs" by (rule prefixE)
    have "length (gs_stack s') = length items" using st len by simp
    then have "zs = []" using arg_cong[OF z, of length] by simp
    then show ?thesis using z st by simp
  qed
  show ?thesis
    unfolding wp_with_stack x by (intro wp_mono[OF *] assms(7)) (auto dest: ends)
qed

lemma wp_spanned:
  assumes "\<And>s'. quiet s s' \<Longrightarrow> wp body (\<lambda>x s'. P x) (sound_fail r) s'"
  shows "wp (gen_spanned env otel body) (\<lambda>x s'. P x) (sound_fail r) s"
proof (cases otel)
  case None
  then show ?thesis using assms by (simp add: gen_spanned_def)
next
  case (Some span)
  have "wp (otel_enter env) (\<lambda>x. quiet s) (sound_fail r) s"
    "wp (otel_exit env span t) (\<lambda>x. quiet s') (sound_fail r) s'" for t s'
    using quiet.keep_otel[of env] by (simp_all add: keeps_def)
  then show ?thesis
    unfolding Some gen_spanned_def option.case wp_gbind wp_greturn
    using assms by (blast intro: wp_mono)
qed

lemma gen_frame_verified:
  assumes "plain body" "below_threshold (ge_threshold env) body" "cg_templates (gs_cg s) = []"
    and "verify_expr body ctx = Inr ctx'" "vc_expand ctx = Map.empty" "vc_stack ctx = replicate n Available"
  shows "wp (gen_frame env fuel name final n body otel) (\<lambda>x s'.
      map core (snd x) = map (param_core (param_flags (gs_cg s) name n)) [0..<n] \<and>
      map si_state (snd x) = vc_stack ctx') (sound_fail r) s"
  unfolding wp_gen_frame wp_gbind
proof (rule wp_entry_stack)
  show "\<not> ownership_panic (Panicked ''called Option::unwrap() on a None value'')" by simp
  fix items :: "stack_item list"
  assume items: "map core items = map (param_core (param_flags (gs_cg (entered final s)) name n)) [0..<n]"
    "map si_state items = replicate n Available"
  show "wp (gen_spanned env otel (with_stack items (gen_nested env fuel Map.empty body))) (\<lambda>x s'.
      map core (snd x) = map (param_core (param_flags (gs_cg s) name n)) [0..<n] \<and>
      map si_state (snd x) = vc_stack ctx') (sound_fail r) (entered final s)"
  proof (rule wp_spanned)
    fix s' assume q: "quiet (entered final s) s'"
    have "cg_templates (gs_cg s') = []"
      using q assms(3) by (auto simp: quiet_def same_tables_def entered_def)
    then show "wp (with_stack items (gen_nested env fuel Map.empty body)) (\<lambda>x s'.
      map core (snd x) = map (param_core (param_flags (gs_cg s) name n)) [0..<n] \<and>
      map si_state (snd x) = vc_stack ctx') (sound_fail r) s'"
      using items assms(6)
      by (intro wp_body[OF assms(1,2) _ assms(4,5)]) (simp_all add: entered_def)
  qed
qed

section \<open>The drops at the end\<close>

definition cur_insts :: "gen_state \<Rightarrow> inst list" where
  "cur_insts s = map snd (bk_insts (gs_blocks s ! gs_at s))"

definition adds :: "inst list \<Rightarrow> gen_state \<Rightarrow> gen_state \<Rightarrow> bool" where
  "adds is s s' \<longleftrightarrow> gs_at s' = gs_at s \<and> length (gs_blocks s') = length (gs_blocks s) \<and>
     (gs_at s < length (gs_blocks s) \<longrightarrow> cur_insts s' = cur_insts s @ is)"

lemma adds_trans: "adds xs a b \<Longrightarrow> adds ys b c \<Longrightarrow> adds (xs @ ys) a c"
  by (auto simp: adds_def)

lemma adds_emitted: "adds [i] s (emitted i s)"
  by (simp add: adds_def cur_insts_def emitted_blocks)

lemma wp_rt_void: "wp (rt_void env f args) (\<lambda>x. adds [Call f args False] s) E s"
proof -
  have "adds [i] s (emitted i (s\<lparr>gs_cg := cg, gs_rets := rets\<rparr>))" for i cg rets
    by (simp add: adds_def cur_insts_def emitted_blocks)
  moreover have "adds [i] s (emitted i s)" for i by (rule adds_emitted)
  ultimately show ?thesis
    by (simp add: rt_void_def rt_call_def get_or_add_external_fn_def build_call_def)
qed

definition drop_calls :: "stack_item list \<Rightarrow> inst list" where
  "drop_calls items = map (\<lambda>item. Call ''llm_drop'' [si_value item] False)
     (filter (\<lambda>item. si_state item = Available \<and> si_is_ptr item) items)"

lemma wp_drop_items:
  assumes "\<forall>item \<in> set items. si_shape item = None"
  shows "wp (gen_each (drop_item env) items) (\<lambda>x. adds (drop_calls items) s) E s"
  using assms
proof (induction items arbitrary: s)
  case Nil
  then show ?case by (simp add: gen_each_def drop_calls_def adds_def)
next
  case (Cons item items)
  let ?here = "if si_state item = Available \<and> si_is_ptr item then [Call ''llm_drop'' [si_value item] False] else []"
  have 1: "wp (drop_item env item) (\<lambda>x. adds ?here s) E s"
    using Cons.prems wp_rt_void[of env "''llm_drop''" "[si_value item]" s E]
    by (simp add: drop_item_def emit_auto_drop_def adds_def)
  have "drop_calls (item # items) = ?here @ drop_calls items" by (simp add: drop_calls_def)
  then have "wp (gen_each (drop_item env) items) (\<lambda>x. adds (drop_calls (item # items)) s) E s'"
    if "adds ?here s s'" for s'
    using Cons.IH[of s'] Cons.prems adds_trans[OF that] by (auto intro: wp_mono)
  then show ?case
    using 1 unfolding gen_each_def list.map gen_all.simps wp_gbind wp_greturn
    by (blast intro: wp_mono)
qed

definition epilogue_insts :: "string \<Rightarrow> stack_item list \<Rightarrow> val \<Rightarrow> inst list" where
  "epilogue_insts final left v = drop_calls left @
     (if final = ''main'' then [Call ''llm_emit_wait_all'' [] False] else []) @ [Ret v]"

lemma wp_epilogue:
  assumes "\<forall>item \<in> set left. si_shape item = None"
  shows "wp (gen_epilogue env final left v) (\<lambda>x. adds (epilogue_insts final left v) s) E s"
proof -
  have wait: "wp (if final = ''main'' then rt_void env ''llm_emit_wait_all'' [] else greturn ())
      (\<lambda>x. adds (if final = ''main'' then [Call ''llm_emit_wait_all'' [] False] else []) s) E s" for s
    using wp_rt_void[of env "''llm_emit_wait_all''" "[]" s E] by (simp add: adds_def)
  show ?thesis
    unfolding gen_epilogue_def wp_gbind wp_emit_void epilogue_insts_def
    by (rule wp_mono[OF wp_drop_items[OF assms]], rule wp_mono[OF wait])
       (blast intro: adds_trans adds_emitted)
qed

section \<open>Functions on verified code\<close>

lemma expand_params_none: "\<forall>p \<in> set params. \<not> param_expand p \<Longrightarrow> expand_params n params em = em"
  by (induction params arbitrary: n em) simp_all

lemma gen_declare_Inr:
  assumes "gen_declare env name params body exported s = Inr (u, s')"
    and "\<forall>p \<in> set params. \<not> param_expand p"
  shows "\<exists>ds ctx. verify_expr body (entry_context ds params) = Inr ctx"
    and "cg_templates (gs_cg s') = cg_templates (gs_cg s)"
    and "cg_param_ptrs (gs_cg s') = cg_param_ptrs (gs_cg s)"
    and "cg_input_path (gs_cg s') = cg_input_path (gs_cg s)"
  using assms
  by (auto simp: gen_declare_def declare_function_def verify_body_def Let_def add_function_def
      split: sum.split_asm option.split_asm if_split_asm)

lemma final_name_path:
  "cg_input_path cg' = cg_input_path cg \<Longrightarrow> final_name ln cg' name exported = final_name ln cg name exported"
  by (simp add: final_name_def get_module_name_def mangle_name_def)

lemma entry_context_simps [simp]:
  "vc_stack (entry_context ds params) = replicate (length params) Available"
  "\<forall>p \<in> set params. \<not> param_expand p \<Longrightarrow> vc_expand (entry_context ds params) = Map.empty"
  by (simp_all add: entry_context_def map_replicate_const expand_params_none)

text \<open>What the verifier knows at the end of a body is what every run has done.\<close>

lemma final_states:
  assumes "verify_expr body (entry_context ds params) = Inr ctx" "plain body"
    and "runs (expand_params 0 params Map.empty) (entry_env params) body (entry_history params) h"
    and "i < length params"
  shows "vc_stack ctx ! i = Available \<longleftrightarrow> Take i \<notin> set h"
proof -
  have "agrees ctx (entry_env params) h"
    using runs_sound(1)[OF assms(3,2) agrees_entry _ assms(1)] safe_entry
    by (simp add: entry_context_def entry_history_def)
  then have "vc_stack ctx ! i = Moved \<longleftrightarrow> Take i \<in> set h"
    using agrees_nth[of ctx "entry_env params" h i] assms(4) by (simp add: entry_env_def)
  moreover have "may_become Available (vc_stack ctx ! i)"
    using verify_expr_step[OF assms(1)] assms(4) unfolding ctx_step_def
    by (auto dest: list_all2_nthD[where p = i])
  ultimately show ?thesis by (auto simp: may_become_def)
qed

lemma drop_calls_params:
  assumes "map core left = map (param_core ptrs) [0..<n]" "map si_state left = sts"
  shows "drop_calls left = map (\<lambda>i. Call ''llm_drop'' [ParamVal i I64] False)
      (filter (\<lambda>i. sts ! i = Available \<and> i < length ptrs \<and> ptrs ! i) [0..<n])"
    and "\<forall>item \<in> set left. si_shape item = None"
proof -
  have n: "n = length left" using arg_cong[OF assms(1), of length] by simp
  have item: "si_value (left ! i) = ParamVal i I64" "si_shape (left ! i) = None"
    "si_is_ptr (left ! i) = (i < length ptrs \<and> ptrs ! i)" if "i < n" for i
    using arg_cong[OF assms(1), of "\<lambda>xs. xs ! i"] that n by (simp_all add: core_def param_core_def)
  have states: "sts ! i = si_state (left ! i)" if "i < n" for i using assms(2) that n by auto
  have "drop_calls left = drop_calls (map ((!) left) [0..<n])" by (simp add: n map_nth)
  also have "\<dots> = map (\<lambda>i. Call ''llm_drop'' [ParamVal i I64] False)
      (filter (\<lambda>i. sts ! i = Available \<and> i < length ptrs \<and> ptrs ! i) [0..<n])"
    unfolding drop_calls_def filter_map map_map o_def
    by (intro map_cong filter_cong) (simp_all add: item states)
  finally show "drop_calls left = \<dots>" .
  show "\<forall>item \<in> set left. si_shape item = None"
    using item(2) by (auto simp: in_set_conv_nth n)
qed

text \<open>The last instructions of a function that drops the given parameters and returns \<open>v\<close>.\<close>

definition closing :: "string \<Rightarrow> nat list \<Rightarrow> val \<Rightarrow> inst list" where
  "closing final dropped v = map (\<lambda>i. Call ''llm_drop'' [ParamVal i I64] False) dropped @
     (if final = ''main'' then [Call ''llm_emit_wait_all'' [] False] else []) @ [Ret v]"

definition is_pointer_param :: "codegen \<Rightarrow> string \<Rightarrow> nat \<Rightarrow> nat \<Rightarrow> bool" where
  "is_pointer_param cg name n i = (i < length (param_flags cg name n) \<and> param_flags cg name n ! i)"

lemma wp_conj: "wp m P E s \<Longrightarrow> wlp m Q s \<Longrightarrow> wp m (\<lambda>x s'. P x s' \<and> Q x s') E s"
  by (auto simp: wp_def split: sum.split)

text \<open>What the frame of a function leaves, and what the epilogue adds to it.\<close>

definition frame_left :: "codegen \<Rightarrow> string \<Rightarrow> var_state list \<Rightarrow> val \<times> stack_item list \<Rightarrow> gen_state \<Rightarrow> bool" where
  "frame_left cg name sts x s \<longleftrightarrow>
     (let n = length (snd x) in
      map core (snd x) = map (param_core (param_flags cg name n)) [0..<n] \<and>
      map si_state (snd x) = sts \<and> gs_at s < length (gs_blocks s))"

lemma gen_frame_left:
  assumes "plain body" "below_threshold (ge_threshold env) body" "cg_templates (gs_cg s) = []"
    and "\<forall>p \<in> set params. \<not> param_expand p"
    and "verify_expr body (entry_context ds params) = Inr ctx"
  shows "wp (gen_frame env fuel name final (length params) body otel)
    (frame_left (gs_cg s) name (vc_stack ctx)) (sound_fail r) s"
proof -
  have n: "length (snd x) = n" if "map core (snd x) = map f [0..<n]" for f n and x :: "val \<times> stack_item list"
    using arg_cong[OF that, of length] by simp
  show ?thesis
    by (rule wp_mono[OF wp_conj[OF gen_frame_verified[OF assms(1-3,5)] gen_frame_pending]])
      (use assms(4) in \<open>auto simp: frame_left_def Let_def pending_def dest: n\<close>)
qed

lemma epilogue_closing:
  assumes "frame_left cg name sts (v, left) s"
  shows "wp (gen_epilogue env final left v) (\<lambda>x s'. cur_insts s' = cur_insts s @
    closing final (filter (\<lambda>i. sts ! i = Available \<and> is_pointer_param cg name (length left) i) [0..<length left]) v) E s"
proof -
  note left = assms[unfolded frame_left_def Let_def snd_conv]
  note d = drop_calls_params[OF conjunct1[OF left] refl]
  show ?thesis
    using wp_epilogue[OF d(2), of env final v s E] left d(1)
    by (auto elim!: wp_mono simp: adds_def epilogue_insts_def closing_def is_pointer_param_def)
qed

lemma gen_body_sound:
  assumes "plain body" "below_threshold (ge_threshold env) body" "cg_templates (gs_cg s) = []"
    and "\<forall>p \<in> set params. \<not> param_expand p"
    and "verify_expr body (entry_context ds params) = Inr ctx"
  shows "wp (gen_body env fuel name final (length params) body otel) (\<lambda>x s. True) (sound_fail r) s"
  unfolding gen_body_def wp_gbind
  by (rule wp_mono[OF gen_frame_left[OF assms]])
    (auto split: prod.split elim!: wp_mono[OF epilogue_closing])

text \<open>
  For a pointer parameter the types of the module are asked, as they are before the function is
  generated.
\<close>

lemma gen_function_Inr:
  assumes "gen_function env fuel name params body exported otel s = Inr (u, s')"
    and "\<forall>p \<in> set params. \<not> param_expand p"
  shows "\<exists>s1 final. gen_declare env name params body exported s = Inr ((), s1) \<and>
    final = final_name (ge_names env) (gs_cg s1) name exported \<and>
    gen_body env fuel name final (length params) body otel s1 = Inr (u, s')"
  using assms by (auto simp: gen_function_def gbind_def gget_def rbind_def split: sum.split_asm)

lemma gen_body_Inr:
  assumes "gen_body env fuel name final n body otel s = Inr (u, s')"
  shows "\<exists>v left s1. gen_frame env fuel name final n body otel s = Inr ((v, left), s1) \<and>
    gen_epilogue env final left v s1 = Inr (u, s')"
  using assms by (auto simp: gen_body_def gbind_def rbind_Inr_iff split: prod.split_asm)

text \<open>C27: the drops at the end of a function.  Let a function without expansion parameters be
  generated while no template is defined, and let its body be plain (no nested definition, only
  literal metadata) with no operand over the hoisting threshold.  After the code of its frame,
  the body and the telemetry around it, the function ends with exactly one call of \<open>llm_drop\<close>
  for each pointer parameter that a run of the body has not moved, whatever the run, in the order
  of the parameters; then \<open>main\<close> waits for the outstanding messages; and the function returns
  the value of the body.\<close>

theorem gen_function_drops:
  assumes "gen_function env fuel name params body exported otel s = Inr (u, s')"
    and "\<forall>p \<in> set params. \<not> param_expand p" "cg_templates (gs_cg s) = []"
    and "plain body" "below_threshold (ge_threshold env) body"
    and "runs (expand_params 0 params Map.empty) (entry_env params) body (entry_history params) h"
  shows "\<exists>s1 v left s2. gen_declare env name params body exported s = Inr ((), s1) \<and>
    gen_frame env fuel name (final_name (ge_names env) (gs_cg s) name exported) (length params) body otel s1
      = Inr ((v, left), s2) \<and>
    cur_insts s' = cur_insts s2 @ closing (final_name (ge_names env) (gs_cg s) name exported)
      (filter (\<lambda>i. is_pointer_param (gs_cg s) name (length params) i \<and> Take i \<notin> set h) [0..<length params]) v"
proof -
  from gen_function_Inr[OF assms(1,2)] obtain s1 final where
    d: "gen_declare env name params body exported s = Inr ((), s1)"
    and final1: "final = final_name (ge_names env) (gs_cg s1) name exported"
    and b: "gen_body env fuel name final (length params) body otel s1 = Inr (u, s')" by blast
  note d' = gen_declare_Inr[OF d assms(2)]
  from d'(1) obtain ds ctx where v: "verify_expr body (entry_context ds params) = Inr ctx" by blast
  have t: "cg_templates (gs_cg s1) = []" using d'(2) assms(3) by simp
  from gen_body_Inr[OF b] obtain w left s2 where
    f: "gen_frame env fuel name final (length params) body otel s1 = Inr ((w, left), s2)"
    and e: "gen_epilogue env final left w s2 = Inr (u, s')" by blast
  have fl: "frame_left (gs_cg s1) name (vc_stack ctx) (w, left) s2"
    using wp_Inr[OF f gen_frame_left[OF assms(4,5) t assms(2) v]] .
  have "length left = length (vc_stack ctx)"
    using fl by (auto simp: frame_left_def Let_def dest: arg_cong[where f = length])
  then have n: "length left = length params"
    using verify_expr_step[OF v] by (auto simp: ctx_step_def dest: list_all2_lengthD)
  have "filter (\<lambda>i. vc_stack ctx ! i = Available \<and> is_pointer_param (gs_cg s1) name (length params) i) [0..<length params]
    = filter (\<lambda>i. is_pointer_param (gs_cg s) name (length params) i \<and> Take i \<notin> set h) [0..<length params]"
    using final_states[OF v assms(4,6)] d'(3)
    by (intro filter_cong) (auto simp: is_pointer_param_def param_flags_def)
  with wp_Inr[OF e epilogue_closing[OF fl], unfolded n] have
    "cur_insts s' = cur_insts s2 @ closing final
      (filter (\<lambda>i. is_pointer_param (gs_cg s) name (length params) i \<and> Take i \<notin> set h) [0..<length params]) w"
    by simp
  moreover have "final = final_name (ge_names env) (gs_cg s) name exported"
    using final1 final_name_path[OF d'(4)] by simp
  ultimately show ?thesis using d f by blast
qed

definition demo_codegen :: codegen where
  "demo_codegen = (codegen_new ''m.llm'')\<lparr>cg_param_ptrs := [''f'' \<mapsto> [True, True]]\<rparr>"

lemma demo_function:
  "case gen_function plain_gen 0 ''f'' demo_params demo_body True None (empty_gen demo_codegen) of
     Inl f \<Rightarrow> False | Inr (u, s') \<Rightarrow> True"
  by code_simp

text \<open>\<open>f x y\<close> of the demo moves \<open>x\<close> in both branches and reads \<open>y\<close>: the drop is that of \<open>y\<close>.\<close>

lemma gen_function_drops_witness:
  "\<exists>s' pre v. gen_function plain_gen 0 ''f'' demo_params demo_body True None (empty_gen demo_codegen) = Inr ((), s') \<and>
     cur_insts s' = pre @ [Call ''llm_drop'' [ParamVal 1 I64] False, Ret v]"
proof -
  obtain s' where s': "gen_function plain_gen 0 ''f'' demo_params demo_body True None (empty_gen demo_codegen) = Inr ((), s')"
    using demo_function by (auto split: sum.split_asm)
  have "\<forall>p \<in> set demo_params. \<not> param_expand p" by (simp add: demo_params_def)
  moreover have "cg_templates (gs_cg (empty_gen demo_codegen)) = []" by code_simp
  moreover have "below_threshold (ge_threshold plain_gen) demo_body" by code_simp
  ultimately obtain s2 v where "cur_insts s' = cur_insts s2 @
    closing (final_name (ge_names plain_gen) (gs_cg (empty_gen demo_codegen)) ''f'' True)
      (filter (\<lambda>i. is_pointer_param (gs_cg (empty_gen demo_codegen)) ''f'' (length demo_params) i \<and>
        Take i \<notin> set [Bind 0, Bind 1, Use 1, Take 0]) [0..<length demo_params]) v"
    using gen_function_drops[OF s' _ _ demo_plain _ demo_run] by blast
  moreover have "filter (\<lambda>i. is_pointer_param (gs_cg (empty_gen demo_codegen)) ''f'' (length demo_params) i \<and>
        Take i \<notin> set [Bind 0, Bind 1, Use 1, Take 0]) [0..<length demo_params] = [1]"
    by code_simp
  moreover have "final_name (ge_names plain_gen) (gs_cg (empty_gen demo_codegen)) ''f'' True \<noteq> ''main''"
    by code_simp
  ultimately show ?thesis using s' by (auto simp: closing_def)
qed

section \<open>Aliases\<close>


definition alias_state :: gen_state where
  "alias_state = (empty_gen demo_codegen)\<lparr>gs_blocks := [\<lparr>bk_fun = ''f'', bk_label = ''entry'', bk_insts = []\<rparr>],
     gs_stack := [\<lparr>si_value = ParamVal 0 I64, si_state = Available, si_shape = None, si_is_ptr = True\<rparr>]\<rparr>"


end
