(* ===== verification/Prune.thy ===== *)
theory Prune
  imports Analysis
begin

text \<open>
  Dead-code elimination, \<open>prune_dead_code\<close> of \<open>analysis/mod.rs\<close>: a worklist over the
  call graph of a module.  The two \<open>HashSet\<close>s are sets, the stack \<open>to_visit\<close> is a list
  with its top first.  \<open>Prune_Spec\<close> shows what it computes.
\<close>

section \<open>The worklist\<close>

definition defined_name :: "expr \<Rightarrow> string option" where
  "defined_name e =
     (case unwrap_metadata e of Define name params body exported \<Rightarrow> Some name | _ \<Rightarrow> None)"

definition is_root :: "expr \<Rightarrow> bool" where
  "is_root e =
     (case unwrap_metadata e of
        Define name params body exported \<Rightarrow> name = ''main'' \<or> exported | _ \<Rightarrow> False)"

definition root_names :: "expr \<Rightarrow> string list" where
  "root_names e =
     (case unwrap_metadata e of
        Define name params body exported \<Rightarrow> if name = ''main'' \<or> exported then [name] else []
      | Shape name fs exported \<Rightarrow> if exported then [name] else []
      | _ \<Rightarrow> [])"

text \<open>The definitions the inner loop pushes, in the order of the module.\<close>

definition to_push :: "expr list \<Rightarrow> string set \<Rightarrow> string set \<Rightarrow> expr list" where
  "to_push exprs reachable visited =
     filter (\<lambda>d. case defined_name d of
         Some name \<Rightarrow> name \<in> reachable \<and> name \<notin> visited | None \<Rightarrow> False) exprs"

definition mark_visited :: "expr \<Rightarrow> string set \<Rightarrow> string set" where
  "mark_visited e visited =
     (case defined_name e of Some name \<Rightarrow> insert name visited | None \<Rightarrow> visited)"

text \<open>
  The measure of the loop: the definitions not yet visited; and, while the top of the stack
  is none of them, the height of the stack.
\<close>

definition defined_names :: "expr list \<Rightarrow> string list" where
  "defined_names exprs =
     concat (map (\<lambda>e. case defined_name e of Some name \<Rightarrow> [name] | None \<Rightarrow> []) exprs)"

lemma set_defined_names: "name \<in> set (defined_names exprs) \<longleftrightarrow> (\<exists>e \<in> set exprs. defined_name e = Some name)"
  by (auto simp: defined_names_def split: option.split_asm)
     (metis list.set_intros(1) option.simps(5))

definition unvisited :: "expr list \<Rightarrow> string set \<Rightarrow> nat" where
  "unvisited exprs visited = card (set (defined_names exprs) - visited)"

definition is_fresh :: "expr list \<Rightarrow> string set \<Rightarrow> expr \<Rightarrow> bool" where
  "is_fresh exprs visited e =
     (case defined_name e of
        Some name \<Rightarrow> name \<notin> visited \<and> e \<in> set exprs | None \<Rightarrow> False)"

definition idle_height :: "expr list \<Rightarrow> string set \<Rightarrow> expr list \<Rightarrow> nat" where
  "idle_height exprs visited stack =
     (case stack of [] \<Rightarrow> 0 | e # es \<Rightarrow> if is_fresh exprs visited e then 0 else length stack)"

lemma unvisited_fresh:
  assumes "is_fresh exprs visited e"
  shows "unvisited exprs (mark_visited e visited) < unvisited exprs visited"
proof -
  from assms obtain name where n: "defined_name e = Some name" "name \<notin> visited" "e \<in> set exprs"
    by (auto simp: is_fresh_def split: option.split_asm)
  then have "name \<in> set (defined_names exprs)" by (auto simp: set_defined_names)
  with n have "set (defined_names exprs) - insert name visited \<subset> set (defined_names exprs) - visited"
    by blast
  then show ?thesis
    unfolding unvisited_def mark_visited_def n option.case by (intro psubset_card_mono) simp_all
qed

lemma unvisited_le: "unvisited exprs (mark_visited e visited) \<le> unvisited exprs visited"
  by (auto simp: unvisited_def mark_visited_def intro!: card_mono split: option.split)

lemma to_push_fresh:
  "e \<in> set (to_push exprs reachable visited) \<Longrightarrow> is_fresh exprs visited e"
  by (auto simp: to_push_def is_fresh_def split: option.split_asm)

function prune_loop ::
  "expr list \<Rightarrow> string set \<Rightarrow> string set \<Rightarrow> expr list \<Rightarrow> string set" where
  "prune_loop exprs reachable visited [] = reachable"
| "prune_loop exprs reachable visited (e # stack) =
     (let reachable' = reachable \<union> set (get_calls e);
          visited' = mark_visited e visited in
      prune_loop exprs reachable' visited'
        (rev (to_push exprs reachable' visited') @ stack))"
  by pat_completeness auto
termination
proof (relation "measures [\<lambda>(exprs, reachable, visited, stack). unvisited exprs visited,
    \<lambda>(exprs, reachable, visited, stack). idle_height exprs visited stack]", simp, goal_cases)
  case (1 exprs reachable visited e stack r v)
  let ?ps = "rev (to_push exprs r v) @ stack"
  show ?case
  proof (cases "is_fresh exprs visited e")
    case True
    then show ?thesis using unvisited_fresh 1 by simp
  next
    case False
    have "idle_height exprs v ?ps < idle_height exprs visited (e # stack)
        \<or> unvisited exprs v < unvisited exprs visited"
    proof (cases "rev (to_push exprs r v)")
      case Nil
      then show ?thesis using False by (cases stack) (simp_all add: idle_height_def)
    next
      case (Cons d ds)
      then have "d \<in> set (to_push exprs r v)" by (metis list.set_intros(1) set_rev)
      then have "is_fresh exprs v d" by (rule to_push_fresh)
      then show ?thesis using False Cons by (simp add: idle_height_def)
    qed
    then show ?thesis using unvisited_le[of exprs e visited] 1 by auto
  qed
qed

declare prune_loop.simps(2) [simp del]

definition initial_reachable :: "expr list \<Rightarrow> string set" where
  "initial_reachable exprs = set (concat (map root_names exprs))"

definition reachable_names :: "expr list \<Rightarrow> string set" where
  "reachable_names exprs =
     prune_loop exprs (initial_reachable exprs) {} (rev (filter is_root exprs))"

definition keep :: "string set \<Rightarrow> expr \<Rightarrow> bool" where
  "keep reachable e =
     (case unwrap_metadata e of
        Define name params body exported \<Rightarrow> name \<in> reachable
      | Import module symbol arity \<Rightarrow> symbol \<in> reachable
      | Shape name fs exported \<Rightarrow> name \<in> reachable \<or> exported
      | _ \<Rightarrow> True)"

definition prune_dead_code :: "expr list \<Rightarrow> expr list" where
  "prune_dead_code exprs = filter (keep (reachable_names exprs)) exprs"

end
