(* ===== verification/Prune_Spec.thy ===== *)
theory Prune_Spec
  imports Prune
begin

text \<open>
  What \<open>prune_dead_code\<close> computes.  The specification is \<open>needed\<close>, the least set of names that
  holds the roots and is closed under calls; \<open>loop_inv\<close> is the invariant of the worklist.
\<close>

section \<open>The specification\<close>

inductive needed :: "expr list \<Rightarrow> string \<Rightarrow> bool" for exprs :: "expr list" where
  root: "e \<in> set exprs \<Longrightarrow> name \<in> set (root_names e) \<Longrightarrow> needed exprs name"
| call: "needed exprs name \<Longrightarrow> e \<in> set exprs \<Longrightarrow> defined_name e = Some name \<Longrightarrow>
    x \<in> set (get_calls e) \<Longrightarrow> needed exprs x"

text \<open>The declared names of a module are distinct.\<close>

definition declared_name :: "expr \<Rightarrow> string list" where
  "declared_name e =
     (case unwrap_metadata e of
        Define name params body exported \<Rightarrow> [name] | Shape name fs exported \<Rightarrow> [name] | _ \<Rightarrow> [])"

definition distinct_names :: "expr list \<Rightarrow> bool" where
  "distinct_names exprs = distinct (concat (map declared_name exprs))"

lemma distinct_concat_same:
  "distinct (concat (map f xs)) \<Longrightarrow> x \<in> set xs \<Longrightarrow> y \<in> set xs \<Longrightarrow> a \<in> set (f x) \<Longrightarrow>
   a \<in> set (f y) \<Longrightarrow> x = y"
  by (induction xs) auto

lemma declared_unique:
  "distinct_names exprs \<Longrightarrow> e \<in> set exprs \<Longrightarrow> e' \<in> set exprs \<Longrightarrow> a \<in> set (declared_name e) \<Longrightarrow>
   a \<in> set (declared_name e') \<Longrightarrow> e = e'"
  unfolding distinct_names_def by (rule distinct_concat_same)

lemma defined_declared: "defined_name e = Some name \<Longrightarrow> name \<in> set (declared_name e)"
  by (auto simp: defined_name_def declared_name_def split: expr.split_asm)

lemma root_declared: "name \<in> set (root_names e) \<Longrightarrow> name \<in> set (declared_name e)"
  by (auto simp: root_names_def declared_name_def split: expr.split_asm if_split_asm)

lemma root_defined: "name \<in> set (root_names e) \<Longrightarrow> defined_name e = Some name' \<Longrightarrow> is_root e"
  by (auto simp: root_names_def defined_name_def is_root_def split: expr.split_asm if_split_asm)

lemma root_name_root: "is_root e \<Longrightarrow> defined_name e = Some name \<Longrightarrow> name \<in> set (root_names e)"
  by (auto simp: root_names_def defined_name_def is_root_def split: expr.split_asm)

text \<open>The invariant of the loop.\<close>

definition loop_inv :: "expr list \<Rightarrow> string set \<Rightarrow> string set \<Rightarrow> expr list \<Rightarrow> bool" where
  "loop_inv exprs reachable visited stack \<longleftrightarrow>
     initial_reachable exprs \<subseteq> reachable \<and> (\<forall>name \<in> reachable. needed exprs name) \<and>
     (\<forall>e \<in> set stack. e \<in> set exprs \<and> (\<exists>name. defined_name e = Some name \<and> needed exprs name)) \<and>
     (\<forall>e \<in> set exprs. \<forall>name. defined_name e = Some name \<longrightarrow> name \<in> visited \<longrightarrow>
        set (get_calls e) \<subseteq> reachable) \<and>
     (\<forall>e \<in> set exprs. \<forall>name. defined_name e = Some name \<longrightarrow> name \<in> reachable \<longrightarrow>
        name \<in> visited \<or> e \<in> set stack)"

lemma loop_inv_init:
  assumes d: "distinct_names exprs"
  shows "loop_inv exprs (initial_reachable exprs) {} (rev (filter is_root exprs))"
proof -
  have roots: "needed exprs name" if "name \<in> initial_reachable exprs" for name
    using that by (auto simp: initial_reachable_def intro: needed.root)
  have "\<exists>name. defined_name e = Some name \<and> needed exprs name" if "is_root e" "e \<in> set exprs" for e
    using that root_name_root[OF that(1)]
    by (auto simp: is_root_def defined_name_def intro: needed.root split: expr.split_asm)
  moreover have "is_root e"
    if "e \<in> set exprs" "defined_name e = Some name" "name \<in> initial_reachable exprs" for e name
  proof -
    from that(3) obtain e' where e': "e' \<in> set exprs" "name \<in> set (root_names e')"
      by (auto simp: initial_reachable_def)
    with declared_unique[OF d e'(1) that(1)] that(2) have "e' = e"
      by (blast intro: root_declared defined_declared)
    with e' that show ?thesis by (auto dest: root_defined)
  qed
  ultimately show ?thesis using roots by (auto simp: loop_inv_def)
qed

lemma loop_inv_step:
  assumes d: "distinct_names exprs" and inv: "loop_inv exprs reachable visited (e # stack)"
  defines "r \<equiv> reachable \<union> set (get_calls e)" and "v \<equiv> mark_visited e visited"
  shows "loop_inv exprs r v (rev (to_push exprs r v) @ stack)"
proof -
  from inv obtain name where e: "e \<in> set exprs" "defined_name e = Some name" "needed exprs name"
    by (auto simp: loop_inv_def)
  have v: "v = insert name visited" by (simp add: v_def mark_visited_def e)
  have r: "needed exprs x" if "x \<in> r" for x
    using that inv needed.call[OF e(3,1,2)] by (auto simp: r_def loop_inv_def)
  have same: "e' = e" if "e' \<in> set exprs" "defined_name e' = Some name" for e'
    using declared_unique[OF d that(1) e(1)] defined_declared[OF that(2)] defined_declared[OF e(2)]
    by blast
  have "set (get_calls e') \<subseteq> r"
    if "e' \<in> set exprs" "defined_name e' = Some n" "n \<in> v" for e' n
  proof (cases "n = name")
    case True
    then show ?thesis using same[OF that(1)] that(2) by (auto simp: r_def)
  next
    case False
    then have "set (get_calls e') \<subseteq> reachable" using that inv unfolding v loop_inv_def by simp
    then show ?thesis by (auto simp: r_def)
  qed
  moreover have "n \<in> v \<or> e' \<in> set (to_push exprs r v)"
    if "e' \<in> set exprs" "defined_name e' = Some n" "n \<in> r" for e' n
    using that by (simp add: to_push_def)
  moreover have "e' \<in> set exprs \<and> (\<exists>n. defined_name e' = Some n \<and> needed exprs n)"
    if "e' \<in> set (to_push exprs r v)" for e'
    using that r by (auto simp: to_push_def split: option.split_asm)
  moreover have "initial_reachable exprs \<subseteq> r" "\<forall>e' \<in> set stack. e' \<in> set exprs \<and>
      (\<exists>n. defined_name e' = Some n \<and> needed exprs n)"
    using inv by (auto simp: loop_inv_def r_def)
  ultimately show ?thesis using r unfolding loop_inv_def set_append set_rev by blast
qed

lemma prune_loop_needed:
  "distinct_names exprs \<Longrightarrow> loop_inv exprs reachable visited stack \<Longrightarrow>
   prune_loop exprs reachable visited stack = {name. needed exprs name}"
proof (induction exprs reachable visited stack rule: prune_loop.induct)
  case (1 exprs reachable visited)
  have "name \<in> reachable" if "needed exprs name" for name
    using that
  proof (induction rule: needed.induct)
    case (root e name)
    then show ?case using 1 by (auto simp: loop_inv_def initial_reachable_def)
  next
    case (call name e x)
    then have "set (get_calls e) \<subseteq> reachable" using 1 unfolding loop_inv_def by simp
    with call show ?case by blast
  qed
  then show ?case using 1 by (auto simp: loop_inv_def)
next
  case (2 exprs reachable visited e stack)
  from 2(1)[OF refl refl 2(2) loop_inv_step[OF 2(2,3)]] show ?case
    by (simp add: prune_loop.simps(2) Let_def)
qed

lemma reachable_names_needed:
  "distinct_names exprs \<Longrightarrow> reachable_names exprs = {name. needed exprs name}"
  unfolding reachable_names_def by (rule prune_loop_needed[OF _ loop_inv_init])

text \<open>C4: dead-code elimination keeps exactly what is needed.  In a module whose definitions and
  shapes have distinct names, the worklist ends with the least set of names that holds
  \<open>main\<close> and the exported declarations and is closed under the calls of the definitions in
  it; the result is the module, in its order, without the definitions, imports and shapes
  outside that set.\<close>

theorem prune_dead_code_spec:
  assumes "distinct_names exprs"
  shows "prune_dead_code exprs = filter (keep {name. needed exprs name}) exprs"
  by (simp add: prune_dead_code_def reachable_names_needed[OF assms])

definition demo_exprs :: "expr list" where
  "demo_exprs = [Define ''main'' [] (Apply (Identifier ''f'') []) False,
     Define ''f'' [] (Integer 1) False, Define ''g'' [] (Apply (Identifier ''f'') []) False]"

lemma demo_distinct: "distinct_names demo_exprs"
  by (simp add: distinct_names_def demo_exprs_def declared_name_def unwrap_metadata_def)

lemma prune_dead_code_spec_witness:
  "distinct_names demo_exprs \<and>
   prune_dead_code demo_exprs = filter (keep {name. needed demo_exprs name}) demo_exprs"
  using demo_distinct prune_dead_code_spec[of demo_exprs] by blast

end
