(* ===== verification/Pipeline.thy ===== *)
theory Pipeline
  imports Parser_Total Ownership Prune_Spec
begin

text \<open>
  The front end as \<open>main.rs\<close> runs it: parsing, dead-code elimination, verification.  The
  verifier only looks up the functions an expression calls, so the elimination, which keeps
  what is called, does not make it fail; except for calls that \<open>get_calls\<close> does not see.
\<close>

section \<open>The front end\<close>

definition front_end ::
  "parse_env \<Rightarrow> string list \<Rightarrow> string \<Rightarrow> string \<Rightarrow> fail + expr list" where
  "front_end env import_paths input_path input =
     rbind (parse_source env import_paths input_path input) (\<lambda>exprs.
     (let expressions = prune_dead_code exprs in
      case verify_module expressions input_path of
        Some err \<Rightarrow> Inl (CErr err) | None \<Rightarrow> Inr expressions))"

section \<open>The functions a verification looks up\<close>

text \<open>
  \<open>tracks F S v\<close>: when the functions named in \<open>S\<close> are known in \<open>F\<close> too, \<open>v\<close> succeeds
  with \<open>F\<close> where it succeeded before.
\<close>

definition known_in :: "(string \<Rightarrow> usize option) \<Rightarrow> string set \<Rightarrow> vctx \<Rightarrow> bool" where
  "known_in F S ctx \<longleftrightarrow> (\<forall>x \<in> S. vc_functions ctx x \<noteq> None \<longrightarrow> F x \<noteq> None)"

definition with_fns :: "(string \<Rightarrow> usize option) \<Rightarrow> vctx \<Rightarrow> vctx" where
  "with_fns F ctx = ctx\<lparr>vc_functions := F\<rparr>"

definition tracks :: "(string \<Rightarrow> usize option) \<Rightarrow> string set \<Rightarrow> verifier \<Rightarrow> bool" where
  "tracks F S v \<longleftrightarrow> conservative v \<and>
     (\<forall>ctx c. known_in F S ctx \<longrightarrow> v ctx = Inr c \<longrightarrow> v (with_fns F ctx) = Inr (with_fns F c))"

named_theorems track "rules for tracked verifiers"

lemma with_fns_sel [simp]:
  "vc_shapes (with_fns F ctx) = vc_shapes ctx" "vc_functions (with_fns F ctx) = F"
  "vc_stack (with_fns F ctx) = vc_stack ctx" "vc_stack_shapes (with_fns F ctx) = vc_stack_shapes ctx"
  "vc_expand (with_fns F ctx) = vc_expand ctx"
  by (simp_all add: with_fns_def)

lemma with_fns_update [simp]:
  "(with_fns F ctx)\<lparr>vc_stack := s\<rparr> = with_fns F (ctx\<lparr>vc_stack := s\<rparr>)"
  "(with_fns F ctx)\<lparr>vc_stack_shapes := ss\<rparr> = with_fns F (ctx\<lparr>vc_stack_shapes := ss\<rparr>)"
  by (simp_all add: with_fns_def)

lemma known_in_update [simp]:
  "known_in F S (ctx\<lparr>vc_stack := s\<rparr>) = known_in F S ctx"
  "known_in F S (ctx\<lparr>vc_stack_shapes := ss\<rparr>) = known_in F S ctx"
  by (simp_all add: known_in_def)

lemma known_in_step: "ctx_step ctx c \<Longrightarrow> known_in F S ctx \<Longrightarrow> known_in F S c"
  by (simp add: known_in_def ctx_step_frame)

lemma known_in_mono: "known_in F S ctx \<Longrightarrow> S' \<subseteq> S \<Longrightarrow> known_in F S' ctx"
  by (auto simp: known_in_def)

lemma tracks_mono: "tracks F S' v \<Longrightarrow> S' \<subseteq> S \<Longrightarrow> tracks F S v"
  by (auto simp: tracks_def dest: known_in_mono)

lemma tracks_Inr [track]: "tracks F S Inr"
  by (simp add: tracks_def conserve)

lemma tracks_Inl [track]: "tracks F S (\<lambda>ctx. Inl err)"
  by (simp add: tracks_def conserve)

lemma tracks_local [track]:
  "tracks F S (at_index read_slot i)" "tracks F S (at_index move_slot i)"
  "tracks F S (at_expand read_slot x)" "tracks F S (at_expand move_slot x)"
  "tracks F S (check_field inst field)" "tracks F S (check_shape name)"
  "tracks F S (check_inferred e)" "tracks F S (check_map_field e field)"
  by (auto simp: tracks_def at_index_def at_expand_def read_slot_def move_slot_def
      check_field_def field_found_def check_shape_def has_shape_def check_inferred_def
      check_map_field_def split: option.split_asm if_split_asm intro!: conserve)

lemma tracks_callee [track]:
  "set (get_calls func) \<subseteq> S \<Longrightarrow> tracks F S (check_callee func)"
  "set (get_calls func) \<subseteq> S \<Longrightarrow> tracks F S (check_func func)"
  "x \<in> S \<Longrightarrow> tracks F S (verify_identifier x)"
  by (auto simp: tracks_def check_callee_def check_func_def verify_identifier_def known_in_def
      get_calls_def split: expr.split_asm expr.split if_split_asm intro!: conserve)

lemma tracks_seq [track]: "\<forall>v \<in> set vs. tracks F S v \<Longrightarrow> tracks F S (verify_seq vs)"
proof (induction vs)
  case (Cons v vs)
  then have IH: "tracks F S (verify_seq vs)" and v: "tracks F S v" by simp_all
  have "conservative (verify_seq (v # vs))"
    using Cons.prems by (intro conservative_seq) (auto simp: tracks_def)
  moreover have "verify_seq (v # vs) (with_fns F ctx) = Inr (with_fns F c)"
    if k: "known_in F S ctx" and r: "verify_seq (v # vs) ctx = Inr c" for ctx c
  proof -
    from r obtain c1 where 1: "v ctx = Inr c1" "verify_seq vs c1 = Inr c"
      by (auto simp: rbind_Inr_iff)
    have "known_in F S c1" using v 1(1) k unfolding tracks_def conservative_def
      by (blast intro: known_in_step)
    then show ?thesis using v IH 1 k by (simp add: tracks_def)
  qed
  ultimately show ?case unfolding tracks_def by blast
qed (simp add: tracks_def conserve)

lemma tracksD:
  "tracks F S v \<Longrightarrow> known_in F S ctx \<Longrightarrow> v ctx = Inr c \<Longrightarrow>
   v (with_fns F ctx) = Inr (with_fns F c) \<and> known_in F S c"
  unfolding tracks_def conservative_def by (blast intro: known_in_step)

lemma tracks_let [track]:
  assumes "tracks F S v" "tracks F S b"
  shows "tracks F S (verify_let e v b)"
proof -
  have "conservative (verify_let e v b)" using assms by (intro conserve) (simp_all add: tracks_def)
  moreover have "verify_let e v b (with_fns F ctx) = Inr (with_fns F c)"
    if k: "known_in F S ctx" and r: "verify_let e v b ctx = Inr c" for ctx c
  proof -
    from r obtain ctx1 ctx2 where 1: "v ctx = Inr ctx1"
      "b (ctx1\<lparr>vc_stack := vc_stack ctx1 @ [Available],
         vc_stack_shapes := vc_stack_shapes ctx1 @ [infer_shape e (vc_stack_shapes ctx1)]\<rparr>) = Inr ctx2"
      "c = ctx2\<lparr>vc_stack := butlast (vc_stack ctx2), vc_stack_shapes := butlast (vc_stack_shapes ctx2)\<rparr>"
      by (auto simp: verify_let_def rbind_Inr_iff)
    have v: "v (with_fns F ctx) = Inr (with_fns F ctx1)" "known_in F S ctx1"
      using tracksD[OF assms(1) k 1(1)] by simp_all
    show ?thesis using v 1(3) tracksD[OF assms(2) _ 1(2)] by (simp add: verify_let_def)
  qed
  ultimately show ?thesis unfolding tracks_def by blast
qed

lemma tracks_if [track]:
  assumes "tracks F S c" "tracks F S t" "tracks F S f"
  shows "tracks F S (verify_if c t f)"
proof -
  have "conservative (verify_if c t f)" using assms by (intro conserve) (simp_all add: tracks_def)
  moreover have "verify_if c t f (with_fns F ctx) = Inr (with_fns F ctx')"
    if k: "known_in F S ctx" and r: "verify_if c t f ctx = Inr ctx'" for ctx ctx'
  proof -
    from r obtain ctx1 ctx2 where 1: "c ctx = Inr ctx1" "t ctx1 = Inr ctx2"
      "f (ctx2\<lparr>vc_stack := vc_stack ctx1, vc_stack_shapes := vc_stack_shapes ctx1\<rparr>) = Inr ctx'"
      "vc_stack ctx2 = vc_stack ctx'"
      by (auto simp: verify_if_def rbind_Inr_iff split: if_split_asm)
    have c: "c (with_fns F ctx) = Inr (with_fns F ctx1)" "known_in F S ctx1"
      using tracksD[OF assms(1) k 1(1)] by simp_all
    have t: "t (with_fns F ctx1) = Inr (with_fns F ctx2)" "known_in F S ctx2"
      using tracksD[OF assms(2) c(2) 1(2)] by simp_all
    show ?thesis
      using c t 1(4) tracksD[OF assms(3) _ 1(3)] by (simp add: verify_if_def)
  qed
  ultimately show ?thesis unfolding tracks_def by blast
qed

lemma capture_with_fns: "capture_context (with_fns F ctx) = with_fns F (capture_context ctx)"
  by (simp add: capture_context_def)

lemma tracks_trap [track]:
  assumes "tracks F S t" "tracks F S f"
  shows "tracks F S (verify_trap t f)"
proof -
  have "verify_trap t f (with_fns F ctx) = Inr (with_fns F c)"
    if k: "known_in F S ctx" and r: "verify_trap t f ctx = Inr c" for ctx c
  proof -
    have k': "known_in F S (capture_context ctx)" using k by (simp add: capture_context_def)
    from r obtain c1 c2 where "t (capture_context ctx) = Inr c1" "f (capture_context ctx) = Inr c2"
      and c: "c = ctx" unfolding verify_trap_Inr by blast
    then have "t (capture_context (with_fns F ctx)) = Inr (with_fns F c1)"
      "f (capture_context (with_fns F ctx)) = Inr (with_fns F c2)"
      using tracksD[OF assms(1) k'] tracksD[OF assms(2) k'] by (simp_all add: capture_with_fns)
    then show ?thesis by (simp add: verify_trap_def c)
  qed
  then show ?thesis unfolding tracks_def by (blast intro: conservative_trap)
qed

lemma tracks_move [track]: "tracks F S v \<Longrightarrow> tracks F S (verify_move inner v)"
  by (auto simp: verify_move_def split: expr.split intro: track)

text \<open>No \<open>Cat\<close> inside.\<close>

definition cat_free :: "expr \<Rightarrow> bool" where
  "cat_free e \<longleftrightarrow> (\<forall>s. within (\<lambda>_. True) e s \<longrightarrow> \<not> is_cat s)"

lemma cat_free_children: "cat_free e \<Longrightarrow> c \<in> set (children e) \<Longrightarrow> cat_free c"
  by (auto simp: cat_free_def intro: within.below)

lemma cat_free_here: "cat_free e \<Longrightarrow> \<not> is_cat e"
  by (auto simp: cat_free_def intro: within.here)

lemma calls_children:
  "\<not> is_cat e \<Longrightarrow> c \<in> set (children e) \<Longrightarrow> set (get_calls c) \<subseteq> set (get_calls e)"
  by (subst get_calls_node[of e]) auto

lemma verify_node_tracks:
  assumes "\<And>c. c \<in> set (children e) \<Longrightarrow> tracks F S (verify_expr c)"
    and "\<And>c. c \<in> set (children e) \<Longrightarrow> set (get_calls c) \<subseteq> S"
    and "set (names_of e) \<subseteq> S" "\<not> is_cat e"
  shows "tracks F S (verify_expr e)"
  using assms
  by (cases e) (simp_all add: children_def names_of_def is_cat_def track del: verify_seq.simps)

lemma verify_expr_tracks: "cat_free e \<Longrightarrow> tracks F (set (get_calls e)) (verify_expr e)"
proof (induction e rule: expr_children_induct)
  case (node e)
  have cat: "\<not> is_cat e" by (rule cat_free_here[OF node.prems])
  have calls: "set (get_calls c) \<subseteq> set (get_calls e)" if "c \<in> set (children e)" for c
    by (rule calls_children[OF cat that])
  have "tracks F (set (get_calls e)) (verify_expr c)" if "c \<in> set (children e)" for c
    using node.IH[OF that cat_free_children[OF node.prems that]] calls[OF that]
    by (rule tracks_mono)
  moreover have "set (names_of e) \<subseteq> set (get_calls e)" by (subst get_calls_node) auto
  ultimately show ?case using calls cat by (blast intro: verify_node_tracks)
qed

section \<open>Verification after dead-code elimination\<close>

definition is_shape :: "expr \<Rightarrow> bool" where
  "is_shape e = (case unwrap_metadata e of Shape name fs exported \<Rightarrow> True | _ \<Rightarrow> False)"

definition fn_names :: "expr \<Rightarrow> string list" where
  "fn_names e =
     (case unwrap_metadata e of
        Import module symbol arity \<Rightarrow> [symbol] | Define name params body exported \<Rightarrow> [name] | _ \<Rightarrow> [])"

lemma register_shapes:
  "fst ds = fst ds' \<Longrightarrow> fst (register e ds) = fst (register e ds')"
  "\<not> is_shape e \<Longrightarrow> fst (register e ds) = fst ds"
  by (auto simp: register_def is_shape_def split: prod.splits expr.splits)

lemma fold_register_shapes:
  "fst ds = fst ds' \<Longrightarrow> \<forall>e \<in> set es. is_shape e \<longrightarrow> P e \<Longrightarrow>
   fst (fold register es ds) = fst (fold register (filter P es) ds')"
proof (induction es arbitrary: ds ds')
  case (Cons e es)
  show ?case
  proof (cases "P e")
    case True
    from Cons.IH[OF register_shapes(1)[OF Cons.prems(1)]] Cons.prems(2) True show ?thesis by simp
  next
    case False
    then have "fst (register e ds) = fst ds'" using Cons.prems register_shapes(2) by auto
    from Cons.IH[OF this] Cons.prems(2) False show ?thesis by simp
  qed
qed simp

lemma register_fns: "snd (register e ds) x \<noteq> None \<longleftrightarrow> snd ds x \<noteq> None \<or> x \<in> set (fn_names e)"
  by (auto simp: register_def fn_names_def split: prod.splits expr.splits)

lemma fold_register_fns:
  "snd (fold register es ds) x \<noteq> None \<longleftrightarrow> snd ds x \<noteq> None \<or> (\<exists>e \<in> set es. x \<in> set (fn_names e))"
proof (induction es arbitrary: ds)
  case (Cons e es)
  show ?case unfolding fold_simps Cons.IH register_fns by auto
qed simp

lemma unwrap_calls:
  assumes "unwrap_metadata e = Define name params body exported"
  shows "set (get_calls body) \<subseteq> set (get_calls e)" "cat_free e \<Longrightarrow> cat_free body"
proof -
  let ?d = "Define name params body exported"
  have d: "set (get_calls body) \<subseteq> set (get_calls ?d)" "cat_free ?d \<Longrightarrow> cat_free body"
    using cat_free_children[of ?d body] by (simp_all add: get_calls_def children_def)
  from assms have "e = ?d \<or> \<not> is_cat e \<and> ?d \<in> set (children e)"
    by (auto simp: unwrap_metadata_def is_cat_def children_def split: expr.split_asm)
  then show "set (get_calls body) \<subseteq> set (get_calls e)" "cat_free e \<Longrightarrow> cat_free body"
    using d calls_children[of e ?d] cat_free_children[of e ?d] by auto
qed

lemma verify_defs_iff:
  "verify_defs filename ds es = None \<longleftrightarrow> (\<forall>e \<in> set es. verify_top filename ds e = None)"
  by (induction es) (auto split: option.split)

text \<open>C5: dead-code elimination does not break a module that verifies.  If the declared names are
  distinct, no definition uses a string concatenation, and every shape of the module is
  needed or exported, then the pruned module verifies whenever the module did.\<close>

theorem prune_preserves_verification:
  assumes "distinct_names es" "verify_module es filename = None"
    and "\<forall>e \<in> set es. cat_free e"
    and "\<forall>e \<in> set es. is_shape e \<longrightarrow> keep {name. needed es name} e"
  shows "verify_module (prune_dead_code es) filename = None"
  unfolding verify_module_def verify_defs_iff
proof
  let ?P = "keep {name. needed es name}"
  let ?ds = "register_all es" and ?ds' = "register_all (prune_dead_code es)"
  fix e assume "e \<in> set (prune_dead_code es)"
  then have e: "e \<in> set es" "?P e" by (auto simp: prune_dead_code_spec[OF assms(1)])
  have top: "verify_top filename ?ds e = None"
    using assms(2) e(1) by (simp add: verify_module_def verify_defs_iff)
  have shapes: "fst ?ds' = fst ?ds"
    unfolding register_all_def prune_dead_code_spec[OF assms(1)]
    by (rule fold_register_shapes[symmetric]) (use assms(4) in simp_all)
  show "verify_top filename ?ds' e = None"
  proof (cases "\<exists>name params body exported. unwrap_metadata e = Define name params body exported")
    case True
    then obtain name params body exported
      where d: "unwrap_metadata e = Define name params body exported" by blast
    then obtain c where c: "verify_expr body (entry_context ?ds params) = Inr c"
      using top by (auto simp: verify_top_def split: sum.split_asm)
    have "needed es name" using e(2) d by (simp add: keep_def)
    then have calls: "needed es x" if "x \<in> set (get_calls body)" for x
      using needed.call[of es name e x] e(1) d unwrap_calls(1)[OF d] that
      by (auto simp: defined_name_def)
    have "known_in (snd ?ds') (set (get_calls body)) (entry_context ?ds params)"
      unfolding known_in_def
    proof (intro ballI impI)
      fix x assume x: "x \<in> set (get_calls body)"
        and "vc_functions (entry_context ?ds params) x \<noteq> None"
      then obtain e' where "e' \<in> set es" "x \<in> set (fn_names e')"
        by (auto simp: entry_context_def register_all_def fold_register_fns simp del: not_None_eq)
      moreover from this calls[OF x] have "?P e'"
        by (auto simp: keep_def fn_names_def split: expr.splits)
      ultimately have "\<exists>e' \<in> set (prune_dead_code es). x \<in> set (fn_names e')"
        by (auto simp: prune_dead_code_spec[OF assms(1)])
      then show "snd ?ds' x \<noteq> None"
        by (simp add: register_all_def fold_register_fns del: not_None_eq)
    qed
    moreover have "cat_free body" using unwrap_calls(2)[OF d] assms(3) e(1) by blast
    ultimately have "verify_expr body (with_fns (snd ?ds') (entry_context ?ds params))
        = Inr (with_fns (snd ?ds') c)"
      using verify_expr_tracks[of body] c by (auto simp: tracks_def)
    moreover have "with_fns (snd ?ds') (entry_context ?ds params) = entry_context ?ds' params"
      by (simp add: with_fns_def entry_context_def shapes)
    ultimately show ?thesis by (simp add: verify_top_def d)
  qed (auto simp: verify_top_def split: expr.split)
qed

lemma prune_preserves_verification_witness:
  "verify_module (prune_dead_code demo_exprs) ''m'' = None"
proof (rule prune_preserves_verification[OF demo_distinct])
  show "verify_module demo_exprs ''m'' = None"
    by (simp add: demo_exprs_def verify_module_def register_all_def register_def
        unwrap_metadata_def verify_top_def entry_context_def check_callee_def)
  show "\<forall>e \<in> set demo_exprs. cat_free e"
    by (simp add: demo_exprs_def cat_free_def within_unfold[of _ "Define _ _ _ _"]
        within_unfold[of _ "Apply _ _"] within_unfold[of _ "Identifier _"]
        within_unfold[of _ "Integer _"] children_def is_cat_def)
  show "\<forall>e \<in> set demo_exprs. is_shape e \<longrightarrow> keep {name. needed demo_exprs name} e"
    by (simp add: demo_exprs_def is_shape_def unwrap_metadata_def)
qed

section \<open>Calls that the elimination does not see\<close>

text \<open>\<open>reaches w v\<close>: when \<open>v\<close> succeeds, \<open>w\<close> succeeded with the same functions.\<close>

definition reaches :: "verifier \<Rightarrow> verifier \<Rightarrow> bool" where
  "reaches w v \<longleftrightarrow> (\<forall>ctx c. v ctx = Inr c \<longrightarrow>
     (\<exists>ctx1 c1. vc_functions ctx1 = vc_functions ctx \<and> w ctx1 = Inr c1))"

named_theorems reach "rules for the verifiers of subexpressions"

lemma conservative_functions: "conservative v \<Longrightarrow> v ctx = Inr c \<Longrightarrow> vc_functions c = vc_functions ctx"
  by (auto simp: conservative_def dest: ctx_step_frame)

lemma reached:
  "w ctx1 = Inr c1 \<Longrightarrow> vc_functions ctx1 = vc_functions ctx \<Longrightarrow>
   \<exists>ctx1 c1. vc_functions ctx1 = vc_functions ctx \<and> w ctx1 = Inr c1"
  by blast

lemma reaches_self [reach]: "reaches v v"
  by (auto simp: reaches_def)

lemma reaches_seq [reach]:
  "w \<in> set vs \<Longrightarrow> \<forall>v \<in> set vs. conservative v \<Longrightarrow> reaches w (verify_seq vs)"
proof (induction vs)
  case (Cons v vs)
  show ?case
  proof (cases "w = v")
    case False
    then have IH: "reaches w (verify_seq vs)" using Cons by simp
    show ?thesis
      unfolding reaches_def
    proof (intro allI impI)
      fix ctx c assume "verify_seq (v # vs) ctx = Inr c"
      then obtain c1 where 1: "v ctx = Inr c1" "verify_seq vs c1 = Inr c" by (auto simp: rbind_Inr_iff)
      have "vc_functions c1 = vc_functions ctx"
        using conservative_functions[of v ctx c1] 1(1) Cons.prems(2) by simp
      with IH 1(2) show "\<exists>ctx1 c1. vc_functions ctx1 = vc_functions ctx \<and> w ctx1 = Inr c1"
        unfolding reaches_def by metis
    qed
  qed (auto simp: reaches_def rbind_Inr_iff)
qed simp

lemma reaches_let [reach]:
  assumes "conservative v"
  shows "reaches v (verify_let e v b)" "reaches b (verify_let e v b)"
proof -
  show "reaches v (verify_let e v b)" by (auto simp: reaches_def verify_let_def rbind_Inr_iff)
  show "reaches b (verify_let e v b)"
    unfolding reaches_def
  proof (intro allI impI)
    fix ctx c assume "verify_let e v b ctx = Inr c"
    then obtain c1 c2 where 1: "v ctx = Inr c1" "b (c1\<lparr>vc_stack := vc_stack c1 @ [Available],
        vc_stack_shapes := vc_stack_shapes c1 @ [infer_shape e (vc_stack_shapes c1)]\<rparr>) = Inr c2"
      by (auto simp: verify_let_def rbind_Inr_iff)
    show "\<exists>ctx1 c1. vc_functions ctx1 = vc_functions ctx \<and> b ctx1 = Inr c1"
      using conservative_functions[OF assms 1(1)] by (intro reached[where w = b, OF 1(2)]) simp
  qed
qed

lemma reaches_if [reach]:
  assumes "conservative c" "conservative t"
  shows "reaches c (verify_if c t f)" "reaches t (verify_if c t f)" "reaches f (verify_if c t f)"
proof -
  show "reaches c (verify_if c t f)" by (auto simp: reaches_def verify_if_def rbind_Inr_iff)
  have "\<exists>ctx1 c1. vc_functions ctx1 = vc_functions ctx \<and> t ctx1 = Inr c1"
    "\<exists>ctx1 c1. vc_functions ctx1 = vc_functions ctx \<and> f ctx1 = Inr c1"
    if "verify_if c t f ctx = Inr ctx'" for ctx ctx'
  proof -
    from that obtain c1 c2 c3 where 1: "c ctx = Inr c1" "t c1 = Inr c2"
      "f (c2\<lparr>vc_stack := vc_stack c1, vc_stack_shapes := vc_stack_shapes c1\<rparr>) = Inr c3"
      by (auto simp: verify_if_def rbind_Inr_iff)
    have e: "vc_functions c1 = vc_functions ctx" "vc_functions c2 = vc_functions c1"
      using conservative_functions[OF assms(1) 1(1)] conservative_functions[OF assms(2) 1(2)] .
    show "\<exists>ctx1 c1. vc_functions ctx1 = vc_functions ctx \<and> t ctx1 = Inr c1" using 1(2) e(1) by blast
    show "\<exists>ctx1 c1. vc_functions ctx1 = vc_functions ctx \<and> f ctx1 = Inr c1"
      by (intro reached[where w = f, OF 1(3)]) (simp add: e)
  qed
  then show "reaches t (verify_if c t f)" "reaches f (verify_if c t f)"
    unfolding reaches_def by blast+
qed

lemma reaches_trap [reach]: "reaches t (verify_trap t f)" "reaches f (verify_trap t f)"
proof -
  have "vc_functions (capture_context ctx) = vc_functions ctx" for ctx
    by (simp add: capture_context_def)
  then show "reaches t (verify_trap t f)" "reaches f (verify_trap t f)"
    unfolding reaches_def verify_trap_Inr by blast+
qed

text \<open>
  Every subexpression is verified, except the function of a \<open>Map\<close> or a \<open>Filter\<close> and the
  callee, of which only the name is looked up.
\<close>

definition by_name :: "expr \<Rightarrow> bool" where
  "by_name e = (case e of Map inst field func \<Rightarrow> True | Filter inst func \<Rightarrow> True | _ \<Rightarrow> False)"

definition is_apply :: "expr \<Rightarrow> bool" where
  "is_apply e = (case e of Apply f args \<Rightarrow> True | _ \<Rightarrow> False)"

lemma reaches_children:
  assumes "\<not> by_name e" "\<not> is_apply e" "\<forall>a. e \<noteq> Move a" "verify_expr e ctx = Inr ctx'"
  shows "\<forall>c \<in> set (children e). reaches (verify_expr c) (verify_expr e)"
  using assms
  by (cases e) (simp_all add: children_def by_name_def is_apply_def reach verify_expr_conservative
      conserve del: verify_seq.simps split: if_split_asm)

lemma reaches_argument:
  assumes "c \<in> set args" "verify_expr (Apply f args) ctx = Inr ctx'"
  shows "reaches (verify_expr c) (verify_expr (Apply f args))"
proof -
  have "conservative (check_callee f)" by (rule conserve)
  with assms(1) show ?thesis
    unfolding verify_expr.simps by (intro reach) (auto simp: verify_expr_conservative)
qed

lemma reaches_child:
  assumes "c \<in> set (children e)" "\<not> by_name e" "verify_expr e ctx = Inr ctx'"
  shows "reaches (verify_expr c) (verify_expr e) \<or> children c = [] \<and> \<not> is_apply c"
proof (cases "is_apply e \<or> (\<exists>a. e = Move a)")
  case False
  then show ?thesis using reaches_children[OF assms(2) _ _ assms(3)] assms(1) by blast
next
  case True
  then consider f args where "e = Apply f args" | a where "e = Move a"
    by (auto simp: is_apply_def split: expr.split_asm)
  then show ?thesis
  proof cases
    case 1
    then consider "c \<in> set args" | x where "c = Identifier x"
      using assms(1,3) by (auto simp: children_def check_callee_def rbind_Inr_iff split: expr.split_asm)
    then show ?thesis
      using reaches_argument[of c args f] assms(3) 1 by cases (simp_all add: children_def is_apply_def)
  next
    case 2
    then have "c = a" using assms(1) by (simp add: children_def)
    then show ?thesis
      unfolding 2 verify_expr.simps verify_move_def
      by (cases a) (simp_all add: reaches_self children_def is_apply_def)
  qed
qed

lemma verified_call_known:
  "within (\<lambda>n. \<not> by_name n) e s \<Longrightarrow> s = Apply (Identifier g) args \<Longrightarrow> verify_expr e ctx = Inr ctx' \<Longrightarrow>
   vc_functions ctx g \<noteq> None"
proof (induction arbitrary: ctx ctx' rule: within.induct)
  case (here e)
  then show ?case by (auto simp: check_callee_def rbind_Inr_iff split: if_split_asm)
next
  case (below e c s)
  have "reaches (verify_expr c) (verify_expr e)"
    using reaches_child[OF below.hyps(2,1) below.prems(2)] below.hyps(3) below.prems(1)
    by (subst (asm) within_unfold[of _ c]) (auto simp: is_apply_def)
  then obtain ctx1 c1 where "vc_functions ctx1 = vc_functions ctx" "verify_expr c ctx1 = Inr c1"
    using below.prems(2) unfolding reaches_def by blast
  with below.IH[OF below.prems(1)] show ?case by metis
qed

lemma pruned_functions:
  assumes "distinct_names es" "\<not> needed es g" "e \<in> set (prune_dead_code es)"
  shows "g \<notin> set (fn_names e)"
  using assms(2,3) unfolding prune_dead_code_spec[OF assms(1)]
  by (auto simp: keep_def fn_names_def split: expr.split_asm)

text \<open>C13: a call that the elimination does not see makes it break the program.  If a surviving
  definition calls a function at any place that the verifier looks at, and this function is not
  found needed, then its definition or import is removed and the pruned module is rejected.  By
  the specification of \<open>get_calls\<close> the only such places are the operands of a concatenation: the
  witness is a module that verifies as it was parsed.\<close>

theorem unseen_call_rejected:
  assumes "distinct_names es" "e \<in> set es" "unwrap_metadata e = Define name params body exported"
    and "needed es name" "within (\<lambda>n. \<not> by_name n) body (Apply (Identifier g) args)"
    and "\<not> needed es g"
  shows "(\<forall>d \<in> set (prune_dead_code es). g \<notin> set (fn_names d)) \<and>
    verify_module (prune_dead_code es) filename \<noteq> None"
proof (intro conjI ballI notI)
  fix d assume "d \<in> set (prune_dead_code es)" "g \<in> set (fn_names d)"
  with pruned_functions[OF assms(1,6)] show False by blast
next
  let ?ds = "register_all (prune_dead_code es)"
  assume v: "verify_module (prune_dead_code es) filename = None"
  have "e \<in> set (prune_dead_code es)"
    using assms(2-4) by (simp add: prune_dead_code_spec[OF assms(1)] keep_def)
  with v have "verify_top filename ?ds e = None" by (simp add: verify_module_def verify_defs_iff)
  then obtain c where "verify_expr body (entry_context ?ds params) = Inr c"
    by (auto simp: verify_top_def assms(3) split: sum.split_asm)
  from verified_call_known[OF assms(5) refl this] have "snd ?ds g \<noteq> None"
    by (simp add: entry_context_def del: not_None_eq)
  then show False
    using pruned_functions[OF assms(1,6)]
    by (auto simp: register_all_def fold_register_fns simp del: not_None_eq)
qed

definition greeting :: "expr list" where
  "greeting = [Define ''main'' [] (Cat (String ''hello '') (Apply (Identifier ''name'') [])) False,
     Define ''name'' [] (String ''world'') False]"

lemma greeting_needed: "needed greeting x \<longleftrightarrow> x = ''main''"
proof
  show "needed greeting x \<Longrightarrow> x = ''main''"
    by (induction rule: needed.induct)
      (auto simp: greeting_def root_names_def unwrap_metadata_def defined_name_def get_calls_def)
  show "x = ''main'' \<Longrightarrow> needed greeting x"
    by (rule needed.root[of "hd greeting"])
      (simp_all add: greeting_def root_names_def unwrap_metadata_def)
qed

lemma unseen_call_rejected_witness:
  "verify_module greeting ''m'' = None \<and> verify_module (prune_dead_code greeting) ''m'' \<noteq> None"
proof
  show "verify_module greeting ''m'' = None"
    by (simp add: greeting_def verify_module_def register_all_def register_def
        unwrap_metadata_def verify_top_def entry_context_def check_callee_def)
  have "within (\<lambda>n. \<not> by_name n) (Cat (String ''hello '') (Apply (Identifier ''name'') []))
      (Apply (Identifier ''name'') [])"
    by (rule within.below[OF _ _ within.here]) (simp_all add: by_name_def children_def)
  then show "verify_module (prune_dead_code greeting) ''m'' \<noteq> None"
    by (intro unseen_call_rejected[where e = "hd greeting" and g = "''name''" and params = "[]" and
        exported = False, THEN conjunct2])
      (simp_all add: greeting_needed, simp_all add: greeting_def distinct_names_def
        declared_name_def unwrap_metadata_def)
qed

end
