(* ===== verification/Pointer_Types.thy ===== *)
theory Pointer_Types
  imports Symbols Prune_Spec
begin

text \<open>
  The inference of pointer types over a module (\<open>analyze_module_types\<close>,
  \<open>infer_constraints\<close> and \<open>mark_as_ptr\<close> in \<open>codegen/symbol.rs\<close>): which parameters of which
  functions are pointers, and which functions return one.  The code generator drops and
  duplicates values by these flags.
\<close>

section \<open>Constraints from one body\<close>

text \<open>The flags of the stack and of the parameters, the latter a prefix of the former.\<close>

type_synonym flags = "bool list \<times> bool list"

definition mark_slot :: "usize \<Rightarrow> flags \<Rightarrow> flags" where
  "mark_slot idx st =
     (case st of (stack_ptrs, param_ptrs) \<Rightarrow>
        if idx < length stack_ptrs then
          (let actual_idx = slot stack_ptrs idx in
           (stack_ptrs[actual_idx := True],
            if actual_idx < length param_ptrs then param_ptrs[actual_idx := True] else param_ptrs))
        else st)"

fun mark_as_ptr :: "expr \<Rightarrow> flags \<Rightarrow> flags" where
  "mark_as_ptr e st =
     (case e of
        DeBruijn idx \<Rightarrow> mark_slot idx st
      | Move e' \<Rightarrow> mark_as_ptr e' st
      | Borrow e' \<Rightarrow> mark_as_ptr e' st
      | MutBorrow e' \<Rightarrow> mark_as_ptr e' st
      | _ \<Rightarrow> st)"

declare mark_as_ptr.simps [simp del]

text \<open>What the inference reads: the names of functions, and the two tables.\<close>

record type_tables =
  tt_resolve :: "string \<Rightarrow> string"
  tt_returns :: "string \<Rightarrow> bool option"
  tt_params :: "string \<Rightarrow> bool list option"

definition mark_flagged :: "bool list \<Rightarrow> expr list \<Rightarrow> flags \<Rightarrow> flags" where
  "mark_flagged param_types args =
     in_order (map (\<lambda>(arg, is_ptr). if is_ptr then mark_as_ptr arg else id) (zip args param_types))"

definition mark_arguments :: "type_tables \<Rightarrow> expr \<Rightarrow> expr list \<Rightarrow> flags \<Rightarrow> flags" where
  "mark_arguments tt f args =
     (case f of
        Identifier callee_name \<Rightarrow>
          (let resolved = tt_resolve tt callee_name in
           if resolved = ''verify'' \<or> resolved = ''crypto_verify'' then
             (if length args \<ge> 3 then in_order (map mark_as_ptr (take 3 args)) else id)
           else if resolved = ''sign'' \<or> resolved = ''crypto_sign'' then
             (if length args \<ge> 2 then in_order (map mark_as_ptr (take 2 args)) else id)
           else (case (case tt_params tt resolved of
                         Some ts \<Rightarrow> Some ts | None \<Rightarrow> tt_params tt callee_name) of
                   Some param_types \<Rightarrow> mark_flagged param_types args
                 | None \<Rightarrow> id))
      | _ \<Rightarrow> id)"

definition infer_let :: "type_tables \<Rightarrow> expr \<Rightarrow> (flags \<Rightarrow> flags) \<Rightarrow> (flags \<Rightarrow> flags) \<Rightarrow> flags \<Rightarrow> flags" where
  "infer_let tt val_expr infer_val infer_body st =
     (case infer_val st of (stack_ptrs, param_ptrs) \<Rightarrow>
       (let val_ptr = returns_ptr_with_stack val_expr stack_ptrs (tt_returns tt) in
        case infer_body (stack_ptrs @ [val_ptr], param_ptrs) of
          (stack_ptrs', param_ptrs') \<Rightarrow> (butlast stack_ptrs', param_ptrs')))"

text \<open>The marks of a node come before the constraints of its parts.\<close>

primrec infer_constraints :: "type_tables \<Rightarrow> expr \<Rightarrow> flags \<Rightarrow> flags" where
  "infer_constraints tt (Let name val body) =
     infer_let tt val (infer_constraints tt val) (infer_constraints tt body)"
| "infer_constraints tt (Seq l r) = in_order [infer_constraints tt l, infer_constraints tt r]"
| "infer_constraints tt (If c t f) =
     in_order [infer_constraints tt c, infer_constraints tt t, infer_constraints tt f]"
| "infer_constraints tt (Move e) = infer_constraints tt e"
| "infer_constraints tt (Borrow e) = infer_constraints tt e"
| "infer_constraints tt (MutBorrow e) = infer_constraints tt e"
| "infer_constraints tt (Trap t f) = in_order [infer_constraints tt t, infer_constraints tt f]"
| "infer_constraints tt (Cat l r) =
     in_order [mark_as_ptr l, mark_as_ptr r, infer_constraints tt l, infer_constraints tt r]"
| "infer_constraints tt (Sub s b l) =
     in_order [mark_as_ptr s, infer_constraints tt s, infer_constraints tt b, infer_constraints tt l]"
| "infer_constraints tt (Len e) = in_order [mark_as_ptr e, infer_constraints tt e]"
| "infer_constraints tt (Loc s p) =
     in_order [mark_as_ptr s, mark_as_ptr p, infer_constraints tt s, infer_constraints tt p]"
| "infer_constraints tt (Reg s r) =
     in_order [mark_as_ptr s, mark_as_ptr r, infer_constraints tt s, infer_constraints tt r]"
| "infer_constraints tt (Split s d idx) =
     in_order [mark_as_ptr s, mark_as_ptr d, infer_constraints tt s, infer_constraints tt d,
       infer_constraints tt idx]"
| "infer_constraints tt (Write h s) =
     in_order [mark_as_ptr h, mark_as_ptr s, infer_constraints tt h, infer_constraints tt s]"
| "infer_constraints tt (Apply f args) =
     in_order (infer_constraints tt f # map (infer_constraints tt) args @ [mark_arguments tt f args])"
| "infer_constraints tt (Get inst field idx) =
     in_order [mark_as_ptr inst, infer_constraints tt inst, infer_constraints tt idx]"
| "infer_constraints tt (Set inst field idx val) =
     in_order [mark_as_ptr inst, infer_constraints tt inst, infer_constraints tt idx,
       infer_constraints tt val]"
| "infer_constraints tt (Unpack e shape) = in_order [mark_as_ptr e, infer_constraints tt e]"
| "infer_constraints tt (Pack e) = in_order [mark_as_ptr e, infer_constraints tt e]"
| "infer_constraints tt (Map inst field func) =
     in_order [mark_as_ptr inst, infer_constraints tt inst, infer_constraints tt func]"
| "infer_constraints tt (Filter inst func) =
     in_order [mark_as_ptr inst, infer_constraints tt inst, infer_constraints tt func]"
| "infer_constraints tt (HttpClient m u b) =
     in_order [mark_as_ptr m, mark_as_ptr u, mark_as_ptr b, infer_constraints tt m,
       infer_constraints tt u, infer_constraints tt b]"
| "infer_constraints tt (HttpServer op arg) = in_order [mark_as_ptr arg, infer_constraints tt arg]"
| "infer_constraints tt (FileOpen p m) =
     in_order [mark_as_ptr p, mark_as_ptr m, infer_constraints tt p, infer_constraints tt m]"
| "infer_constraints tt (Integer i) = id"
| "infer_constraints tt (Float x) = id"
| "infer_constraints tt (DeBruijn idx) = id"
| "infer_constraints tt (Identifier s) = id"
| "infer_constraints tt (BinaryOp tok l r) = id"
| "infer_constraints tt (Define name params body exported) = id"
| "infer_constraints tt (Shape name flds exported) = id"
| "infer_constraints tt (New shape cnt) = id"
| "infer_constraints tt (Expand name) = id"
| "infer_constraints tt (Import module symbol arity) = id"
| "infer_constraints tt (String s) = id"
| "infer_constraints tt (Read h) = id"
| "infer_constraints tt (Str e) = id"
| "infer_constraints tt TimeNow = id"
| "infer_constraints tt TimeNano = id"
| "infer_constraints tt (TimeGet t i) = id"
| "infer_constraints tt (TimeSet y m dy h mn s) = id"
| "infer_constraints tt (Env k) = id"
| "infer_constraints tt (Metadata tag val t) = id"
| "infer_constraints tt (OtelEmit t a1 a2 a3) = id"
| "infer_constraints tt (MoneyOp tok a b) = id"
| "infer_constraints tt (MoneyStr e) = id"
| "infer_constraints tt (TimeOp tok a b) = id"
| "infer_constraints tt TimeZone = id"
| "infer_constraints tt (Panic e) = id"
| "infer_constraints tt (HttpHeader req name) = id"

section \<open>The fixed point over a module\<close>

record type_state =
  ts_returns :: "string \<Rightarrow> bool option"
  ts_params :: "string \<Rightarrow> bool list option"

text \<open>The three keys a definition is entered under: its name, and its two symbol names.\<close>

definition keys :: "llvm_names \<Rightarrow> codegen \<Rightarrow> string \<Rightarrow> string list" where
  "keys ln cg name = [name, mangle_name ln cg name, resolve_func_name ln cg name]"

definition insert_all :: "string list \<Rightarrow> 'v \<Rightarrow> (string \<Rightarrow> 'v option) \<Rightarrow> (string \<Rightarrow> 'v option)" where
  "insert_all ks v m = fold (\<lambda>k m. m(k \<mapsto> v)) ks m"

definition init_types :: "llvm_names \<Rightarrow> codegen \<Rightarrow> expr \<Rightarrow> type_state \<Rightarrow> type_state" where
  "init_types ln cg e ts =
     (case unwrap_metadata e of
        Define name params body exported \<Rightarrow>
          ts\<lparr>ts_returns := insert_all (keys ln cg name) False (ts_returns ts),
             ts_params := insert_all (keys ln cg name) (map (\<lambda>_. False) params) (ts_params ts)\<rparr>
      | _ \<Rightarrow> ts)"

definition tables :: "llvm_names \<Rightarrow> codegen \<Rightarrow> type_state \<Rightarrow> type_tables" where
  "tables ln cg ts =
     \<lparr>tt_resolve = resolve_func_name ln cg, tt_returns = ts_returns ts, tt_params = ts_params ts\<rparr>"

definition current_params :: "string \<Rightarrow> param list \<Rightarrow> type_state \<Rightarrow> bool list" where
  "current_params name params ts =
     (case ts_params ts name of Some ps \<Rightarrow> ps | None \<Rightarrow> map (\<lambda>_. False) params)"

text \<open>
  One definition: its parameters from its body, then its result from its parameters.  The
  \<open>unwrap\<close> cannot fail, since the name was entered by \<open>init_types\<close>.
\<close>

definition infer_params :: "llvm_names \<Rightarrow> codegen \<Rightarrow> string \<Rightarrow> param list \<Rightarrow> expr \<Rightarrow> type_state \<Rightarrow> bool list" where
  "infer_params ln cg name params body ts =
     (let cur = current_params name params ts in
      snd (infer_constraints (tables ln cg ts) body (cur, cur)))"

definition analyze_define ::
  "llvm_names \<Rightarrow> codegen \<Rightarrow> expr \<Rightarrow> type_state \<times> bool \<Rightarrow> type_state \<times> bool" where
  "analyze_define ln cg e st =
     (case st of (ts, changed) \<Rightarrow>
      (case unwrap_metadata e of
         Define name params body exported \<Rightarrow>
           (let new_params = infer_params ln cg name params body ts;
                (ts1, changed1) =
                  (if new_params \<noteq> current_params name params ts
                   then (ts\<lparr>ts_params := insert_all (keys ln cg name) new_params (ts_params ts)\<rparr>, True)
                   else (ts, changed));
                returns = returns_ptr_with_stack body (current_params name params ts1) (ts_returns ts1) in
            if returns \<and> ts_returns ts1 name \<noteq> Some True
            then (ts1\<lparr>ts_returns := insert_all (keys ln cg name) True (ts_returns ts1)\<rparr>, True)
            else (ts1, changed1))
       | _ \<Rightarrow> (ts, changed)))"

definition analyze_round :: "llvm_names \<Rightarrow> codegen \<Rightarrow> expr list \<Rightarrow> type_state \<Rightarrow> type_state \<times> bool" where
  "analyze_round ln cg exprs ts = fold (analyze_define ln cg) exprs (ts, False)"

text \<open>\<open>while changed && iterations < 100\<close>, with the rounds left.\<close>

primrec analyze_loop :: "llvm_names \<Rightarrow> codegen \<Rightarrow> expr list \<Rightarrow> nat \<Rightarrow> type_state \<Rightarrow> type_state" where
  "analyze_loop ln cg exprs 0 ts = ts"
| "analyze_loop ln cg exprs (Suc rounds) ts =
     (case analyze_round ln cg exprs ts of (ts', changed) \<Rightarrow>
        if changed then analyze_loop ln cg exprs rounds ts' else ts')"

definition initial_types :: "llvm_names \<Rightarrow> codegen \<Rightarrow> expr list \<Rightarrow> type_state" where
  "initial_types ln cg exprs =
     fold (init_types ln cg) exprs \<lparr>ts_returns = cg_returns_ptr cg, ts_params = cg_param_ptrs cg\<rparr>"

definition module_types :: "llvm_names \<Rightarrow> codegen \<Rightarrow> expr list \<Rightarrow> type_state" where
  "module_types ln cg exprs = analyze_loop ln cg exprs 100 (initial_types ln cg exprs)"

definition analyze_module_types :: "llvm_names \<Rightarrow> expr list \<Rightarrow> codegen \<Rightarrow> codegen" where
  "analyze_module_types ln exprs cg =
     (let ts = module_types ln cg exprs in
      cg\<lparr>cg_returns_ptr := ts_returns ts, cg_param_ptrs := ts_params ts\<rparr>)"

section \<open>Flags only grow\<close>

named_theorems grows "state transformers that only set flags"

definition flags_le :: "flags \<Rightarrow> flags \<Rightarrow> bool" where
  "flags_le a b \<longleftrightarrow> list_all2 (\<longrightarrow>) (fst a) (fst b) \<and> list_all2 (\<longrightarrow>) (snd a) (snd b)"

definition growing :: "(flags \<Rightarrow> flags) \<Rightarrow> bool" where
  "growing f \<longleftrightarrow> (\<forall>st. flags_le st (f st))"

lemma flags_le_refl [simp]: "flags_le a a"
  by (simp add: flags_le_def list_all2_refl)

lemma imp_trans_all2: "list_all2 (\<longrightarrow>) xs ys \<Longrightarrow> list_all2 (\<longrightarrow>) ys zs \<Longrightarrow> list_all2 (\<longrightarrow>) xs zs"
  by (auto simp: list_all2_conv_all_nth)

lemma flags_le_trans: "flags_le a b \<Longrightarrow> flags_le b c \<Longrightarrow> flags_le a c"
  using imp_trans_all2 by (auto simp: flags_le_def)

lemma set_flag_le: "list_all2 (\<longrightarrow>) xs (xs[i := True])"
proof -
  have "xs ! j \<Longrightarrow> xs[i := True] ! j" if "j < length xs" for j
    using that by (cases "j = i") simp_all
  then show ?thesis by (auto simp: list_all2_conv_all_nth)
qed

lemma growing_id [grows]: "growing id" "growing (\<lambda>st. st)"
  by (simp_all add: growing_def)

lemma growing_mark_slot [grows]: "growing (mark_slot idx)"
  by (auto simp: growing_def flags_le_def mark_slot_def set_flag_le list_all2_refl Let_def split: prod.split)

lemma growing_mark [grows]: "growing (mark_as_ptr e)"
proof -
  have "flags_le st (mark_as_ptr e st)" for st
    using growing_mark_slot
    by (induction e st rule: mark_as_ptr.induct)
       (subst mark_as_ptr.simps, auto simp: growing_def split: expr.split)
  then show ?thesis by (simp add: growing_def)
qed

lemma growing_in_order [grows]: "\<forall>f \<in> set fs. growing f \<Longrightarrow> growing (in_order fs)"
proof (induction fs)
  case (Cons f fs)
  then have "flags_le st (f st)" "flags_le (f st) (in_order fs (f st))" for st
    unfolding growing_def by (simp_all del: split_paired_All)
  then show ?case unfolding growing_def in_order_simps using flags_le_trans by blast
qed (simp add: growing_def)

lemma growing_mark_arguments [grows]: "growing (mark_arguments tt f args)"
  unfolding mark_arguments_def mark_flagged_def
  by (auto intro!: growing_in_order growing_id growing_mark simp: Let_def
      split: expr.split option.split dest: in_set_takeD)

lemma growing_let [grows]:
  assumes "growing infer_val" "growing infer_body"
  shows "growing (infer_let tt val infer_val infer_body)"
  unfolding growing_def
proof
  fix st
  obtain s1 p1 where 1: "infer_val st = (s1, p1)" by (cases "infer_val st")
  let ?v = "returns_ptr_with_stack val s1 (tt_returns tt)"
  obtain s2 p2 where 2: "infer_body (s1 @ [?v], p1) = (s2, p2)" by (cases "infer_body (s1 @ [?v], p1)")
  have "flags_le st (s1, p1)" "flags_le (s1 @ [?v], p1) (s2, p2)"
    using assms 1 2 by (metis growing_def)+
  moreover from this(2) have "flags_le (s1, p1) (butlast s2, p2)"
    using list_all2_lengthD[of "(\<longrightarrow>)" "s1 @ [?v]" s2]
    by (cases s2 rule: rev_cases) (auto simp: flags_le_def list_all2_append)
  ultimately show "flags_le st (infer_let tt val infer_val infer_body st)"
    using flags_le_trans by (fastforce simp: infer_let_def 1 2 Let_def)
qed

lemma growing_infer: "growing (infer_constraints tt e)"
proof (induction e)
  case (Apply f args)
  then show ?case
    unfolding infer_constraints.simps by (intro growing_in_order) (auto intro: grows)
qed (simp_all add: grows del: in_order_simps)

section \<open>The iteration ends in a fixed point\<close>

lemma infer_params_grow:
  "list_all2 (\<longrightarrow>) (current_params name params ts) (infer_params ln cg name params body ts)"
  using growing_infer[of "tables ln cg ts" body]
  by (auto simp: growing_def flags_le_def infer_params_def Let_def dest: spec)

text \<open>The defined names, and the flags that are still off.\<close>

definition module_names :: "expr list \<Rightarrow> string list" where
  "module_names exprs = remdups (defined_names exprs)"

definition off_flags :: "string list \<Rightarrow> type_state \<Rightarrow> nat" where
  "off_flags names ts =
     (\<Sum>name \<leftarrow> names. length (filter Not (case ts_params ts name of Some ps \<Rightarrow> ps | None \<Rightarrow> []))) +
     (\<Sum>name \<leftarrow> names. if ts_returns ts name = Some True then 0 else 1)"

text \<open>
  No symbol name of a definition is the name of another definition, as for names that do not
  begin with the prefix of mangled names.
\<close>

definition separate_keys :: "llvm_names \<Rightarrow> codegen \<Rightarrow> string list \<Rightarrow> bool" where
  "separate_keys ln cg names \<longleftrightarrow>
     (\<forall>n \<in> set names. \<forall>n' \<in> set names. n \<in> set (keys ln cg n') \<longrightarrow> n = n')"

definition entered :: "string list \<Rightarrow> type_state \<Rightarrow> bool" where
  "entered names ts \<longleftrightarrow> (\<forall>n \<in> set names. ts_params ts n \<noteq> None)"

lemma insert_all_apply: "insert_all ks v m k = (if k \<in> set ks then Some v else m k)"
  by (induction ks arbitrary: m) (auto simp: insert_all_def)

lemma key_self [simp]: "name \<in> set (keys ln cg name)"
  by (simp add: keys_def)

lemma filter_Not_less:
  "list_all2 (\<longrightarrow>) ps qs \<Longrightarrow> ps \<noteq> qs \<Longrightarrow> length (filter Not qs) < length (filter Not ps)"
proof (induction rule: list_all2_induct)
  case (Cons x xs y ys)
  have "length (filter Not ys) \<le> length (filter Not xs)"
    using Cons by (cases "xs = ys") simp_all
  with Cons show ?case by auto
qed simp

lemma sum_list_update_less:
  fixes g h :: "'a \<Rightarrow> nat"
  assumes "distinct xs" "x \<in> set xs" "h x < g x" "\<And>y. y \<in> set xs \<Longrightarrow> y \<noteq> x \<Longrightarrow> h y = g y"
  shows "(\<Sum>y \<leftarrow> xs. h y) < (\<Sum>y \<leftarrow> xs. g y)"
proof -
  have "(\<Sum>y \<in> set xs. h y) < (\<Sum>y \<in> set xs. g y)"
    using assms by (intro sum_strict_mono_ex1) (force intro: le_eq_less_or_eq[THEN iffD2])+
  then show ?thesis using assms(1) by (simp add: sum_list_distinct_conv_sum_set)
qed

lemma off_flags_params:
  assumes "separate_keys ln cg names" "distinct names" "name \<in> set names" "ts_params ts name = Some ps"
    "list_all2 (\<longrightarrow>) ps qs" "ps \<noteq> qs"
  shows "off_flags names (ts\<lparr>ts_params := insert_all (keys ln cg name) qs (ts_params ts)\<rparr>) < off_flags names ts"
proof -
  let ?f = "\<lambda>tp n. length (filter Not (case tp n of Some ps \<Rightarrow> ps | None \<Rightarrow> []))"
  let ?new = "insert_all (keys ln cg name) qs (ts_params ts)"
  have "(\<Sum>n \<leftarrow> names. ?f ?new n) < (\<Sum>n \<leftarrow> names. ?f (ts_params ts) n)"
  proof (rule sum_list_update_less[OF assms(2,3)])
    show "?f ?new name < ?f (ts_params ts) name"
      using filter_Not_less[OF assms(5,6)] assms(4) by (simp add: insert_all_apply)
    fix n assume "n \<in> set names" "n \<noteq> name"
    then have "n \<notin> set (keys ln cg name)" using assms(1,3) by (auto simp: separate_keys_def)
    then show "?f ?new n = ?f (ts_params ts) n" by (simp add: insert_all_apply)
  qed
  then show ?thesis by (simp add: off_flags_def)
qed

lemma off_flags_returns:
  assumes "separate_keys ln cg names" "distinct names" "name \<in> set names" "ts_returns ts name \<noteq> Some True"
  shows "off_flags names (ts\<lparr>ts_returns := insert_all (keys ln cg name) True (ts_returns ts)\<rparr>) < off_flags names ts"
proof -
  let ?f = "\<lambda>tr n. if tr n = Some True then 0 else (1 :: nat)"
  let ?new = "insert_all (keys ln cg name) True (ts_returns ts)"
  have "(\<Sum>n \<leftarrow> names. ?f ?new n) < (\<Sum>n \<leftarrow> names. ?f (ts_returns ts) n)"
  proof (rule sum_list_update_less[OF assms(2,3)])
    show "?f ?new name < ?f (ts_returns ts) name" using assms(4) by (simp add: insert_all_apply)
    fix n assume "n \<in> set names" "n \<noteq> name"
    then have "n \<notin> set (keys ln cg name)" using assms(1,3) by (auto simp: separate_keys_def)
    then show "?f ?new n = ?f (ts_returns ts) n" by (simp add: insert_all_apply)
  qed
  then show ?thesis by (simp add: off_flags_def)
qed

text \<open>What one definition, and one round, do to the tables.\<close>

definition shrinks :: "string list \<Rightarrow> type_state \<times> bool \<Rightarrow> type_state \<times> bool \<Rightarrow> bool" where
  "shrinks names st st' \<longleftrightarrow>
     entered names (fst st') \<and>
     (st' = st \<or> off_flags names (fst st') < off_flags names (fst st) \<and> snd st')"

lemma shrinks_trans: "shrinks names a b \<Longrightarrow> shrinks names b c \<Longrightarrow> shrinks names a c"
  by (auto simp: shrinks_def)

lemma entered_insert:
  "entered names ts \<Longrightarrow> entered names (ts\<lparr>ts_params := insert_all ks qs (ts_params ts)\<rparr>)"
  "entered names ts \<Longrightarrow> entered names (ts\<lparr>ts_returns := tr\<rparr>)"
  by (auto simp: entered_def insert_all_apply)

definition set_params :: "llvm_names \<Rightarrow> codegen \<Rightarrow> string \<Rightarrow> param list \<Rightarrow> expr \<Rightarrow> type_state \<times> bool \<Rightarrow> type_state \<times> bool" where
  "set_params ln cg name params body st =
     (case st of (ts, changed) \<Rightarrow>
        (let new_params = infer_params ln cg name params body ts in
         if new_params \<noteq> current_params name params ts
         then (ts\<lparr>ts_params := insert_all (keys ln cg name) new_params (ts_params ts)\<rparr>, True)
         else (ts, changed)))"

definition set_returns :: "llvm_names \<Rightarrow> codegen \<Rightarrow> string \<Rightarrow> param list \<Rightarrow> expr \<Rightarrow> type_state \<times> bool \<Rightarrow> type_state \<times> bool" where
  "set_returns ln cg name params body st =
     (case st of (ts, changed) \<Rightarrow>
        (if returns_ptr_with_stack body (current_params name params ts) (ts_returns ts) \<and>
            ts_returns ts name \<noteq> Some True
         then (ts\<lparr>ts_returns := insert_all (keys ln cg name) True (ts_returns ts)\<rparr>, True)
         else (ts, changed)))"

lemma analyze_define_steps:
  assumes "unwrap_metadata e = Define name params body exported"
  shows "analyze_define ln cg e st = set_returns ln cg name params body (set_params ln cg name params body st)"
  using assms
  by (cases st; cases "infer_params ln cg name params body (fst st) = current_params name params (fst st)")
     (simp_all add: analyze_define_def set_params_def set_returns_def Let_def)

lemma set_params_shrinks:
  assumes "separate_keys ln cg names" "distinct names" "name \<in> set names" "entered names (fst st)"
  shows "shrinks names st (set_params ln cg name params body st)"
proof -
  obtain ts c where st: "st = (ts, c)" by (cases st)
  obtain ps where ps: "ts_params ts name = Some ps" using assms(3,4) st by (auto simp: entered_def)
  let ?qs = "infer_params ln cg name params body ts"
  have grow: "list_all2 (\<longrightarrow>) ps ?qs"
    using infer_params_grow[of name params ts ln cg body] ps by (simp add: current_params_def)
  show ?thesis
    using off_flags_params[OF assms(1-3) ps grow] assms(4) ps
    by (auto simp: shrinks_def set_params_def st Let_def current_params_def entered_insert)
qed

lemma set_returns_shrinks:
  assumes "separate_keys ln cg names" "distinct names" "name \<in> set names" "entered names (fst st)"
  shows "shrinks names st (set_returns ln cg name params body st)"
  using off_flags_returns[OF assms(1-3)] assms(4)
  by (auto simp: shrinks_def set_returns_def entered_insert split: prod.split)

lemma analyze_define_shrinks:
  assumes "separate_keys ln cg names" "distinct names" "set (defined_names [e]) \<subseteq> set names"
    "entered names (fst st)"
  shows "shrinks names st (analyze_define ln cg e st)"
proof (cases "\<exists>name params body exported. unwrap_metadata e = Define name params body exported")
  case True
  then obtain name params body exported where e: "unwrap_metadata e = Define name params body exported" by blast
  then have name: "name \<in> set names" using assms(3) by (simp add: defined_names_def defined_name_def)
  have *: "shrinks names st (set_params ln cg name params body st)"
    using set_params_shrinks[OF assms(1,2) name assms(4)] .
  then have "entered names (fst (set_params ln cg name params body st))" by (simp add: shrinks_def)
  from shrinks_trans[OF * set_returns_shrinks[OF assms(1,2) name this]]
  show ?thesis by (simp add: analyze_define_steps[OF e])
next
  case False
  then show ?thesis using assms(4)
    by (cases "unwrap_metadata e") (auto simp: analyze_define_def shrinks_def split: prod.split)
qed

lemma round_shrinks:
  assumes "separate_keys ln cg names" "distinct names" "set (defined_names exprs) \<subseteq> set names"
    "entered names (fst st)"
  shows "shrinks names st (fold (analyze_define ln cg) exprs st)"
  using assms(3,4)
proof (induction exprs arbitrary: st)
  case (Cons e exprs)
  let ?st = "analyze_define ln cg e st"
  have sub: "set (defined_names [e]) \<subseteq> set names" "set (defined_names exprs) \<subseteq> set names"
    using Cons.prems(1) by (auto simp: defined_names_def)
  have 1: "shrinks names st ?st" by (rule analyze_define_shrinks[OF assms(1,2) sub(1) Cons.prems(2)])
  then have "entered names (fst ?st)" by (simp add: shrinks_def)
  from shrinks_trans[OF 1 Cons.IH[OF sub(2) this]] show ?case by simp
qed (simp add: shrinks_def)

definition settled :: "llvm_names \<Rightarrow> codegen \<Rightarrow> expr list \<Rightarrow> type_state \<Rightarrow> bool" where
  "settled ln cg exprs ts \<longleftrightarrow> (\<forall>e \<in> set exprs. analyze_define ln cg e (ts, False) = (ts, False))"

lemma fold_settled:
  assumes "separate_keys ln cg names" "distinct names" "set (defined_names exprs) \<subseteq> set names"
    "entered names ts" "fold (analyze_define ln cg) exprs (ts, False) = (ts', False)"
  shows "ts' = ts \<and> settled ln cg exprs ts"
  using assms(3,5)
proof (induction exprs)
  case (Cons e exprs)
  let ?st = "analyze_define ln cg e (ts, False)"
  have sub: "set (defined_names [e]) \<subseteq> set names" "set (defined_names exprs) \<subseteq> set names"
    using Cons.prems(1) by (auto simp: defined_names_def)
  have 1: "shrinks names (ts, False) ?st"
    by (rule analyze_define_shrinks[OF assms(1,2) sub(1)]) (simp add: assms(4))
  have 2: "fold (analyze_define ln cg) exprs ?st = (ts', False)" using Cons.prems(2) by simp
  have "entered names (fst ?st)" using 1 by (simp add: shrinks_def)
  from round_shrinks[OF assms(1,2) sub(2) this] 2 have "shrinks names ?st (ts', False)" by simp
  then have "?st = (ts', False)" by (auto simp: shrinks_def)
  with 1 have "?st = (ts, False)" by (auto simp: shrinks_def)
  with Cons.IH[OF sub(2)] 2 show ?case by (simp add: settled_def)
qed (simp add: settled_def)

lemma loop_settled:
  assumes "separate_keys ln cg names" "distinct names" "set (defined_names exprs) \<subseteq> set names"
    "entered names ts" "off_flags names ts \<le> rounds"
  shows "entered names (analyze_loop ln cg exprs rounds ts) \<and>
         settled ln cg exprs (analyze_loop ln cg exprs rounds ts)"
  using assms(4,5)
proof (induction rounds arbitrary: ts)
  case 0
  have "shrinks names (ts, False) (fold (analyze_define ln cg) exprs (ts, False))"
    by (rule round_shrinks[OF assms(1-3)]) (simp add: 0)
  then have "fold (analyze_define ln cg) exprs (ts, False) = (ts, False)"
    using 0 by (auto simp: shrinks_def)
  from fold_settled[OF assms(1-3) 0(1) this] 0 show ?case by simp
next
  case (Suc rounds)
  obtain ts' c where r: "fold (analyze_define ln cg) exprs (ts, False) = (ts', c)"
    by (cases "fold (analyze_define ln cg) exprs (ts, False)")
  have s: "shrinks names (ts, False) (ts', c)"
    using round_shrinks[OF assms(1-3), of "(ts, False)"] Suc.prems(1) r by simp
  show ?case
  proof (cases c)
    case True
    with s Suc.prems have "entered names ts'" "off_flags names ts' \<le> rounds" by (auto simp: shrinks_def)
    from Suc.IH[OF this] True r show ?thesis by (simp add: analyze_round_def)
  next
    case False
    with fold_settled[OF assms(1-3) Suc.prems(1)] r have "ts' = ts" "settled ln cg exprs ts" by auto
    with False r Suc.prems(1) show ?thesis by (simp add: analyze_round_def)
  qed
qed

section \<open>One hundred rounds\<close>

text \<open>The flags a module can have: one for each definition and one for each parameter.\<close>

definition own_params :: "expr \<Rightarrow> string \<Rightarrow> nat" where
  "own_params e name =
     (case unwrap_metadata e of
        Define name' params body exported \<Rightarrow> if name' = name then length params else 0 | _ \<Rightarrow> 0)"

definition flag_count :: "expr list \<Rightarrow> nat" where
  "flag_count exprs =
     (\<Sum>e \<leftarrow> exprs. case unwrap_metadata e of
                      Define name params body exported \<Rightarrow> Suc (length params) | _ \<Rightarrow> 0)"

lemma unwrap_cases:
  obtains (Def) name params body exported where "unwrap_metadata e = Define name params body exported"
  | (Other) "\<And>name params body exported. unwrap_metadata e \<noteq> Define name params body exported"
  by blast

lemma init_types_entry:
  assumes "separate_keys ln cg names" "set (defined_names exprs) \<subseteq> set names"
    "name \<in> set (defined_names exprs)"
  shows "\<exists>ps. ts_params (fold (init_types ln cg) exprs ts) name = Some ps \<and>
              length ps \<le> (\<Sum>e \<leftarrow> exprs. own_params e name)"
  using assms(2,3)
proof (induction exprs rule: rev_induct)
  case (snoc e exprs)
  let ?ts = "fold (init_types ln cg) exprs ts"
  have sub: "set (defined_names exprs) \<subseteq> set names" using snoc.prems(1) by (auto simp: defined_names_def)
  show ?case
  proof (cases e rule: unwrap_cases)
    case (Def name' params body exported)
    then have "name' \<in> set names" "name \<in> set names"
      using snoc.prems by (auto simp: defined_names_def defined_name_def)
    then have key: "name \<in> set (keys ln cg name') \<longleftrightarrow> name = name'"
      using assms(1) by (auto simp: separate_keys_def)
    show ?thesis
    proof (cases "name = name'")
      case True
      then show ?thesis
        by (simp add: init_types_def Def insert_all_apply own_params_def)
    next
      case False
      then have "name \<in> set (defined_names exprs)"
        using snoc.prems(2) Def by (auto simp: defined_names_def defined_name_def)
      from snoc.IH[OF sub this] False key show ?thesis
        by (auto simp: init_types_def Def insert_all_apply)
    qed
  next
    case Other
    then have "init_types ln cg e ?ts = ?ts" "defined_name e = None"
      by (auto simp: init_types_def defined_name_def split: expr.split)
    with snoc sub show ?thesis by (fastforce simp: defined_names_def)
  qed
qed (simp add: defined_names_def)

lemma own_params_sum:
  "distinct names \<Longrightarrow>
   (\<Sum>n \<leftarrow> names. own_params e n) + length (defined_names [e])
     \<le> (case unwrap_metadata e of Define name params body exported \<Rightarrow> Suc (length params) | _ \<Rightarrow> 0)"
proof (cases e rule: unwrap_cases)
  case (Def name params body exported)
  assume d: "distinct names"
  have "(\<Sum>n \<leftarrow> names. if name = n then length params else 0) \<le> length params"
    using d by (simp add: sum_list_distinct_conv_sum_set)
  then show ?thesis by (simp add: Def own_params_def defined_names_def defined_name_def)
qed (auto simp: own_params_def defined_names_def defined_name_def split: expr.split)

lemma flag_count_bound:
  assumes "distinct names"
  shows "(\<Sum>n \<leftarrow> names. \<Sum>e \<leftarrow> exprs. own_params e n) + length (defined_names exprs) \<le> flag_count exprs"
proof (induction exprs)
  case (Cons e exprs)
  have "length (defined_names (e # exprs)) = length (defined_names [e]) + length (defined_names exprs)"
    by (simp add: defined_names_def)
  with Cons own_params_sum[OF assms, of e] show ?case
    by (simp add: sum_list_addf flag_count_def)
qed (simp add: flag_count_def defined_names_def)

lemma initial_off_flags:
  assumes "separate_keys ln cg (module_names exprs)"
  shows "entered (module_names exprs) (initial_types ln cg exprs)"
    and "off_flags (module_names exprs) (initial_types ln cg exprs) \<le> flag_count exprs"
proof -
  let ?names = "module_names exprs" and ?ts = "initial_types ln cg exprs"
  have entry: "\<exists>ps. ts_params ?ts n = Some ps \<and> length ps \<le> (\<Sum>e \<leftarrow> exprs. own_params e n)"
    if "n \<in> set ?names" for n
    using init_types_entry[OF assms, of exprs n] that by (simp add: module_names_def initial_types_def)
  then show "entered ?names ?ts" unfolding entered_def by force
  have "length (filter Not (case ts_params ?ts n of Some ps \<Rightarrow> ps | None \<Rightarrow> []))
          \<le> (\<Sum>e \<leftarrow> exprs. own_params e n)" if "n \<in> set ?names" for n
    using entry[OF that] by (auto intro: order_trans[OF length_filter_le])
  then have "(\<Sum>n \<leftarrow> ?names. length (filter Not (case ts_params ?ts n of Some ps \<Rightarrow> ps | None \<Rightarrow> [])))
          \<le> (\<Sum>n \<leftarrow> ?names. \<Sum>e \<leftarrow> exprs. own_params e n)"
    by (rule sum_list_mono)
  moreover have "(\<Sum>n \<leftarrow> ?names. if ts_returns ?ts n = Some True then 0 else 1) \<le> (\<Sum>n \<leftarrow> ?names. (1 :: nat))"
    by (rule sum_list_mono) simp
  moreover have "(\<Sum>n \<leftarrow> ?names. (1 :: nat)) \<le> length (defined_names exprs)"
    by (simp add: sum_list_triv module_names_def length_remdups_leq)
  ultimately show "off_flags ?names ?ts \<le> flag_count exprs"
    using flag_count_bound[of ?names exprs] by (simp add: off_flags_def module_names_def)
qed

lemma settled_define:
  assumes "entered names ts" "analyze_define ln cg e (ts, False) = (ts, False)"
    "unwrap_metadata e = Define name params body exported" "name \<in> set names"
  shows "\<exists>flags. ts_params ts name = Some flags \<and>
           snd (infer_constraints (tables ln cg ts) body (flags, flags)) = flags \<and>
           (returns_ptr_with_stack body flags (ts_returns ts) \<longrightarrow> ts_returns ts name = Some True)"
proof -
  obtain ps where ps: "ts_params ts name = Some ps" using assms(1,4) by (auto simp: entered_def)
  have "set_returns ln cg name params body (set_params ln cg name params body (ts, False)) = (ts, False)"
    using assms(2) by (simp add: analyze_define_steps[OF assms(3)])
  with ps show ?thesis
    by (auto simp: set_params_def set_returns_def Let_def infer_params_def current_params_def
        split: if_split_asm)
qed

text \<open>C22:
  The inferred pointer types are a solution.  In a module with at most one hundred definitions and
  parameters together, whose definitions do not have each other's symbol names, the iteration
  ends before the cap of one hundred rounds: for every definition the recorded parameter flags
  are those that its body imposes under the recorded tables, and a body that returns a pointer is
  recorded as doing so.\<close>

theorem pointer_types_settle:
  assumes "separate_keys ln cg (module_names exprs)" "flag_count exprs \<le> 100"
    and "e \<in> set exprs" "unwrap_metadata e = Define name params body exported"
  shows "\<exists>flags. cg_param_ptrs (analyze_module_types ln exprs cg) name = Some flags \<and>
           snd (infer_constraints (tables ln cg (module_types ln cg exprs)) body (flags, flags)) = flags \<and>
           (returns_ptr_with_stack body flags (cg_returns_ptr (analyze_module_types ln exprs cg)) \<longrightarrow>
            cg_returns_ptr (analyze_module_types ln exprs cg) name = Some True)"
proof -
  let ?names = "module_names exprs" and ?ts = "module_types ln cg exprs"
  have names: "distinct ?names" "set (defined_names exprs) \<subseteq> set ?names" by (simp_all add: module_names_def)
  have "off_flags ?names (initial_types ln cg exprs) \<le> 100"
    using initial_off_flags(2)[OF assms(1)] assms(2) by simp
  from loop_settled[OF assms(1) names initial_off_flags(1)[OF assms(1)] this]
  have "entered ?names ?ts" "analyze_define ln cg e (?ts, False) = (?ts, False)"
    using assms(3) by (auto simp: module_types_def settled_def)
  moreover have "name \<in> set ?names"
    using assms(3,4) by (auto simp: module_names_def set_defined_names defined_name_def intro!: bexI[of _ e])
  ultimately show ?thesis
    using settled_define[OF _ _ assms(4)] by (simp add: analyze_module_types_def Let_def)
qed

definition demo_names :: llvm_names where
  "demo_names = \<lparr>ln_hash = (\<lambda>path. 255), ln_fresh = (\<lambda>taken name. name @ ''.1'')\<rparr>"

text \<open>\<open>D outer (a) \<dots>\<close> passes its parameter to \<open>D join (s t) \<dots>\<close>, which concatenates.\<close>

definition join_module :: "expr list" where
  "join_module =
     [Define ''outer'' [\<lparr>param_name = ''a'', param_expand = False\<rparr>, \<lparr>param_name = ''b'', param_expand = False\<rparr>]
        (Apply (Identifier ''join'') [DeBruijn 1, String ''!'']) True,
      Define ''join'' [\<lparr>param_name = ''s'', param_expand = False\<rparr>, \<lparr>param_name = ''t'', param_expand = False\<rparr>]
        (Cat (DeBruijn 1) (DeBruijn 0)) False]"

lemma join_module_flags:
  "cg_param_ptrs (analyze_module_types demo_names join_module (codegen_new ''a.llm'')) ''outer'' = Some [True, False]"
  "cg_returns_ptr (analyze_module_types demo_names join_module (codegen_new ''a.llm'')) ''outer'' = Some True"
  by code_simp+

lemma pointer_types_settle_witness:
  "snd (infer_constraints (tables demo_names (codegen_new ''a.llm'')
          (module_types demo_names (codegen_new ''a.llm'') join_module))
        (Apply (Identifier ''join'') [DeBruijn 1, String ''!'']) ([True, False], [True, False])) = [True, False]"
proof -
  have "separate_keys demo_names (codegen_new ''a.llm'') (module_names join_module)"
       "flag_count join_module \<le> 100" by code_simp+
  from pointer_types_settle[OF this, of "hd join_module"] join_module_flags(1)
  show ?thesis by (auto simp: join_module_def unwrap_metadata_def)
qed

lemma analyze_arithmetic:
  assumes "ts_params (fst st) name = Some ps"
  shows "ts_params (fst (analyze_define ln cg (Define name params (BinaryOp tok l r) exported) st)) = ts_params (fst st)"
  using assms
  by (cases st) (simp add: analyze_define_def infer_params_def current_params_def unwrap_metadata_def Let_def)

lemma loop_arithmetic:
  "ts_params ts name = Some ps \<Longrightarrow>
   ts_params (analyze_loop ln cg [Define name params (BinaryOp tok l r) exported] rounds ts) = ts_params ts"
proof (induction rounds arbitrary: ts)
  case (Suc rounds)
  with analyze_arithmetic[of "(ts, False)"] Suc.prems show ?case
    by (auto simp: analyze_round_def split: prod.split)
       (metis fst_conv)+
qed simp

text \<open>C23:
  The inference does not enter arithmetic: a parameter that is used as a string only below an
  arithmetic node, as in \<open>D size (s) + # s 1\<close>, is recorded as a number.\<close>

theorem pointers_under_arithmetic_missed:
  "cg_param_ptrs (analyze_module_types ln [Define name params (BinaryOp tok l r) exported] cg) name
     = Some (map (\<lambda>_. False) params)"
proof -
  let ?e = "Define name params (BinaryOp tok l r) exported"
  have "ts_params (initial_types ln cg [?e]) name = Some (map (\<lambda>_. False) params)"
    by (simp add: initial_types_def init_types_def unwrap_metadata_def insert_all_apply)
  with loop_arithmetic[OF this] show ?thesis
    by (simp add: analyze_module_types_def module_types_def Let_def)
qed

end
