(* ===== verification/Driver.thy ===== *)
theory Driver
  imports Functions Pipeline Pointer_Types Mcp_Server
begin

text \<open>
  The command line (\<open>main.rs\<close>) and its configuration (\<open>lib.rs\<close>): the arguments, the stages of
  a compilation from the source to the LLVM module, and the files that are written.  Reading a
  file, parsing a configuration and what LLVM does with the module are parameters.
\<close>

section \<open>Configuration and arguments\<close>

record config =
  cf_parallel_threshold :: usize
  cf_max_threads :: usize
  cf_queue_size :: usize

definition default_config :: config where
  "default_config = \<lparr>cf_parallel_threshold = 50, cf_max_threads = 8, cf_queue_size = 64\<rparr>"

record options =
  op_input :: "string option"
  op_output :: "string option"
  op_emit_ir :: bool
  op_emit_sig :: bool
  op_config :: config
  op_imports :: "string list"

definition default_options :: options where
  "default_options = \<lparr>op_input = None, op_output = None, op_emit_ir = False, op_emit_sig = False,
     op_config = default_config, op_imports = []\<rparr>"

text \<open>
  How the process ends before its work is done: after the help, with its exit code, or the
  version; with a message and exit code 1; or by a panic.
\<close>

datatype stop = Help nat | Version | Failed string | Crashed string

record cli_env =
  cl_parse :: parse_env
  cl_read :: "string \<Rightarrow> string option"
  cl_config :: "string \<Rightarrow> string + config"
  cl_gen :: gen_env

definition load_config :: "cli_env \<Rightarrow> string \<Rightarrow> stop + config" where
  "load_config env path =
     (case cl_read env path of
        None \<Rightarrow> Inl (Failed (''Could not read config file '' @ path))
      | Some text \<Rightarrow>
          (case cl_config env text of
             Inl e \<Rightarrow> Inl (Failed (''Could not parse config file '' @ path @ '': '' @ e))
           | Inr cfg \<Rightarrow> Inr cfg))"

definition parse_or :: "usize \<Rightarrow> string \<Rightarrow> usize" where
  "parse_or d s = (case parse_usize s of Some n \<Rightarrow> n | None \<Rightarrow> d)"

text \<open>An option that needs a value and is the last argument is ignored.\<close>

definition with_value :: "string \<Rightarrow> string \<Rightarrow> options \<Rightarrow> options" where
  "with_value opt v o' =
     (if opt = ''-o'' then o'\<lparr>op_output := Some v\<rparr>
      else if opt = ''-I'' then o'\<lparr>op_imports := op_imports o' @ [v]\<rparr>
      else if opt = ''--parallel'' then o'\<lparr>op_config := op_config o'\<lparr>cf_parallel_threshold := parse_or 50 v\<rparr>\<rparr>
      else if opt = ''--threads'' then o'\<lparr>op_config := op_config o'\<lparr>cf_max_threads := parse_or 8 v\<rparr>\<rparr>
      else o'\<lparr>op_config := op_config o'\<lparr>cf_queue_size := parse_or 64 v\<rparr>\<rparr>)"

fun parse_arguments :: "cli_env \<Rightarrow> string list \<Rightarrow> options \<Rightarrow> stop + options" where
  "parse_arguments env [] o' = Inr o'"
| "parse_arguments env (a # rest) o' =
     (if a \<in> {''-h'', ''--help''} then Inl (Help 0)
      else if a \<in> {''-V'', ''--version''} then Inl Version
      else if a \<in> {''-o'', ''-I'', ''--parallel'', ''--threads'', ''--queue''}
      then (case rest of [] \<Rightarrow> Inr o' | v # rest' \<Rightarrow> parse_arguments env rest' (with_value a v o'))
      else if a \<in> {''-c'', ''--config''}
      then (case rest of [] \<Rightarrow> Inr o'
            | v # rest' \<Rightarrow> rbind (load_config env v) (\<lambda>cfg. parse_arguments env rest' (o'\<lparr>op_config := cfg\<rparr>)))
      else if a \<in> {''--emit-ir'', ''-S''} then parse_arguments env rest (o'\<lparr>op_emit_ir := True\<rparr>)
      else if a = ''--emit-sig'' then parse_arguments env rest (o'\<lparr>op_emit_sig := True\<rparr>)
      else if \<not> starts_with a ''-'' then parse_arguments env rest (o'\<lparr>op_input := Some a\<rparr>)
      else Inl (Failed (''Unknown argument: '' @ a)))"

section \<open>From the module to LLVM\<close>

definition gen_top :: "gen_env \<Rightarrow> nat \<Rightarrow> expr \<Rightarrow> unit gen" where
  "gen_top env fuel e =
     (case e of
        Shape name flds exported \<Rightarrow> on_codegen (gen_shape name flds exported)
      | Define name params body exported \<Rightarrow> gen_function env fuel name params body exported None
      | Metadata tag v target \<Rightarrow>
          (case tag of
             String tag_str \<Rightarrow>
               (if tag_str = ''otel''
                then (case v of
                        String span_name \<Rightarrow>
                          (case target of
                             Define name params body exported \<Rightarrow>
                               gen_function env fuel name params body exported (Some span_name)
                           | _ \<Rightarrow> greturn ())
                      | _ \<Rightarrow> greturn ())
                else greturn ())
           | _ \<Rightarrow> greturn ())
      | Import module symbol arity \<Rightarrow> on_codegen (gen_import (ge_names env) module symbol arity)
      | _ \<Rightarrow> greturn ())"

definition gen_module :: "gen_env \<Rightarrow> nat \<Rightarrow> expr list \<Rightarrow> unit gen" where
  "gen_module env fuel exprs = gen_each (gen_top env fuel) exprs"

definition module_state :: "llvm_names \<Rightarrow> string \<Rightarrow> expr list \<Rightarrow> gen_state" where
  "module_state ln path exprs = empty_gen (analyze_module_types ln exprs (codegen_new path))"

definition configured :: "cli_env \<Rightarrow> options \<Rightarrow> gen_env" where
  "configured env o' = (cl_gen env)\<lparr>ge_threshold := cf_parallel_threshold (op_config o')\<rparr>"

definition compile :: "cli_env \<Rightarrow> nat \<Rightarrow> options \<Rightarrow> string \<Rightarrow> string \<Rightarrow> fail + gen_state" where
  "compile env fuel o' path input =
     rbind (front_end (cl_parse env) (op_imports o') path input) (\<lambda>expressions.
     rbind (gen_module (configured env o') fuel expressions
       (module_state (ge_names (cl_gen env)) path expressions)) (\<lambda>(_, s). Inr s))"

section \<open>What is written\<close>

datatype artifact =
    Signature_File string string
  | IR_File string
  | IR_Printed
  | Object_File string

definition sig_path :: "options \<Rightarrow> string \<Rightarrow> string" where
  "sig_path o' path =
     (case op_output o' of
        Some p \<Rightarrow> if ends_with p ''.o'' then take (length p - 2) p @ ''.llmi'' else p @ ''.llmi''
      | None \<Rightarrow> path @ ''.llmi'')"

definition artifacts :: "options \<Rightarrow> string \<Rightarrow> codegen \<Rightarrow> artifact list" where
  "artifacts o' path cg =
     (if op_emit_sig o' \<or> (op_output o' \<noteq> None \<and> cg_has_exports cg)
      then [Signature_File (sig_path o' path) (emit_signature_file cg)] else []) @
     (if op_emit_ir o' \<or> (\<not> op_emit_sig o' \<and> op_output o' = None)
      then [case op_output o' of Some out \<Rightarrow> IR_File out | None \<Rightarrow> IR_Printed]
      else (case op_output o' of Some out \<Rightarrow> [Object_File out] | None \<Rightarrow> []))"

definition stop_of :: "fail \<Rightarrow> stop" where
  "stop_of f = (case f of CErr e \<Rightarrow> Failed (show_error e) | Panicked msg \<Rightarrow> Crashed msg | NoFuel \<Rightarrow> Crashed ''stack overflow'')"

definition compile_file :: "cli_env \<Rightarrow> nat \<Rightarrow> options \<Rightarrow> stop + artifact list" where
  "compile_file env fuel o' =
     (case op_input o' of
        None \<Rightarrow> Inl (Crashed ''E998: No input file specified'')
      | Some path \<Rightarrow>
          (case cl_read env path of
             None \<Rightarrow> Inl (Failed (''E999: Could not read file '' @ path))
           | Some input \<Rightarrow>
               (case compile env fuel o' path input of
                  Inl f \<Rightarrow> Inl (stop_of f)
                | Inr s \<Rightarrow> Inr (artifacts o' path (gs_cg s)))))"

definition run_compiler :: "cli_env \<Rightarrow> nat \<Rightarrow> string list \<Rightarrow> stop + artifact list" where
  "run_compiler env fuel args =
     (if length args < 2 then Inl (Help 1)
      else rbind (parse_arguments env (tl args) default_options) (compile_file env fuel))"

section \<open>Every block of the module is closed\<close>

lemma gen_top_closed: "all_closed s \<Longrightarrow> wlp (gen_top env fuel e) (\<lambda>x. all_closed) s"
  by (auto simp: gen_top_def on_codegen_def all_closed_def[of "_\<lparr>gs_cg := _\<rparr>"] all_closed_def[symmetric] gen_function_closed split: expr.split)

lemma gen_each_simps:
  "gen_each f [] = greturn ()"
  "gen_each f (x # xs) = gbind (f x) (\<lambda>_. gen_each f xs)"
  by (simp_all add: gen_each_def gbind_assoc)

lemma gen_module_closed: "all_closed s \<Longrightarrow> wlp (gen_module env fuel es) (\<lambda>x. all_closed) s"
  unfolding gen_module_def
  by (induction es arbitrary: s) (auto simp: gen_each_simps intro!: wp_mono[OF gen_top_closed])

text \<open>C28: the generated module is well-formed control flow.  In whatever module a compilation
  ends, each basic block ends with a terminator, has no other, and branches only to blocks of
  its own function.\<close>

theorem compiled_blocks_closed:
  "case compile env fuel o' path input of
     Inl f \<Rightarrow> True
   | Inr s \<Rightarrow> list_all (closed_block (gs_blocks s)) (gs_blocks s)"
proof (cases "compile env fuel o' path input")
  case (Inr s)
  then obtain es u where "gen_module (configured env o') fuel es (module_state (ge_names (cl_gen env)) path es) = Inr (u, s)"
    by (auto simp: compile_def rbind_Inr_iff)
  from wp_Inr[OF this gen_module_closed] have "all_closed s"
    by (simp add: all_closed_def module_state_def empty_gen_def)
  then show ?thesis by (simp add: Inr all_closed_def)
qed simp

section \<open>No ownership panics\<close>

text \<open>
  The definitions the theorem is about: no expansion parameters, bodies in the part of the
  language for which the verifier is sound, no task is hoisted.
\<close>

definition covered :: "nat \<Rightarrow> expr \<Rightarrow> bool" where
  "covered threshold e =
     (case unwrap_metadata e of
        Define name params body exported \<Rightarrow>
          (\<forall>p \<in> set params. \<not> param_expand p) \<and> plain body \<and> below_threshold threshold body
      | _ \<Rightarrow> True)"

definition no_templates :: "gen_state \<Rightarrow> bool" where
  "no_templates s \<longleftrightarrow> cg_templates (gs_cg s) = []"

lemma gen_body_tables: "keeps same_tables (\<lambda>s f. True) (gen_body env fuel name final n body otel)"
  unfolding gen_body_def gen_frame_def gen_epilogue_def
  by (intro kept frame.keep_spanned frame.keep_entry keeps_mono[OF gen_nested_fuel]; simp)

lemma gen_function_sound:
  assumes "\<forall>p \<in> set params. \<not> param_expand p" "plain body" "below_threshold (ge_threshold env) body"
    and "no_templates s"
  shows "wp (gen_function env fuel name params body exported otel) (\<lambda>x. no_templates) (sound_fail s) s"
proof -
  have body: "wp (gen_body env fuel name final (length params) body otel) (\<lambda>x. no_templates) (sound_fail s) s1"
    if "verify_expr body (entry_context ds params) = Inr ctx" "no_templates s1" for ds ctx s1 final
  proof (rule wp_mono[OF wp_conj])
    show "wp (gen_body env fuel name final (length params) body otel) (\<lambda>x s. True) (sound_fail s) s1"
      using that assms(1) by (intro gen_body_sound[OF assms(2,3) _ assms(1)]) (auto simp: no_templates_def)
    show "wlp (gen_body env fuel name final (length params) body otel) (\<lambda>x. same_tables s1) s1"
      using gen_body_tables by (simp add: keeps_def)
  qed (use that(2) in \<open>auto simp: no_templates_def same_tables_def\<close>)
  show ?thesis
  proof (cases "gen_declare env name params body exported s")
    case (Inl f)
    then show ?thesis
      by (auto simp: wp_def gen_function_def gbind_def gen_declare_def ownership_panic_def split: sum.split_asm)
  next
    case (Inr p)
    then obtain u s1 where d: "gen_declare env name params body exported s = Inr (u, s1)" by (cases p) simp
    note d' = gen_declare_Inr[OF d assms(1)]
    from d'(1) obtain ds ctx where v: "verify_expr body (entry_context ds params) = Inr ctx" by blast
    have "no_templates s1" using d'(2) assms(4) by (simp add: no_templates_def)
    moreover have "wp (gen_function env fuel name params body exported otel) Q E s =
        wp (gen_body env fuel name (final_name (ge_names env) (gs_cg s1) name exported) (length params) body otel) Q E s1"
      for Q E using d assms(1) by (auto simp: gen_function_def wp_def gbind_def gget_def)
    ultimately show ?thesis using body[OF v] by simp
  qed
qed

lemma gen_top_sound:
  assumes "covered (ge_threshold env) e" "no_templates s"
  shows "wp (gen_top env fuel e) (\<lambda>x. no_templates) (sound_fail s) s"
proof -
  have def: "wp (gen_function env fuel name params body exported otel) (\<lambda>x. no_templates) (sound_fail s) s"
    if "unwrap_metadata e = Define name params body exported" for name params body exported otel
    using assms that by (intro gen_function_sound) (simp_all add: covered_def)
  show ?thesis
    using assms(2) def unfolding gen_top_def
    by (cases e) (auto simp: on_codegen_def no_templates_def gen_shape_def gen_import_def add_function_def Let_def
        unwrap_metadata_def split: expr.split)
qed

lemma gen_module_sound:
  "list_all (covered (ge_threshold env)) es \<Longrightarrow> no_templates s \<Longrightarrow>
     wp (gen_module env fuel es) (\<lambda>x. no_templates) (\<lambda>f. \<not> ownership_panic f) s"
  unfolding gen_module_def
  by (induction es arbitrary: s) (auto simp: gen_each_simps intro!: wp_mono[OF gen_top_sound])

text \<open>C29: on the covered programs the generator's own ownership checks never fire.  When a program
  gets past the front end, and none of its definitions is a template, has an operand over the
  hoisting threshold, or has a body that is not plain (nested definitions, metadata that is not
  literal), the generator does not panic with E003, E004, E005, E009 or E016.  The threshold matters:
  in a hoisted operand the variables are captured as borrowed ones, and a move panics with E016.\<close>

theorem compile_no_ownership_panic:
  assumes "front_end (cl_parse env) (op_imports o') path input = Inr es"
    and "list_all (covered (cf_parallel_threshold (op_config o'))) es"
  shows "case compile env fuel o' path input of
      Inl (Panicked msg) \<Rightarrow> msg \<notin> set ownership_panics | _ \<Rightarrow> True"
proof -
  let ?s = "module_state (ge_names (cl_gen env)) path es"
  have "no_templates ?s"
    by (simp add: no_templates_def module_state_def empty_gen_def analyze_module_types_def Let_def codegen_new_def)
  with assms(2) have "wp (gen_module (configured env o') fuel es) (\<lambda>x. no_templates) (\<lambda>f. \<not> ownership_panic f) ?s"
    by (intro gen_module_sound) (simp_all add: configured_def)
  then show ?thesis
    by (cases "gen_module (configured env o') fuel es ?s")
       (auto simp: compile_def assms(1) wp_def ownership_panic_def split: fail.split)
qed

text \<open>The program \<open>X : f x > x\<close>, with a file system that has only its text.\<close>

definition demo_cli :: cli_env where
  "demo_cli = \<lparr>cl_parse = plain_env, cl_read = (\<lambda>p. if p = ''m.llm'' then Some ''X : f x > x'' else None),
     cl_config = (\<lambda>text. Inr default_config), cl_gen = plain_gen\<rparr>"

lemma compile_no_ownership_panic_witness:
  "case compile demo_cli 0 default_options ''m'' ''X : f x > x'' of
      Inl (Panicked msg) \<Rightarrow> msg \<notin> set ownership_panics | _ \<Rightarrow> True"
proof (rule compile_no_ownership_panic)
  let ?e = "Define ''f'' [\<lparr>param_name = ''x'', param_expand = False\<rparr>] (Move (DeBruijn 0)) True"
  show "front_end (cl_parse demo_cli) (op_imports default_options) ''m'' ''X : f x > x'' = Inr [?e]"
    by code_simp
  show "list_all (covered (cf_parallel_threshold (op_config default_options))) [?e]"
    by code_simp
qed

section \<open>Separate compilation\<close>

text \<open>The files after the compiler has written its artifacts.\<close>

definition write_artifact :: "artifact \<Rightarrow> file_system \<Rightarrow> file_system" where
  "write_artifact a fs =
     (case a of
        Signature_File p text \<Rightarrow> fs\<lparr>fs_exists := (fs_exists fs)(p := True), fs_read := (fs_read fs)(p := Inr text)\<rparr>
      | _ \<Rightarrow> fs)"

lemma sig_path_object:
  "op_output o' = Some (path_join dir (m @ ''.o'')) \<Longrightarrow> sig_path o' path = path_join dir (m @ ''.llmi'')"
  by (auto simp: sig_path_def path_join_def ends_with_iff)

lemma resolve_written:
  assumes "fs_exists fs (path_join dir (m @ ''.llmi''))" "m \<notin> fst ` set builtin_signatures"
  shows "fs_resolve fs m (dir # dirs) filename = fs_read fs (path_join dir (m @ ''.llmi''))"
proof -
  have "map_of builtin_signatures m = None" using assms(2) by (simp add: map_of_eq_None_iff)
  then show ?thesis using assms(1) by (simp add: fs_resolve_def find_signature_path_def)
qed

text \<open>C30: separate compilation.  After a module \<open>m\<close> was compiled to \<open>dir/m.o\<close>, a module that is
  compiled with \<open>-I dir\<close> and imports \<open>m\<close> sees exactly the functions that \<open>m\<close> exports, with
  their numbers of parameters, and its exported shapes.\<close>

theorem separate_compilation:
  assumes "compile env fuel o' path input = Inr s"
    and "op_output o' = Some (path_join dir (m @ ''.o''))" "op_emit_sig o' \<or> cg_has_exports (gs_cg s)"
    and "list_all shape_words (exported_shapes (gs_cg s))" "list_all func_words (exported_functions (gs_cg s))"
    and "m \<notin> fst ` set builtin_signatures"
    and "env_resolver penv = fs_resolve (fold write_artifact (artifacts o' path (gs_cg s)) fs)"
    and "px_import_paths p = dir # dirs"
  shows "load_signature penv m p = preturn (exported_functions (gs_cg s), exported_shapes (gs_cg s)) p"
proof -
  let ?fs = "fold write_artifact (artifacts o' path (gs_cg s)) fs"
  have sig: "fs_exists ?fs (path_join dir (m @ ''.llmi''))"
    "fs_read ?fs (path_join dir (m @ ''.llmi'')) = Inr (emit_signature_file (gs_cg s))"
    using assms(2,3) by (auto simp: artifacts_def write_artifact_def sig_path_object[OF assms(2)])
  from resolve_written[OF sig(1) assms(6)] show ?thesis
    using assms(7,8) by (simp add: load_signature_def sig(2) read_emitted_signature[OF assms(4,5)])
qed

definition geo_options :: options where
  "geo_options = default_options\<lparr>op_output := Some ''lib/geo.o''\<rparr>"

definition geo_source :: string where
  "geo_source = ''X : sq x * $ x $ x''"

definition geo_compiled :: "fail + gen_state" where
  "geo_compiled = compile demo_cli 0 geo_options ''geo.llm'' geo_source"

lemma geo_exports:
  "case geo_compiled of
     Inl f \<Rightarrow> False
   | Inr s \<Rightarrow> exported_functions (gs_cg s) = [(''sq'', 1)] \<and> exported_shapes (gs_cg s) = [] \<and> cg_has_exports (gs_cg s)"
  by code_simp

definition geo_client :: parser where
  "geo_client = demo_parser\<lparr>px_import_paths := [''lib'']\<rparr>"

lemma separate_compilation_witness:
  "\<exists>penv. load_signature penv ''geo'' geo_client = preturn ([(''sq'', 1)], []) geo_client"
proof -
  obtain s where s: "geo_compiled = Inr s"
    and e: "exported_functions (gs_cg s) = [(''sq'', 1)]" "exported_shapes (gs_cg s) = []" "cg_has_exports (gs_cg s)"
    using geo_exports by (auto split: sum.split_asm)
  define penv where "penv = plain_env\<lparr>env_resolver := fs_resolve (fold write_artifact
    (artifacts geo_options ''geo.llm'' (gs_cg s)) \<lparr>fs_exists = (\<lambda>p. False), fs_read = (\<lambda>p. Inl ''E017'')\<rparr>)\<rparr>"
  have "load_signature penv ''geo'' geo_client = preturn (exported_functions (gs_cg s), exported_shapes (gs_cg s)) geo_client"
  proof (rule separate_compilation[OF s[unfolded geo_compiled_def], of "''lib''" "''geo''"])
    show "op_output geo_options = Some (path_join ''lib'' (''geo'' @ ''.o''))" by code_simp
    have "word ''sq''" by code_simp
    then show "list_all func_words (exported_functions (gs_cg s))" by (simp add: e func_words_def)
    show "''geo'' \<notin> fst ` set builtin_signatures" by code_simp
    show "px_import_paths geo_client = ''lib'' # []" by (simp add: geo_client_def)
  qed (simp_all add: e penv_def)
  then show ?thesis by (auto simp: e)
qed

end
