(* ===== verification/Bounds.thy ===== *)
theory Bounds
  imports Ownership
begin

text \<open>
  De Bruijn indices.  The parser computes them from the scopes, but a source may also write them
  itself; it is the verifier that keeps them in bounds, and with that the position
  \<open>stack.len() - 1 - index\<close> that the generator computes.
\<close>

text \<open>
  Where \<open>n\<close> variables are in scope, every index in \<open>e\<close> is that of one of them or of a \<open>Let\<close> in
  between.
\<close>

definition scoped_parts :: "expr \<Rightarrow> (nat \<times> expr) list" where
  "scoped_parts e = (case e of Let x v b \<Rightarrow> [(0, v), (1, b)] | _ \<Rightarrow> map (Pair 0) (parts e))"

lemma scoped_parts_parts: "(k, e') \<in> set (scoped_parts e) \<Longrightarrow> e' \<in> set (parts e)"
  by (auto simp: scoped_parts_def parts_def split: expr.split_asm)

definition index_ok :: "nat \<Rightarrow> expr \<Rightarrow> bool" where
  "index_ok n e = (case e of DeBruijn i \<Rightarrow> i < n | _ \<Rightarrow> True)"

function indices_below :: "nat \<Rightarrow> expr \<Rightarrow> bool" where
  "indices_below n e = (index_ok n e \<and> (\<forall>(k, e') \<in> set (scoped_parts e). indices_below (n + k) e'))"
  by pat_completeness auto
termination by (relation "measure (size \<circ> snd)") (auto dest!: scoped_parts_parts parts_size)

declare indices_below.simps [simp del]

lemma indices_below_mono: "indices_below m e \<Longrightarrow> m \<le> n \<Longrightarrow> indices_below n e"
proof (induction e arbitrary: m n rule: measure_induct_rule[of size])
  case (less e)
  have "index_ok n e" using less.prems
    by (subst (asm) indices_below.simps) (auto simp: index_ok_def split: expr.split_asm)
  moreover have "indices_below (n + k) e'" if "(k, e') \<in> set (scoped_parts e)" for k e'
    using less.IH[OF parts_size[OF scoped_parts_parts[OF that]], of "m + k" "n + k"] less.prems that
    by (subst (asm) (2) indices_below.simps) auto
  ultimately show ?case by (subst indices_below.simps) auto
qed

lemma step_length: "verify_expr e ctx = Inr ctx' \<Longrightarrow> length (vc_stack ctx') = length (vc_stack ctx)"
  using verify_expr_step by (fastforce simp: ctx_step_def dest: list_all2_lengthD)

lemma capture_length: "length (vc_stack (capture_context ctx)) \<le> length (vc_stack ctx)"
  by (simp add: capture_context_def)

lemma verify_seq_each:
  "verify_seq (map verify_expr es) ctx = Inr ctx' \<Longrightarrow> e \<in> set es \<Longrightarrow>
     \<exists>c c'. verify_expr e c = Inr c' \<and> length (vc_stack c) = length (vc_stack ctx)"
proof (induction es arbitrary: ctx)
  case (Cons a es)
  then obtain c where "verify_expr a ctx = Inr c" "verify_seq (map verify_expr es) c = Inr ctx'"
    by (auto simp: rbind_Inr_iff)
  then show ?case using Cons.IH[of c] Cons.prems(2) step_length by fastforce
qed simp

lemma verified_parts:
  assumes "plain e" "verify_expr e ctx = Inr ctx'" "(k, e') \<in> set (scoped_parts e)"
  shows "\<exists>c c'. verify_expr e' c = Inr c' \<and> length (vc_stack c) \<le> length (vc_stack ctx) + k"
proof (cases "strict e")
  case True
  then have "scoped_parts e = map (Pair 0) (operands e)"
    by (auto simp: scoped_parts_def parts_def strict_def split: expr.splits)
  then have "e' \<in> set (operands e)" using assms(3) by auto
  from verify_seq_each[OF verify_operands[OF assms(2) True plain_plain_node[OF assms(1)]] this]
  show ?thesis by auto
next
  case False
  then consider i where "e = DeBruijn i" | x where "e = Expand x" | a where "e = Move a" "is_variable a"
    | x v b where "e = Let x v b" | c t f where "e = If c t f" | t f where "e = Trap t f"
    by (cases e) (auto simp: strict_def split: expr.split_asm)
  then show ?thesis
  proof cases
    case (3 a)
    then have "e' = a" "k = 0" using assms(3) by (auto simp: scoped_parts_def parts_def operands_def)
    moreover have "\<exists>c'. verify_expr a ctx = Inr c'"
      using assms(2) 3 by (cases a) (auto simp: is_variable_def verify_move_def at_index_def at_expand_def
          read_slot_def move_slot_def split: if_split_asm option.split_asm)
    ultimately show ?thesis by auto
  next
    case (4 x v b)
    then obtain c1 c2 where "verify_expr v ctx = Inr c1"
      "verify_expr b (c1\<lparr>vc_stack := vc_stack c1 @ [Available],
         vc_stack_shapes := vc_stack_shapes c1 @ [infer_shape v (vc_stack_shapes c1)]\<rparr>) = Inr c2"
      using assms(2) by (auto simp: verify_let_def rbind_Inr_iff)
    moreover have "(k, e') = (0, v) \<or> (k, e') = (1, b)" using assms(3) 4 by (simp add: scoped_parts_def)
    ultimately show ?thesis using step_length[of v ctx c1] by (elim disjE) (force+)
  next
    case (5 c t f)
    then obtain c1 c2 c3 where "verify_expr c ctx = Inr c1" "verify_expr t c1 = Inr c2"
      "verify_expr f (c2\<lparr>vc_stack := vc_stack c1, vc_stack_shapes := vc_stack_shapes c1\<rparr>) = Inr c3"
      using assms(2) by (auto simp: verify_if_def rbind_Inr_iff split: if_split_asm)
    moreover have "k = 0" "e' \<in> {c, t, f}" using assms(3) 5 by (auto simp: scoped_parts_def parts_def)
    ultimately show ?thesis using step_length[of c ctx c1] by (elim insertE) (force+)
  next
    case (6 t f)
    then show ?thesis
      using assms(2,3) capture_length by (auto simp: verify_trap_Inr scoped_parts_def parts_def)
  qed (use assms(3) in \<open>auto simp: scoped_parts_def parts_def operands_def\<close>)
qed

lemma verified_indices:
  "plain e \<Longrightarrow> verify_expr e ctx = Inr ctx' \<Longrightarrow> indices_below (length (vc_stack ctx)) e"
proof (induction e arbitrary: ctx ctx' rule: measure_induct_rule[of size])
  case (less e)
  have "index_ok (length (vc_stack ctx)) e"
    using less.prems(2) by (auto simp: index_ok_def at_index_def split: expr.split if_split_asm)
  moreover have "indices_below (length (vc_stack ctx) + k) e'" if e': "(k, e') \<in> set (scoped_parts e)" for k e'
  proof -
    obtain c c' where "verify_expr e' c = Inr c'" "length (vc_stack c) \<le> length (vc_stack ctx) + k"
      using verified_parts[OF less.prems e'] by blast
    then show ?thesis
      using less.IH[OF parts_size plain_parts, OF scoped_parts_parts[OF e'] less.prems(1) scoped_parts_parts[OF e']]
        indices_below_mono by blast
  qed
  ultimately show ?case by (subst indices_below.simps) auto
qed

text \<open>C33: variables stay in bounds.  In the body of a definition that passes \<open>verify_module\<close>, every
  de Bruijn index, whether the parser made it or the source has it, is that of a parameter or of
  a \<open>Let\<close> around it.\<close>

theorem verified_indices_bounded:
  assumes "verify_module es filename = None" "e \<in> set es"
    and "unwrap_metadata e = Define name params body exported" "plain body"
  shows "indices_below (length params) body"
proof -
  obtain ctx where "verify_expr body (entry_context (register_all es) params) = Inr ctx"
    using verify_module_body[OF assms(1-3)] .
  from verified_indices[OF assms(4) this] show ?thesis by (simp add: entry_context_def)
qed

lemma verified_indices_bounded_witness: "indices_below 2 demo_body"
  using verified_indices_bounded[OF demo_verified demo_module_member demo_plain] by (simp add: demo_params_def numeral_2_eq_2)

end
