(* ===== verification/Testing.thy ===== *)
theory Testing
  imports Driver
begin

text \<open>
  The test harness (\<open>testing/mod.rs\<close>): the tests of a module, the dispatcher that is
  compiled with them, the processes that run them and the report.  Parameters: the file system,
  the object emission, the linker wrapper, and what each process prints.
\<close>

section \<open>Results\<close>

definition result_marker :: string where "result_marker = ''__LLMTEST__:''"
definition result_end_marker :: string where "result_end_marker = ''__LLMTEST_END__''"
definition default_test_data_dir :: string where "default_test_data_dir = ''./tests/data''"

record test_result =
  tr_name :: string
  tr_passed :: bool
  tr_duration :: i64
  tr_panic :: "string option"
  tr_fingerprint :: string

record test_report =
  rp_file :: string
  rp_total :: nat
  rp_passed :: nat
  rp_failed :: nat
  rp_results :: "test_result list"

definition report_success :: "test_report \<Rightarrow> bool" where
  "report_success r = (rp_failed r = 0)"

record discovered_test =
  dt_name :: string
  dt_fingerprint :: string
  dt_define :: expr

text \<open>A function of the harness returns a message or panics.\<close>

datatype test_failure = Test_Error string | Test_Panicked string

definition test_fail :: "fail \<Rightarrow> test_failure" where
  "test_fail f =
     (case f of CErr ce \<Rightarrow> Test_Error (show_error ce) | Panicked msg \<Rightarrow> Test_Panicked msg
      | NoFuel \<Rightarrow> Test_Panicked ''stack overflow'')"

definition or_fail :: "('e \<Rightarrow> test_failure) \<Rightarrow> 'e + 'a \<Rightarrow> test_failure + 'a" where
  "or_fail g r = (case r of Inl e \<Rightarrow> Inl (g e) | Inr x \<Rightarrow> Inr x)"

lemma or_fail_Inr [simp]: "or_fail g r = Inr x \<longleftrightarrow> r = Inr x"
  by (cases r) (simp_all add: or_fail_def)

lemma or_fail_simps [simp]: "or_fail g (Inr x) = Inr x" "or_fail g (Inl e) = Inl (g e)"
  by (simp_all add: or_fail_def)

section \<open>Discovery\<close>

definition fingerprint_of :: "digests \<Rightarrow> expr \<Rightarrow> string" where
  "fingerprint_of dg body = dg_sha dg (structural_fingerprint (dg_f64 dg) body)"

definition test_target :: "expr \<Rightarrow> expr option" where
  "test_target e =
     (case e of
        Metadata tag v target \<Rightarrow>
          (case tag of String s \<Rightarrow> if s = ''test'' then Some (strip_metadata target) else None | _ \<Rightarrow> None)
      | _ \<Rightarrow> None)"

definition discovered :: "digests \<Rightarrow> expr \<Rightarrow> string + discovered_test" where
  "discovered dg inner =
     (case inner of
        Define name params body exported \<Rightarrow>
          if params \<noteq> []
          then Inl (''E019: test function '' @ [apostrophe] @ name @ [apostrophe] @ '' must take no parameters'')
          else Inr \<lparr>dt_name = name, dt_fingerprint = fingerprint_of dg body, dt_define = inner\<rparr>
      | _ \<Rightarrow> Inl (''E019: M '' @ quoted ''test'' @ '' metadata must target a function definition (:)''))"

fun discover_tests :: "digests \<Rightarrow> expr list \<Rightarrow> string + (discovered_test list \<times> expr list)" where
  "discover_tests dg [] = Inr ([], [])"
| "discover_tests dg (e # es) =
     (case test_target e of
        None \<Rightarrow> rbind (discover_tests dg es) (\<lambda>(tests, production). Inr (tests, e # production))
      | Some inner \<Rightarrow>
          rbind (discovered dg inner) (\<lambda>t.
          rbind (discover_tests dg es) (\<lambda>(tests, production). Inr (t # tests, production))))"

section \<open>The dispatcher\<close>

definition text_lines :: "string list \<Rightarrow> string" where
  "text_lines ls = concat (map (\<lambda>l. l @ [newline]) ls)"

text \<open>A backslash and an \<open>n\<close>, as the source text of a string has them.\<close>

definition escaped_newline :: string where "escaped_newline = [backslash, CHR ''n'']"

definition harness_case :: "string \<Rightarrow> string" where
  "harness_case name = text_lines [
     ''? sr $ tname '' @ quoted (''^'' @ name @ ''$''),
     ''L t0 tns'',
     ''L ok ^ . @0 '' @ name @ '' 1 0'',
     ''L t1 tns'',
     ''. ) 1 sc '' @ quoted (escaped_newline @ result_marker) @ '' sc str $ ok sc '' @ quoted '':'' @
       '' sc str - $ t1 $ t0 sc '' @ quoted '':'' @ '' sc env '' @ quoted ''LLM_PANIC_MSG'' @ '' '' @
       quoted (result_end_marker @ escaped_newline),
     ''? = $ ok 1 0 1'']"

definition generate_harness_main :: "string list \<Rightarrow> string" where
  "generate_harness_main test_names =
     text_lines ['': main'', ''L tname env '' @ quoted ''LLM_TEST_NAME''] @
     concat (map harness_case test_names) @
     text_lines [''. ) 2 '' @ quoted (''unknown test name'' @ escaped_newline) @ '' 1'']"

section \<open>The harness binary\<close>

record process_output =
  po_stdout :: string
  po_stderr :: string
  po_success :: bool
  po_code :: "int option"

text \<open>
  \<open>te_run n\<close> is what the \<open>n\<close>-th process of the run does, for a binary, the name of a test and
  a directory; \<open>te_link\<close> what the wrapper does with its arguments.
\<close>

record test_env =
  te_parse :: parse_env
  te_gen :: gen_env
  te_digests :: digests
  te_read :: "string \<Rightarrow> string + string"
  te_emit :: "gen_state \<Rightarrow> string \<Rightarrow> string + unit"
  te_llm_clang :: "string option"
  te_is_file :: "string \<Rightarrow> bool"
  te_current_exe :: "string option"
  te_current_dir :: "string option"
  te_canon :: "string \<Rightarrow> string option"
  te_temp_dir :: string
  te_pid :: nat
  te_create_dir :: "string \<Rightarrow> string + unit"
  te_link :: "string \<Rightarrow> string list \<Rightarrow> string + process_output"
  te_run :: "nat \<Rightarrow> string \<Rightarrow> string \<Rightarrow> string \<Rightarrow> string + process_output"

text \<open>\<open>Path::ancestors\<close>\<close>

lemma path_parent_shorter: "path_parent p = Some q \<Longrightarrow> length q < length p"
proof -
  assume q: "path_parent p = Some q"
  define s where "s = dropWhile (\<lambda>c. c = CHR ''/'') (rev p)"
  define up where "up = dropWhile (\<lambda>c. c \<noteq> CHR ''/'') s"
  define dir where "dir = rev (dropWhile (\<lambda>c. c = CHR ''/'') up)"
  define rooted where "rooted \<longleftrightarrow> p = [] \<or> list_all (\<lambda>c. c = CHR ''/'') p"
  have "path_parent p = (if rooted then None else Some (if dir = [] \<and> up \<noteq> [] then ''/'' else dir))"
    by (simp only: path_parent_def Let_def s_def up_def dir_def rooted_def)
  with q have r: "\<not> rooted" and q': "q = (if dir = [] \<and> up \<noteq> [] then ''/'' else dir)"
    by (cases rooted; simp)+
  then have p: "\<not> list_all (\<lambda>c. c = CHR ''/'') p" by (simp add: rooted_def)
  have "s \<noteq> []" using p by (simp add: s_def list_all_iff)
  then obtain c cs where d: "s = c # cs" by (cases s) auto
  have "c \<noteq> CHR ''/''" using hd_dropWhile[of "\<lambda>c. c = CHR ''/''" "rev p"] \<open>s \<noteq> []\<close> d by (simp add: s_def)
  note d = d this
  have "length s \<le> length p" using length_dropWhile_le[of _ "rev p"] by (simp add: s_def)
  moreover have "length up \<le> length cs" using length_dropWhile_le[of _ cs] d by (simp add: up_def)
  moreover have "length dir \<le> length up" using length_dropWhile_le[of _ up] by (simp add: dir_def)
  ultimately show ?thesis
    using d by (cases up) (auto simp: q')
qed

function ancestors :: "string \<Rightarrow> string list" where
  "ancestors p = p # (case path_parent p of None \<Rightarrow> [] | Some q \<Rightarrow> ancestors q)"
  by pat_completeness auto
termination by (relation "measure length") (auto dest: path_parent_shorter)

declare ancestors.simps [simp del]

definition clang_roots :: "test_env \<Rightarrow> string \<Rightarrow> string list" where
  "clang_roots te source_path =
     (case te_current_exe te of Some exe \<Rightarrow> tl (ancestors exe) | None \<Rightarrow> []) @
     (case te_canon te source_path of Some p \<Rightarrow> tl (ancestors p) | None \<Rightarrow> []) @
     (case te_current_dir te of Some cwd \<Rightarrow> ancestors cwd | None \<Rightarrow> [])"

definition find_llm_clang :: "test_env \<Rightarrow> string \<Rightarrow> string + string" where
  "find_llm_clang te source_path =
     (case find (te_is_file te)
        ((case te_llm_clang te of Some p \<Rightarrow> [p] | None \<Rightarrow> []) @
         map (\<lambda>root. path_join root ''llm-clang'') (clang_roots te source_path)) of
        Some cand \<Rightarrow> Inr cand
      | None \<Rightarrow> Inl ''could not locate llm-clang (set LLM_CLANG to its path)'')"

definition parse_test_module :: "test_env \<Rightarrow> string \<Rightarrow> string list \<Rightarrow> test_failure + expr list" where
  "parse_test_module te source_path import_paths =
     rbind (or_fail (\<lambda>e. Test_Error (''E999: Could not read file '' @ source_path @ '': '' @ e))
       (te_read te source_path)) (\<lambda>input.
     or_fail test_fail (parse_source (te_parse te)
       (import_paths @ (case path_parent source_path of Some parent \<Rightarrow> [parent] | None \<Rightarrow> []))
       source_path input))"

definition not_main :: "expr \<Rightarrow> bool" where
  "not_main e = (case strip_metadata e of Define name params body exported \<Rightarrow> name \<noteq> ''main'' | _ \<Rightarrow> True)"

definition parse_dispatcher :: "test_env \<Rightarrow> string list \<Rightarrow> test_failure + expr list" where
  "parse_dispatcher te names =
     or_fail (\<lambda>f. case test_fail f of
         Test_Error msg \<Rightarrow> Test_Error (''harness generation error: '' @ msg) | Test_Panicked msg \<Rightarrow> Test_Panicked msg)
       (parse_source (te_parse te) [] ''<llmtest-harness>'' (generate_harness_main names))"

definition harness_module ::
  "test_env \<Rightarrow> expr list \<Rightarrow> discovered_test list \<Rightarrow> test_failure + expr list" where
  "harness_module te production tests =
     rbind (parse_dispatcher te (map dt_name tests)) (\<lambda>main_exprs.
     Inr (filter not_main production @ map dt_define tests @ main_exprs))"

definition link_args :: "string \<Rightarrow> string list \<Rightarrow> string \<Rightarrow> string list" where
  "link_args obj_path import_paths bin_path =
     obj_path # concat (map (\<lambda>p. [''-I'', p]) import_paths) @ [''-o'', bin_path]"

definition link_harness ::
  "test_env \<Rightarrow> string \<Rightarrow> string list \<Rightarrow> string \<Rightarrow> string \<Rightarrow> test_failure + string" where
  "link_harness te source_path import_paths obj_path bin_path =
     rbind (or_fail Test_Error (find_llm_clang te source_path)) (\<lambda>llm_clang.
     rbind (or_fail (\<lambda>e. Test_Error (''failed to invoke '' @ llm_clang @ '': '' @ e))
       (te_link te llm_clang (link_args obj_path import_paths bin_path))) (\<lambda>out.
     if po_success out then Inr bin_path
     else Inl (Test_Error (''link failed:'' @ [newline] @ po_stdout out @ po_stderr out))))"

definition verified :: "string \<Rightarrow> expr list \<Rightarrow> compile_error + expr list" where
  "verified path exprs = (case verify_module exprs path of Some err \<Rightarrow> Inl err | None \<Rightarrow> Inr exprs)"

definition compile_harness ::
  "test_env \<Rightarrow> nat \<Rightarrow> string \<Rightarrow> expr list \<Rightarrow> discovered_test list \<Rightarrow> string list \<Rightarrow> string \<Rightarrow> test_failure + string" where
  "compile_harness te fuel source_path production tests import_paths work_dir =
     rbind (harness_module te production tests) (\<lambda>exprs.
     rbind (or_fail (test_fail \<circ> CErr) (verified source_path exprs)) (\<lambda>_.
     rbind (or_fail test_fail (gen_module ((te_gen te)\<lparr>ge_threshold := cf_parallel_threshold default_config\<rparr>) fuel exprs
       (module_state (ge_names (te_gen te)) source_path exprs))) (\<lambda>(_, s).
     rbind (or_fail (\<lambda>e. Test_Error (''object emission failed: '' @ e))
       (te_emit te s (path_join work_dir ''llmtest_harness.o''))) (\<lambda>_.
     link_harness te source_path import_paths
       (path_join work_dir ''llmtest_harness.o'') (path_join work_dir ''llmtest_harness_bin'')))))"

section \<open>Running a test\<close>

text \<open>\<open>str::find\<close>, \<open>str::rfind\<close> and \<open>str::splitn\<close>, the first two with a pattern that is not empty.\<close>

fun str_find :: "string \<Rightarrow> string \<Rightarrow> nat option" where
  "str_find pat [] = None"
| "str_find pat (c # cs) =
     (if starts_with (c # cs) pat then Some 0 else map_option Suc (str_find pat cs))"

fun str_rfind :: "string \<Rightarrow> string \<Rightarrow> nat option" where
  "str_rfind pat [] = None"
| "str_rfind pat (c # cs) =
     (case str_rfind pat cs of
        Some i \<Rightarrow> Some (Suc i)
      | None \<Rightarrow> if starts_with (c # cs) pat then Some 0 else None)"

fun splitn :: "nat \<Rightarrow> char \<Rightarrow> string \<Rightarrow> string list" where
  "splitn 0 sep s = []"
| "splitn (Suc 0) sep s = [s]"
| "splitn (Suc (Suc n)) sep s =
     (if sep \<in> set s
      then takeWhile (\<lambda>c. c \<noteq> sep) s # splitn (Suc n) sep (tl (dropWhile (\<lambda>c. c \<noteq> sep) s))
      else [s])"

text \<open>\<open>str::parse::<i64>\<close>\<close>

definition parse_i64 :: "string \<Rightarrow> i64 option" where
  "parse_i64 s =
     (case s of
        [] \<Rightarrow> None
      | c # cs \<Rightarrow>
          if c = CHR ''-'' then map_option (\<lambda>n. word_of_int (- n)) (parse_bounded (2 ^ 63 + 1) cs)
          else map_option word_of_int (parse_bounded (2 ^ 63) (if c = CHR ''+'' then cs else s)))"

definition parse_payload :: "string \<Rightarrow> (bool \<times> i64 \<times> string) option" where
  "parse_payload payload =
     (case splitn 3 CHR '':'' payload of
        ok # duration # rest \<Rightarrow>
          map_option (\<lambda>d. (trim ok = ''1'', d, case rest of [] \<Rightarrow> [] | msg # _ \<Rightarrow> msg)) (parse_i64 (trim duration))
      | _ \<Rightarrow> None)"

definition parse_result :: "string \<Rightarrow> (bool \<times> i64 \<times> string) option" where
  "parse_result stdout =
     (case str_rfind result_marker stdout of
        None \<Rightarrow> None
      | Some start \<Rightarrow>
          (let payload = drop (start + length result_marker) stdout in
           case str_find result_end_marker payload of
             None \<Rightarrow> None
           | Some end' \<Rightarrow> parse_payload (take end' payload)))"

definition show_int :: "int \<Rightarrow> string" where
  "show_int n = (if n < 0 then CHR ''-'' # show_dec (- n) else show_dec n)"

definition debug_code :: "int option \<Rightarrow> string" where
  "debug_code c = (case c of None \<Rightarrow> ''None'' | Some n \<Rightarrow> ''Some('' @ show_int n @ '')'')"

definition no_result :: "discovered_test \<Rightarrow> string \<Rightarrow> test_result" where
  "no_result test msg =
     \<lparr>tr_name = dt_name test, tr_passed = False, tr_duration = 0, tr_panic = Some msg,
      tr_fingerprint = dt_fingerprint test\<rparr>"

definition run_single_test :: "test_env \<Rightarrow> nat \<Rightarrow> string \<Rightarrow> string \<Rightarrow> discovered_test \<Rightarrow> test_result" where
  "run_single_test te n bin test_data_dir test =
     (case te_run te n bin (dt_name test) test_data_dir of
        Inl e \<Rightarrow> no_result test (''failed to spawn test process: '' @ e)
      | Inr output \<Rightarrow>
          (case parse_result (po_stdout output) of
             Some (passed, duration_ns, msg) \<Rightarrow>
               \<lparr>tr_name = dt_name test, tr_passed = passed, tr_duration = duration_ns,
                tr_panic = (if passed \<or> msg = [] then None else Some msg), tr_fingerprint = dt_fingerprint test\<rparr>
           | None \<Rightarrow>
               no_result test (''test process terminated without result (exit: '' @ debug_code (po_code output) @
                 ''): '' @ trim (po_stderr output))))"

section \<open>The report\<close>

definition count_result :: "test_report \<Rightarrow> test_result \<Rightarrow> test_report" where
  "count_result report res =
     report\<lparr>rp_passed := rp_passed report + (if tr_passed res then 1 else 0),
       rp_failed := rp_failed report + (if tr_passed res then 0 else 1),
       rp_results := rp_results report @ [res]\<rparr>"

fun run_all ::
  "test_env \<Rightarrow> nat \<Rightarrow> string \<Rightarrow> string \<Rightarrow> discovered_test list \<Rightarrow> test_report \<Rightarrow> test_report" where
  "run_all te n bin data_dir [] report = report"
| "run_all te n bin data_dir (test # tests) report =
     run_all te (Suc n) bin data_dir tests (count_result report (run_single_test te n bin data_dir test))"

definition empty_report :: "string \<Rightarrow> discovered_test list \<Rightarrow> test_report" where
  "empty_report source_path tests =
     \<lparr>rp_file = source_path, rp_total = length tests, rp_passed = 0, rp_failed = 0, rp_results = []\<rparr>"

definition resolve_data_dir :: "test_env \<Rightarrow> string option \<Rightarrow> string" where
  "resolve_data_dir te test_data_dir =
     (let data_dir = (case test_data_dir of Some d \<Rightarrow> d | None \<Rightarrow> default_test_data_dir) in
      case te_canon te data_dir of Some p \<Rightarrow> p | None \<Rightarrow> data_dir)"

text \<open>The closure of \<open>run_tests\<close>: compile once, then a process for each test.\<close>

definition run_harness ::
  "test_env \<Rightarrow> nat \<Rightarrow> nat \<Rightarrow> string \<Rightarrow> expr list \<Rightarrow> discovered_test list \<Rightarrow> string list \<Rightarrow> string \<Rightarrow> string \<Rightarrow>
   test_failure + test_report" where
  "run_harness te fuel n source_path production tests import_paths data_dir work_dir =
     rbind (compile_harness te fuel source_path production tests import_paths work_dir) (\<lambda>bin.
     Inr (run_all te n bin data_dir tests (empty_report source_path tests)))"

definition harness_dir :: "test_env \<Rightarrow> test_failure + string" where
  "harness_dir te =
     (let work_dir = path_join (te_temp_dir te) (''llmtest_'' @ show_nat (te_pid te)) in
      rbind (or_fail (\<lambda>e. Test_Error (''cannot create work dir: '' @ e)) (te_create_dir te work_dir))
        (\<lambda>_. Inr work_dir))"

definition run_tests ::
  "test_env \<Rightarrow> nat \<Rightarrow> nat \<Rightarrow> string \<Rightarrow> string option \<Rightarrow> string list \<Rightarrow> test_failure + test_report" where
  "run_tests te fuel n source_path test_data_dir import_paths =
     rbind (parse_test_module te source_path import_paths) (\<lambda>expressions.
     rbind (or_fail Test_Error (discover_tests (te_digests te) expressions)) (\<lambda>(tests, production).
     if tests = [] then Inr (empty_report source_path tests)
     else
       rbind (harness_dir te) (\<lambda>work_dir.
       run_harness te fuel n source_path production tests import_paths
         (resolve_data_dir te test_data_dir) work_dir)))"

text \<open>A module with one test, a linker that succeeds, and processes that print a verdict.\<close>

definition demo_output :: "nat \<Rightarrow> string \<Rightarrow> string \<Rightarrow> string \<Rightarrow> string + process_output" where
  "demo_output n bin name dir =
     Inr \<lparr>po_stdout = ''hello'' @ [newline] @ result_marker @ ''0:120:no'' @ result_end_marker @ [newline],
       po_stderr = [], po_success = True, po_code = Some 0\<rparr>"

definition demo_test_env :: test_env where
  "demo_test_env = \<lparr>te_parse = plain_env, te_gen = plain_gen, te_digests = \<lparr>dg_sha = rev, dg_f64 = (\<lambda>_. ''0'')\<rparr>,
     te_read = (\<lambda>p. Inr ''M \"test\" \"a\" : test_a ? = 1 1 ! \"no\" 0''), te_emit = (\<lambda>_ _. Inr ()), te_llm_clang = None,
     te_is_file = (\<lambda>p. p = ''/w/llm-clang''), te_current_exe = None, te_current_dir = Some ''/w/src'', te_canon = (\<lambda>_. None),
     te_temp_dir = ''/tmp'', te_pid = 7, te_create_dir = (\<lambda>_. Inr ()),
     te_link = (\<lambda>_ _. Inr \<lparr>po_stdout = [], po_stderr = [], po_success = True, po_code = Some 0\<rparr>),
     te_run = demo_output\<rparr>"

end
