(* ===== verification/Test_Protocol.thy ===== *)
theory Test_Protocol
  imports Testing
begin

text \<open>
  The protocol between a test process and the harness: what the dispatcher prints after a test
  is read back, whatever the test printed before.
\<close>

section \<open>Occurrences of a pattern\<close>

lemma starts_with_mono: "starts_with s (p @ q) \<Longrightarrow> starts_with s p"
  by (auto simp: starts_with_iff)

lemma starts_with_append: "length a \<le> length p \<Longrightarrow> starts_with (a @ b) p \<longleftrightarrow> take (length a) p = a \<and> starts_with b (drop (length a) p)"
  by (auto simp: starts_with_def) (metis append_take_drop_id append_eq_append_conv length_take min.absorb2)+

lemma str_rfind_None: "str_rfind pat s = None \<longleftrightarrow> (\<forall>i < length s. \<not> starts_with (drop i s) pat)"
  by (induction s) (auto simp: less_Suc_eq_0_disj split: option.split)

lemma str_rfind_last:
  "t \<noteq> [] \<Longrightarrow> starts_with t pat \<Longrightarrow> str_rfind pat (tl t) = None \<Longrightarrow> str_rfind pat (s @ t) = Some (length s)"
  by (induction s) (auto simp: neq_Nil_conv)

lemma str_find_first:
  "i < length s \<Longrightarrow> starts_with (drop i s) pat \<Longrightarrow> (\<And>j. j < i \<Longrightarrow> \<not> starts_with (drop j s) pat) \<Longrightarrow>
     str_find pat s = Some i"
proof (induction s arbitrary: i)
  case (Cons c cs)
  show ?case
  proof (cases i)
    case (Suc k)
    with Cons.prems(1,2) Cons.prems(3)[of "Suc _"] have "str_find pat cs = Some k"
      by (intro Cons.IH) auto
    with Cons.prems(3)[of 0] Suc show ?thesis by simp
  qed (use Cons.prems in simp)
qed simp

lemma contains_iff: "contains s q \<longleftrightarrow> (\<exists>i \<le> length s. starts_with (drop i s) q)"
  by (simp only: contains_def starts_with_def set_upt Bex_def atLeastLessThan_iff less_Suc_eq_le) simp

lemma contains_starts: "starts_with (drop i s) q \<Longrightarrow> i \<le> length s \<Longrightarrow> contains s q"
  by (auto simp: contains_iff)

text \<open>A pattern that begins in front of a text without its stem ends behind the text.\<close>

lemma straddle:
  assumes "\<not> contains x stem" "pat = stem @ rest" "i < length x"
    and "\<And>k. 0 < k \<Longrightarrow> k < length stem \<Longrightarrow> \<not> starts_with y (drop k pat)"
  shows "\<not> starts_with (drop i (x @ y)) pat"
proof
  assume s: "starts_with (drop i (x @ y)) pat"
  then have s': "starts_with (drop i x @ y) pat" using assms(3) by simp
  show False
  proof (cases "length stem \<le> length x - i")
    case True
    from s' have "starts_with (drop i x @ y) stem" by (auto simp: assms(2) dest: starts_with_mono)
    with True have "starts_with (drop i x) stem" by (simp add: starts_with_def)
    with assms(1,3) contains_starts show False by fastforce
  next
    case False
    with s' have "starts_with y (drop (length x - i) pat)"
      by (simp add: starts_with_append[of "drop i x"] assms(2))
    with assms(3) assms(4)[of "length x - i"] False show False by simp
  qed
qed

section \<open>Fields of the payload\<close>

lemma trim_solid: "list_all (\<lambda>c. \<not> is_whitespace c) s \<Longrightarrow> trim s = s"
proof -
  assume s: "list_all (\<lambda>c. \<not> is_whitespace c) s"
  have "dropWhile is_whitespace t = t" if "list_all (\<lambda>c. \<not> is_whitespace c) t" for t
    using that by (cases t) simp_all
  with s show ?thesis by (simp add: trim_def trim_start_def)
qed

lemma splitn_cut:
  "sep \<notin> set a \<Longrightarrow> splitn (Suc (Suc n)) sep (a @ sep # b) = a # splitn (Suc n) sep b"
proof -
  assume a: "sep \<notin> set a"
  then have "takeWhile (\<lambda>c. c \<noteq> sep) (a @ sep # b) = a" "dropWhile (\<lambda>c. c \<noteq> sep) (a @ sep # b) = sep # b"
    by (induction a) auto
  then show ?thesis by simp
qed

lemma show_i64_chars:
  "list_all (\<lambda>c. is_digit c \<or> c = CHR ''-'') (show_i64 d)"
proof -
  have "list_all (\<lambda>c. is_digit c \<or> c = CHR ''-'') (show_dec n)" if "0 \<le> n" for n
    using show_dec_digits[OF that] by (auto simp: list_all_iff)
  then show ?thesis by (simp add: show_i64_def)
qed

lemma parse_show_i64: "parse_i64 (show_i64 d) = Some d"
proof (cases "sint d < 0")
  case True
  have "- sint d < 2 ^ 63 + 1" using sint_greater_eq[of d] by simp
  with True parse_bounded_show_dec[of "- sint d"] show ?thesis
    by (simp add: show_i64_def parse_i64_def)
next
  case False
  obtain c cs where s: "show_dec (sint d) = c # cs" by (cases "show_dec (sint d)") auto
  with show_dec_digits[of "sint d"] False have "is_digit c" by simp
  then have "c \<noteq> CHR ''-''" "c \<noteq> CHR ''+''" by (auto simp: is_digit_def)
  moreover have "sint d < 2 ^ 63" using sint_less[of d] by simp
  ultimately show ?thesis
    using False s parse_bounded_show_dec[of "sint d" "2 ^ 63"] by (simp add: show_i64_def parse_i64_def)
qed

lemma parse_payload_fields:
  "parse_payload ((if ok then ''1'' else ''0'') @ '':'' @ show_i64 d @ '':'' @ msg) = Some (ok, d, msg)"
proof -
  have d: "CHR '':'' \<notin> set (show_i64 d)" "list_all (\<lambda>c. \<not> is_whitespace c) (show_i64 d)"
    using show_i64_chars[of d] by (auto simp: list_all_iff is_digit_def is_whitespace_def Let_def)
  have "splitn 3 CHR '':'' ((if ok then ''1'' else ''0'') @ '':'' @ show_i64 d @ '':'' @ msg) =
      [if ok then ''1'' else ''0'', show_i64 d, msg]"
    using splitn_cut[of "CHR '':''" "if ok then ''1'' else ''0''" 1 "show_i64 d @ '':'' @ msg"]
      splitn_cut[OF d(1), of 0 msg]
    by (simp add: numeral_3_eq_3)
  moreover have "trim (if ok then ''1'' else ''0'') = (if ok then ''1'' else ''0'')"
    by (rule trim_solid) (simp add: is_whitespace_def)
  ultimately show ?thesis by (simp add: parse_payload_def trim_solid[OF d(2)] parse_show_i64)
qed

section \<open>The protocol\<close>

text \<open>What the dispatcher prints.\<close>

definition protocol_block :: "bool \<Rightarrow> i64 \<Rightarrow> string \<Rightarrow> string" where
  "protocol_block ok duration msg =
     [newline] @ result_marker @ (if ok then ''1'' else ''0'') @ '':'' @ show_i64 duration @ '':'' @ msg @
     result_end_marker @ [newline]"

definition marker_stem :: string where "marker_stem = ''__LLMTEST_''"

lemma markers:
  "result_marker = marker_stem @ ''_:''" "result_end_marker = marker_stem @ ''END__''"
  by (simp_all add: result_marker_def result_end_marker_def marker_stem_def)

text \<open>Neither marker begins behind its start in what follows the fields.\<close>

lemma overlap_checks:
  "list_all (\<lambda>k. \<not> starts_with (result_end_marker @ [newline]) (drop k result_end_marker)) [1, 2, 3, 4, 5, 6, 7, 8, 9]"
  "list_all (\<lambda>k. \<not> starts_with (result_end_marker @ [newline]) (drop k result_marker)) [1, 2, 3, 4, 5, 6, 7, 8, 9]"
  "list_all (\<lambda>i. take (12 - i) result_marker \<noteq> drop i result_marker) [1, 2, 3, 4, 5, 6, 7, 8, 9, 10, 11]"
  "list_all (\<lambda>i. \<not> starts_with (drop i (result_end_marker @ [newline])) result_marker)
     [0, 1, 2, 3, 4, 5, 6, 7, 8, 9, 10, 11, 12, 13, 14, 15]"
  "length marker_stem = 10 \<and> length result_marker = 12 \<and> length (result_end_marker @ [newline]) = 16"
  by code_simp+

lemma number_lists:
  "0 < k \<Longrightarrow> k < 10 \<Longrightarrow> k \<in> set [1, 2, 3, 4, 5, 6, 7, 8, 9 :: nat]"
  "0 < k \<Longrightarrow> k < 12 \<Longrightarrow> k \<in> set [1, 2, 3, 4, 5, 6, 7, 8, 9, 10, 11 :: nat]"
  "k < 16 \<Longrightarrow> k \<in> set [0, 1, 2, 3, 4, 5, 6, 7, 8, 9, 10, 11, 12, 13, 14, 15 :: nat]"
  by (simp_all, presburger+)

lemma marker_lengths:
  "length marker_stem = 10" "length result_marker = 12" "length (result_end_marker @ [newline]) = 16"
  using overlap_checks(5) by simp_all

lemma no_overlap:
  "0 < k \<Longrightarrow> k < length marker_stem \<Longrightarrow> \<not> starts_with (result_end_marker @ [newline]) (drop k result_end_marker)"
  "0 < k \<Longrightarrow> k < length marker_stem \<Longrightarrow> \<not> starts_with (result_end_marker @ [newline]) (drop k result_marker)"
  "0 < i \<Longrightarrow> i < length result_marker \<Longrightarrow> take (length result_marker - i) result_marker \<noteq> drop i result_marker"
  "j < length (result_end_marker @ [newline]) \<Longrightarrow> \<not> starts_with (drop j (result_end_marker @ [newline])) result_marker"
  unfolding marker_lengths using overlap_checks number_lists unfolding list_all_iff by blast+

lemma contains_skip:
  "contains (a @ b) (c # q) \<Longrightarrow> c \<notin> set a \<Longrightarrow> contains b (c # q)"
proof (induction a)
  case (Cons x a)
  from Cons.prems(1) obtain i where i: "i \<le> length (x # a @ b)" "starts_with (drop i (x # a @ b)) (c # q)"
    by (auto simp: contains_iff)
  have "i \<noteq> 0"
  proof
    assume "i = 0"
    with i(2) Cons.prems(2) show False by (simp add: starts_with_def)
  qed
  with i have "contains (a @ b) (c # q)" by (cases i) (auto intro: contains_starts)
  with Cons show ?case by simp
qed simp

definition payload_fields :: "bool \<Rightarrow> i64 \<Rightarrow> string \<Rightarrow> string" where
  "payload_fields ok d msg = (if ok then ''1'' else ''0'') @ '':'' @ show_i64 d @ '':'' @ msg"


lemma payload_stem:
  assumes "\<not> contains msg marker_stem"
  shows "\<not> contains (payload_fields ok d msg) marker_stem"
proof -
  have "CHR ''_'' \<notin> set ((if ok then ''1'' else ''0'') @ '':'' @ show_i64 d @ '':'')"
    using show_i64_chars[of d] by (auto simp: list_all_iff is_digit_def)
  from contains_skip[OF _ this, of msg] assms show ?thesis
    by (fastforce simp: payload_fields_def marker_stem_def)
qed

text \<open>Of all positions in the text from the last marker on, only the first has the marker.\<close>

lemma marker_once:
  assumes "\<not> contains x marker_stem"
  shows "str_rfind result_marker (tl (result_marker @ x @ result_end_marker @ [newline])) = None"
  unfolding str_rfind_None
proof (intro allI impI)
  let ?y = "result_end_marker @ [newline]"
  let ?t = "result_marker @ x @ ?y"
  fix i assume i: "i < length (tl ?t)"
  have "\<not> starts_with (drop (Suc i) ?t) result_marker"
  proof (cases "Suc i < length result_marker")
    case True
    have "take (length result_marker - Suc i) result_marker \<noteq> drop (Suc i) result_marker"
      using no_overlap(3) True by auto
    with True starts_with_append[of "drop (Suc i) result_marker" result_marker "x @ ?y"] show ?thesis by auto
  next
    case False
    define j where "j = Suc i - length result_marker"
    have d: "drop (Suc i) ?t = drop j (x @ ?y)" using False by (simp add: j_def)
    show ?thesis
    proof (cases "j < length x")
      case True
      have "\<not> starts_with (drop j (x @ ?y)) result_marker"
        by (rule straddle[OF assms markers(1) True]) (use no_overlap(2) in blast)
      then show ?thesis by (simp only: d) simp
    next
      case nx: False
      have "Suc (length (tl ?t)) = length ?t" by (simp add: result_marker_def)
      with i False nx have "j - length x < length ?y" by (simp add: j_def)
      then have "\<not> starts_with (drop (j - length x) ?y) result_marker" using no_overlap(4) by auto
      moreover have "drop j (x @ ?y) = drop (j - length x) ?y" using nx by simp
      ultimately show ?thesis by (simp only: d) simp
    qed
  qed
  then show "\<not> starts_with (drop i (tl ?t)) result_marker" by (simp only: drop_Suc) simp
qed

lemma end_marker_first:
  assumes "\<not> contains x marker_stem"
  shows "str_find result_end_marker (x @ result_end_marker @ [newline]) = Some (length x)"
proof (rule str_find_first)
  show "\<not> starts_with (drop j (x @ result_end_marker @ [newline])) result_end_marker" if "j < length x" for j
    by (rule straddle[OF assms markers(2) that]) (use no_overlap(1) in blast)
qed (auto simp: starts_with_iff result_end_marker_def)

text \<open>C34: results survive the protocol.  Whatever a test printed before, what the dispatcher
  prints after it is read back as the same verdict, duration and message, if the message does
  not contain the stem of the markers.\<close>

theorem protocol_round_trip:
  assumes "\<not> contains msg marker_stem"
  shows "parse_result (output @ protocol_block ok duration msg) = Some (ok, duration, msg)"
proof -
  let ?x = "payload_fields ok duration msg"
  let ?t = "result_marker @ ?x @ result_end_marker @ [newline]"
  have out: "output @ protocol_block ok duration msg = (output @ [newline]) @ ?t"
    by (simp add: protocol_block_def payload_fields_def)
  have "str_rfind result_marker ((output @ [newline]) @ ?t) = Some (length (output @ [newline]))"
    by (rule str_rfind_last[OF _ _ marker_once[OF payload_stem[OF assms]]])
       (auto simp: starts_with_iff result_marker_def)
  then show ?thesis
    unfolding out parse_result_def
    using end_marker_first[OF payload_stem[OF assms]] parse_payload_fields
    by (simp add: payload_fields_def)
qed

lemma protocol_round_trip_witness:
  "parse_result (result_marker @ ''1:0:'' @ result_end_marker @ protocol_block False 1234 ''broken: _'') =
     Some (False, 1234, ''broken: _'')"
proof -
  have "\<not> contains ''broken: _'' marker_stem" by code_simp
  from protocol_round_trip[OF this, of "result_marker @ ''1:0:'' @ result_end_marker" False 1234] show ?thesis
    by simp
qed

end
