(* ===== verification/Dispatcher.thy ===== *)
theory Dispatcher
  imports Testing Reparse
begin

text \<open>
  The dispatcher that the harness writes as source text: what the parser makes of it for an
  arbitrary list of test names.
\<close>

section \<open>The intended program\<close>

definition protocol_expr :: expr where
  "protocol_expr =
     Cat (String (newline # result_marker)) (Cat (Str (Borrow (DeBruijn 1))) (Cat (String '':'')
       (Cat (Str (BinaryOp TSub (Borrow (DeBruijn 0)) (Borrow (DeBruijn 2)))) (Cat (String '':'')
         (Cat (Env (String ''LLM_PANIC_MSG'')) (String (result_end_marker @ [newline])))))))"

definition dispatch_case :: "string \<Rightarrow> expr \<Rightarrow> expr" where
  "dispatch_case name otherwise =
     If (Reg (Borrow (DeBruijn 0)) (String (''^'' @ name @ ''$'')))
       (Let ''t0'' TimeNano
       (Let ''ok'' (Trap (Seq (Apply (Identifier name) []) (Integer 1)) (Integer 0))
       (Let ''t1'' TimeNano
       (Seq (Write (Integer 1) protocol_expr)
            (If (BinaryOp TEq (Borrow (DeBruijn 1)) (Integer 1)) (Integer 0) (Integer 1))))))
       otherwise"

definition unknown_test :: expr where
  "unknown_test = Seq (Write (Integer 2) (String (''unknown test name'' @ [newline]))) (Integer 1)"

definition dispatcher :: "string list \<Rightarrow> expr" where
  "dispatcher names =
     Define ''main'' [] (Let ''tname'' (Env (String ''LLM_TEST_NAME'')) (foldr dispatch_case names unknown_test)) False"

section \<open>The tokens\<close>

definition case_toks :: "string \<Rightarrow> token list list" where
  "case_toks name = [
     [TQuestion, TReg, TBorrow, TIdentifier ''tname'', TString (''^'' @ name @ ''$'')],
     [TLet, TIdentifier ''t0'', TTimeNano],
     [TLet, TIdentifier ''ok'', TTrap, TDot, TApply 0, TIdentifier name, TInteger 1, TInteger 0],
     [TLet, TIdentifier ''t1'', TTimeNano],
     [TDot, TWrite, TInteger 1, TCat, TString (newline # result_marker), TCat, TStr, TBorrow, TIdentifier ''ok'',
      TCat, TString '':'', TCat, TStr, TSub, TBorrow, TIdentifier ''t1'', TBorrow, TIdentifier ''t0'',
      TCat, TString '':'', TCat, TEnv, TString ''LLM_PANIC_MSG'', TString (result_end_marker @ [newline])],
     [TQuestion, TEq, TBorrow, TIdentifier ''ok'', TInteger 1, TInteger 0, TInteger 1]]"

definition prelude_toks :: "token list list" where
  "prelude_toks = [[TDefine, TIdentifier ''main''], [TLet, TIdentifier ''tname'', TEnv, TString ''LLM_TEST_NAME'']]"

definition unknown_toks :: "token list" where
  "unknown_toks = [TDot, TWrite, TInteger 2, TString (''unknown test name'' @ [newline]), TInteger 1]"

lemma scan_line:
  assumes "spells fo l ts" shows "scan fo (l @ newline # r) = map_option ((@) ts) (scan fo r)"
proof -
  have "separates (newline # r)" by (simp add: separates_def is_whitespace_def)
  with assms show ?thesis by (simp add: spells_def is_whitespace_def)
qed

lemma scan_lines:
  "list_all2 (spells fo) ls tss \<Longrightarrow> scan fo (text_lines ls @ r) = map_option ((@) (concat tss)) (scan fo r)"
proof (induction rule: list_all2_induct)
  case Nil
  then show ?case by (cases "scan fo r") (simp_all add: text_lines_def)
next
  case (Cons l ls ts tss)
  then show ?case by (cases "scan fo r") (simp_all add: text_lines_def scan_line)
qed

text \<open>A line of words with a space between them.\<close>

definition line :: "string list \<Rightarrow> string" where
  "line ws = spaced (hd ws) (tl ws)"

lemma spells_words: "ws \<noteq> [] \<Longrightarrow> list_all2 (\<lambda>w t. spells fo w [t]) ws ts \<Longrightarrow> spells fo (line ws) ts"
proof -
  assume ws: "ws \<noteq> []" and l: "list_all2 (\<lambda>w t. spells fo w [t]) ws ts"
  then obtain w ws' t ts' where w: "ws = w # ws'" "ts = t # ts'" "spells fo w [t]"
    "list_all2 (\<lambda>w t. spells fo w [t]) ws' ts'" by (cases ws; cases ts) auto
  have "list_all2 (spells fo) ws' (map (\<lambda>t. [t]) ts')"
    using w(4) by (simp add: list_all2_map2)
  from spells_spaced[OF w(3) this] show ?thesis using w(1,2) by (simp add: line_def)
qed

lemma dispatcher_names:
  "list_all name_ok [''main'', ''tname'', ''t0'', ''t1'', ''ok'']"
  by code_simp

lemma dispatcher_words:
  "list_all (\<lambda>(w, t). map_of operator_words w = Some t)
     [(''?'', TQuestion), (''sr'', TReg), (''$'', TBorrow), (''L'', TLet), (''tns'', TTimeNano), (''.'', TDot),
      ('')'', TWrite), (''sc'', TCat), (''str'', TStr), (''-'', TSub), (''env'', TEnv), (''='', TEq), ('':'', TDefine)]"
  by code_simp

lemma dispatcher_numbers: "show_i64 0 = ''0''" "show_i64 1 = ''1''" "show_i64 2 = ''2''" "''@'' @ show_nat 0 = ''@0''"
  by code_simp+

lemma spells_name_here: "name \<in> {''main'', ''tname'', ''t0'', ''t1'', ''ok''} \<Longrightarrow> spells fo name [TIdentifier name]"
  using dispatcher_names by (auto simp: list_all_iff intro: spells_name_ok)

lemma spells_dispatcher_words:
  "spells fo ''?'' [TQuestion]" "spells fo ''sr'' [TReg]" "spells fo ''$'' [TBorrow]" "spells fo ''L'' [TLet]"
  "spells fo ''tns'' [TTimeNano]" "spells fo ''.'' [TDot]" "spells fo '')'' [TWrite]" "spells fo ''sc'' [TCat]"
  "spells fo ''str'' [TStr]" "spells fo ''-'' [TSub]" "spells fo ''env'' [TEnv]" "spells fo ''='' [TEq]"
  "spells fo '':'' [TDefine]"
  using dispatcher_words by simp_all

lemma spells_numbers:
  "spells fo ''0'' [TInteger 0]" "spells fo ''1'' [TInteger 1]" "spells fo ''2'' [TInteger 2]" "spells fo ''@0'' [TApply 0]"
  using spells_integer[of 0 fo] spells_integer[of 1 fo] spells_integer[of 2 fo] spells_apply[of 0 fo]
  by (simp_all add: dispatcher_numbers[simplified])


lemma no_escape: "list_all (\<lambda>c. c \<noteq> quote \<and> c \<noteq> backslash) s \<Longrightarrow> spells fo (quoted s) [TString s]"
  by (rule spells_quotes(2)) (auto simp: plain_text_def list_all_iff)

lemma ident_no_escape: "name_ok name \<Longrightarrow> list_all (\<lambda>c. c \<noteq> quote \<and> c \<noteq> backslash) name"
proof -
  assume "name_ok name"
  then have "list_all (\<lambda>c. is_ident_char c) name"
    by (cases name) (auto simp: name_ok_def ident_ok_def, simp_all add: is_ident_char_def is_alphanumeric_def)
  then show ?thesis by (auto simp: list_all_iff charclass_defs)
qed

lemma spells_marker:
  "spells fo (quoted (escaped_newline @ result_marker)) [TString (newline # result_marker)]"
  "spells fo (quoted (result_end_marker @ escaped_newline)) [TString (result_end_marker @ [newline])]"
  "spells fo (quoted (''unknown test name'' @ escaped_newline)) [TString (''unknown test name'' @ [newline])]"
proof -
  have "escape_string (newline # result_marker) = escaped_newline @ result_marker"
    "escape_string (result_end_marker @ [newline]) = result_end_marker @ escaped_newline"
    "escape_string (''unknown test name'' @ [newline]) = ''unknown test name'' @ escaped_newline"
    by code_simp+
  then show "spells fo (quoted (escaped_newline @ result_marker)) [TString (newline # result_marker)]"
    "spells fo (quoted (result_end_marker @ escaped_newline)) [TString (result_end_marker @ [newline])]"
    "spells fo (quoted (''unknown test name'' @ escaped_newline)) [TString (''unknown test name'' @ [newline])]"
    by (metis spells_quotes(1))+
qed

lemma spells_case:
  assumes "name_ok name"
  shows "\<exists>ls. harness_case name = text_lines ls \<and> list_all2 (spells fo) ls (case_toks name)"
proof -
  let ?q = "quoted (''^'' @ name @ ''$'')"
  let ?ls = "[line [''?'', ''sr'', ''$'', ''tname'', ?q],
    line [''L'', ''t0'', ''tns''],
    line [''L'', ''ok'', ''^'', ''.'', ''@0'', name, ''1'', ''0''],
    line [''L'', ''t1'', ''tns''],
    line [''.'', '')'', ''1'', ''sc'', quoted (escaped_newline @ result_marker), ''sc'', ''str'', ''$'', ''ok'',
      ''sc'', quoted '':'', ''sc'', ''str'', ''-'', ''$'', ''t1'', ''$'', ''t0'', ''sc'', quoted '':'',
      ''sc'', ''env'', quoted ''LLM_PANIC_MSG'', quoted (result_end_marker @ escaped_newline)],
    line [''?'', ''='', ''$'', ''ok'', ''1'', ''0'', ''1'']]"
  have "harness_case name = text_lines ?ls"
    by (simp add: harness_case_def text_lines_def line_def spaced_def)
  moreover have "spells fo ?q [TString (''^'' @ name @ ''$'')]"
    by (rule no_escape) (simp add: ident_no_escape[OF assms])
  then have "list_all2 (spells fo) ?ls (case_toks name)"
    using assms
    by (simp add: case_toks_def spells_words spells_dispatcher_words spells_numbers spells_name_here
        spells_marker spells_trap spells_name_ok no_escape)
  ultimately show ?thesis by blast
qed

lemma scan_case:
  "name_ok name \<Longrightarrow> scan fo (harness_case name @ r) = map_option ((@) (concat (case_toks name))) (scan fo r)"
  using spells_case scan_lines by metis

definition dispatcher_toks :: "string list \<Rightarrow> token list" where
  "dispatcher_toks names =
     concat prelude_toks @ concat (map (\<lambda>name. concat (case_toks name)) names) @ unknown_toks"

lemma scan_dispatcher:
  assumes "list_all name_ok names"
  shows "scan fo (generate_harness_main names) = Some (dispatcher_toks names)"
proof -
  have "scan fo (text_lines [''. ) 2 '' @ quoted (''unknown test name'' @ escaped_newline) @ '' 1'']) = Some unknown_toks"
  proof -
    let ?line = "line [''.'', '')'', ''2'', quoted (''unknown test name'' @ escaped_newline), ''1'']"
    have l: "''. ) 2 '' @ quoted (''unknown test name'' @ escaped_newline) @ '' 1'' = ?line"
      by (simp add: line_def spaced_def)
    have "spells fo ?line unknown_toks"
      unfolding unknown_toks_def using spells_marker(3)
      by (intro spells_words) (simp_all add: spells_dispatcher_words spells_numbers)
    then show ?thesis
      unfolding l using scan_lines[of fo "[?line]" "[unknown_toks]" "[]"] by (simp only: list.rel_inject) simp
  qed
  moreover have "scan fo (concat (map harness_case names) @ r) =
      map_option ((@) (concat (map (\<lambda>name. concat (case_toks name)) names))) (scan fo r)" for r
    using assms
  proof (induction names)
    case (Cons name names)
    then show ?case by (cases "scan fo r") (simp_all add: scan_case)
  qed (cases "scan fo r"; simp)
  moreover have "scan fo (text_lines ['': main'', ''L tname env '' @ quoted ''LLM_TEST_NAME''] @ r) =
      map_option ((@) (concat prelude_toks)) (scan fo r)" for r
  proof -
    have l: "'': main'' = line ['':'', ''main'']"
      "''L tname env '' @ quoted ''LLM_TEST_NAME'' = line [''L'', ''tname'', ''env'', quoted ''LLM_TEST_NAME'']"
      by (simp_all add: line_def spaced_def)
    show ?thesis
      unfolding l
      by (rule scan_lines) (simp add: prelude_toks_def spells_words spells_dispatcher_words spells_name_here no_escape)
  qed
  ultimately show ?thesis by (simp add: generate_harness_main_def dispatcher_toks_def)
qed


section \<open>Reading source with names\<close>

text \<open>
  The parser reads an expression from some tokens and leaves the scopes and the other tokens,
  with as much fuel as it takes tokens.
\<close>

definition says :: "parse_env \<Rightarrow> string list list \<Rightarrow> token list \<Rightarrow> expr \<Rightarrow> token list \<Rightarrow> bool" where
  "says env scs ts e ts' \<longleftrightarrow> length ts' < length ts \<and>
     (\<forall>n paths file. length ts - length ts' \<le> n \<longrightarrow> reads env paths file scs ts (parse_fuel env n) e scs ts')"

lemma says_arm:
  assumes "length ts' \<le> length ts"
    and "\<And>n paths file. length ts - length ts' \<le> n \<Longrightarrow>
      reads env paths file scs (t # ts) (parse_arm env (parse_fuel env n) t) e scs ts'"
  shows "says env scs (t # ts) e ts'"
  unfolding says_def
proof (intro conjI allI impI)
  show "length ts' < length (t # ts)" using assms(1) by simp
  fix n paths "file" assume "length (t # ts) - length ts' \<le> n"
  with assms(1) obtain m where m: "n = Suc m" "length ts - length ts' \<le> m"
    by (cases n) auto
  show "reads env paths file scs (t # ts) (parse_fuel env n) e scs ts'"
    using reparse.reads_arm[OF assms(2)[OF m(2)]] by (simp add: m(1))
qed

lemma reads_says:
  "says env scs ts a ts1 \<Longrightarrow> length ts - length ts1 \<le> n \<Longrightarrow> reads env paths file scs ts1 (k a) x scs' ts2 \<Longrightarrow>
   reads env paths file scs ts (pbind (parse_fuel env n) k) x scs' ts2"
  by (rule reads_bind) (simp_all add: says_def)

lemma says_shorter: "says env scs ts a ts1 \<Longrightarrow> length ts1 < length ts"
  by (simp add: says_def)

lemma says_leaf:
  assumes "\<And>pe. parse_arm env pe t = parse_leaf env e"
  shows "says env scs (t # ts) e ts"
  by (rule says_arm) (simp_all add: assms parse_leaf_def reads_after reads_return)

lemma says_unary:
  assumes "\<And>pe. parse_arm env pe t = parse_unary env pe C" and a: "says env scs ts a ts1"
  shows "says env scs (t # ts) (C a) ts1"
  using says_shorter[OF a]
  by (intro says_arm) (auto simp: assms(1) parse_unary_def intro!: reads_after reads_says[OF a] reads_return)

lemma says_binary:
  assumes "\<And>pe. parse_arm env pe t = parse_binary env pe C"
    and a: "says env scs ts a ts1" and b: "says env scs ts1 b ts2"
  shows "says env scs (t # ts) (C a b) ts2"
  using says_shorter[OF a] says_shorter[OF b]
  by (intro says_arm)
     (auto simp: assms(1) parse_binary_def intro!: reads_after reads_says[OF a] reads_says[OF b] reads_return)

lemma says_ternary:
  assumes "\<And>pe. parse_arm env pe t = parse_ternary env pe C"
    and a: "says env scs ts a ts1" and b: "says env scs ts1 b ts2" and c: "says env scs ts2 c ts3"
  shows "says env scs (t # ts) (C a b c) ts3"
  using says_shorter[OF a] says_shorter[OF b] says_shorter[OF c]
  by (intro says_arm) (auto simp: assms(1) parse_ternary_def
      intro!: reads_after reads_says[OF a] reads_says[OF b] reads_says[OF c] reads_return)

lemma says_operator:
  assumes "\<And>pe. parse_arm env pe t = parse_operator env pe BinaryOp"
    and a: "says env scs ts a ts1" and b: "says env scs ts1 b ts2"
  shows "says env scs (t # ts) (BinaryOp t a b) ts2"
  using says_shorter[OF a] says_shorter[OF b]
  by (intro says_arm)
     (auto simp: assms(1) parse_operator_def intro!: reads_after reads_says[OF a] reads_says[OF b] reads_return)

lemma says_leaf_state:
  assumes "\<And>pe p. px_scopes p = scs \<Longrightarrow> parse_arm env pe t p = parse_leaf env e p"
  shows "says env scs (t # ts) e ts"
proof (rule says_arm)
  show "reads env paths file scs (t # ts) (parse_arm env (parse_fuel env n) t) e scs ts" for paths "file" n
  proof (rule reads_state[OF assms])
    show "reads env paths file scs (t # ts) (parse_leaf env e) e scs ts"
      by (simp add: parse_leaf_def reads_after reads_return)
  qed
qed simp

lemma says_name:
  "resolve_variable scs x = Some i \<Longrightarrow> says env scs (TIdentifier x # ts) (DeBruijn i) ts"
  "resolve_variable scs x = None \<Longrightarrow> says env scs (TIdentifier x # ts) (Identifier x) ts"
  by (rule says_leaf_state, simp add: parse_arm_def parse_identifier_def)+

lemma says_let:
  assumes v: "says env (scs @ [vs]) ts v ts1" and b: "says env (scs @ [vs @ [x]]) ts1 b ts2"
  shows "says env (scs @ [vs]) (TLet # TIdentifier x # ts) (Let x v b) ts2"
proof (rule says_arm)
  show "length ts2 \<le> length (TIdentifier x # ts)" using says_shorter[OF v] says_shorter[OF b] by simp
  fix n paths "file" assume n: "length (TIdentifier x # ts) - length ts2 \<le> n"
  let ?out = "\<lambda>b. pbind (on_scopes pop_variable) (\<lambda>_. preturn (Let x v b))"
  have "reads env paths file (scs @ [vs @ [x]]) ts2 (?out b) (Let x v b) (scs @ [vs]) ts2"
    using reads_scoped[of env paths "file" "scs @ [vs @ [x]]" ts2 pop_variable "Let x v b"]
      pop_add_variable[of x "scs @ [vs]"] by (simp add: add_variable_push)
  then have "reads env paths file (scs @ [vs @ [x]]) ts1 (pbind (parse_fuel env n) ?out) (Let x v b) (scs @ [vs]) ts2"
    by (rule reads_says[OF b, rotated]) (use n says_shorter[OF v] in simp)
  then have "reads env paths file (scs @ [vs]) ts1
      (pbind (on_scopes (add_variable x)) (\<lambda>_. pbind (parse_fuel env n) ?out)) (Let x v b) (scs @ [vs]) ts2"
    using reads_on_scopes[of env paths "file" "scs @ [vs]" ts1 "add_variable x"]
    by (simp add: add_variable_push reads_bind)
  then have "reads env paths file (scs @ [vs]) ts (pbind (parse_fuel env n) (\<lambda>v.
      pbind (on_scopes (add_variable x)) (\<lambda>_. pbind (parse_fuel env n)
        (\<lambda>b. pbind (on_scopes pop_variable) (\<lambda>_. preturn (Let x v b)))))) (Let x v b) (scs @ [vs]) ts2"
    by (rule reads_says[OF v, rotated]) (use n says_shorter[OF b] in simp)
  then show "reads env paths file (scs @ [vs]) (TLet # TIdentifier x # ts)
      (parse_arm env (parse_fuel env n) TLet) (Let x v b) (scs @ [vs]) ts2"
    unfolding parse_arm_def token.case parse_let_def by (intro reads_after reads_bind[OF reads_consume_ident])
qed

lemma says_let_here:
  "says env [vs] ts v ts1 \<Longrightarrow> says env [vs'] ts1 b ts2 \<Longrightarrow> vs' = vs @ [x] \<Longrightarrow>
     says env [vs] (TLet # TIdentifier x # ts) (Let x v b) ts2"
  using says_let[of env "[]"] by simp

lemma says_call:
  assumes f: "says env scs ts f ts1"
  shows "says env scs (TApply 0 # ts) (Apply f []) ts1"
  using says_shorter[OF f]
  by (intro says_arm) (auto simp: parse_arm_def parse_apply_def intro!: reads_after reads_says[OF f] reads_return
      reads_bind[where x = "[]", OF reads_return])


text \<open>The constructs of the dispatcher.\<close>

lemma says_leaves:
  "says env scs (TInteger i # ts) (Integer i) ts" "says env scs (TString s # ts) (String s) ts"
  "says env scs (TTimeNano # ts) TimeNano ts"
  by (rule says_leaf, simp add: parse_arm_def)+

lemmas says_borrow = says_unary[where t = TBorrow and C = Borrow, simplified parse_arm_def, simplified]
lemmas says_env = says_unary[where t = TEnv and C = Env, simplified parse_arm_def, simplified]
lemmas says_str = says_unary[where t = TStr and C = Str, simplified parse_arm_def, simplified]
lemmas says_cat = says_binary[where t = TCat and C = Cat, simplified parse_arm_def, simplified]
lemmas says_reg = says_binary[where t = TReg and C = Reg, simplified parse_arm_def, simplified]
lemmas says_seq = says_binary[where t = TDot and C = Seq, simplified parse_arm_def, simplified]
lemmas says_write = says_binary[where t = TWrite and C = Write, simplified parse_arm_def, simplified]
lemmas says_trap = says_binary[where t = TTrap and C = Trap, simplified parse_arm_def, simplified]
lemmas says_if = says_ternary[where t = TQuestion and C = If, simplified parse_arm_def, simplified]
lemmas says_sub = says_operator[where t = TSub, simplified parse_arm_def is_binary_operator_def, simplified]
lemmas says_eq = says_operator[where t = TEq, simplified parse_arm_def is_binary_operator_def, simplified]

lemmas sentences = says_leaves says_borrow says_env says_str says_cat says_reg says_seq says_write says_trap
  says_if says_sub says_eq says_call says_name

text \<open>The variables in scope where the dispatcher uses them.\<close>

lemma dispatcher_variables:
  "resolve_variable [[''tname'']] ''tname'' = Some 0"
  "resolve_variable [[''tname'', ''t0'', ''ok'', ''t1'']] ''ok'' = Some 1"
  "resolve_variable [[''tname'', ''t0'', ''ok'', ''t1'']] ''t1'' = Some 0"
  "resolve_variable [[''tname'', ''t0'', ''ok'', ''t1'']] ''t0'' = Some 2"
  by code_simp+

lemma free_name:
  "name \<noteq> ''tname'' \<Longrightarrow> name \<noteq> ''t0'' \<Longrightarrow> resolve_variable [[''tname'', ''t0'']] name = None"
  by (simp add: resolve_variable_def)

lemma says_case:
  assumes "name \<noteq> ''tname''" "name \<noteq> ''t0''" and rest: "says env [[''tname'']] ts otherwise ts'"
  shows "says env [[''tname'']] (concat (case_toks name) @ ts) (dispatch_case name otherwise) ts'"
proof -
  note v = dispatcher_variables
  let ?verdict = "Seq (Write (Integer 1) protocol_expr)
    (If (BinaryOp TEq (Borrow (DeBruijn 1)) (Integer 1)) (Integer 0) (Integer 1))"
  let ?run = "Trap (Seq (Apply (Identifier name) []) (Integer 1)) (Integer 0)"
  let ?toks = "\<lambda>n. concat (drop n (case_toks name)) @ ts"
  have toks: "?toks 3 = TLet # TIdentifier ''t1'' # TTimeNano # ?toks 4"
    "?toks 2 = TLet # TIdentifier ''ok'' # TTrap # TDot # TApply 0 # TIdentifier name # TInteger 1 # TInteger 0 # ?toks 3"
    "?toks 1 = TLet # TIdentifier ''t0'' # TTimeNano # ?toks 2"
    "concat (case_toks name) @ ts = TQuestion # TReg # TBorrow # TIdentifier ''tname'' # TString (''^'' @ name @ ''$'') # ?toks 1"
    by (simp_all add: case_toks_def)
  have "says env [[''tname'', ''t0'', ''ok'', ''t1'']] (?toks 4) ?verdict ts"
    unfolding case_toks_def protocol_expr_def by (simp del: One_nat_def, (rule sentences v)+)
  then have "says env [[''tname'', ''t0'', ''ok'']] (?toks 3) (Let ''t1'' TimeNano ?verdict) ts"
    unfolding toks by (rule says_let_here[OF says_leaves(3)]) simp
  then have "says env [[''tname'', ''t0'']] (?toks 2) (Let ''ok'' ?run (Let ''t1'' TimeNano ?verdict)) ts"
    unfolding toks(2) by (rule says_let_here[rotated]) (simp | (rule sentences free_name assms)+)+
  then have t0: "says env [[''tname'']] (?toks 1) (Let ''t0'' TimeNano (Let ''ok'' ?run (Let ''t1'' TimeNano ?verdict))) ts"
    unfolding toks(3) by (rule says_let_here[OF says_leaves(3)]) simp
  have "says env [[''tname'']] (TReg # TBorrow # TIdentifier ''tname'' # TString (''^'' @ name @ ''$'') # ?toks 1)
      (Reg (Borrow (DeBruijn 0)) (String (''^'' @ name @ ''$''))) (?toks 1)"
    by (rule sentences v)+
  from says_if[OF this t0 rest] show ?thesis unfolding toks dispatch_case_def .
qed

lemma says_unknown: "says env [[''tname'']] (unknown_toks @ ts) unknown_test ts"
  unfolding unknown_toks_def unknown_test_def by (simp, (rule sentences)+)

lemma says_cases:
  assumes "''tname'' \<notin> set names" "''t0'' \<notin> set names"
  shows "says env [[''tname'']] (concat (map (\<lambda>name. concat (case_toks name)) names) @ unknown_toks)
    (foldr dispatch_case names unknown_test) []"
  using assms
proof (induction names)
  case Nil
  then show ?case using says_unknown[of env "[]"] by simp
next
  case (Cons name names)
  then show ?case by (auto intro: says_case)
qed

lemma says_dispatcher:
  assumes "''tname'' \<notin> set names" "''t0'' \<notin> set names"
  shows "says env [] (dispatcher_toks names) (dispatcher names) []"
proof -
  let ?cases = "concat (map (\<lambda>name. concat (case_toks name)) names) @ unknown_toks"
  let ?body = "Let ''tname'' (Env (String ''LLM_TEST_NAME'')) (foldr dispatch_case names unknown_test)"
  have "says env [[]] (TEnv # TString ''LLM_TEST_NAME'' # ?cases) (Env (String ''LLM_TEST_NAME'')) ?cases"
    by (rule sentences)+
  from says_let_here[OF this says_cases[OF assms]]
  have body: "says env [[]] (TLet # TIdentifier ''tname'' # TEnv # TString ''LLM_TEST_NAME'' # ?cases) ?body []"
    by simp
  have "says env [] (TDefine # TIdentifier ''main'' # TLet # TIdentifier ''tname'' # TEnv # TString ''LLM_TEST_NAME'' # ?cases)
      (Define ''main'' [] ?body False) []"
  proof (rule says_arm)
    fix n paths "file" let ?ts = "TLet # TIdentifier ''tname'' # TEnv # TString ''LLM_TEST_NAME'' # ?cases"
    assume n: "length (TIdentifier ''main'' # ?ts) - length ([] :: token list) \<le> n"
    have "reads env paths file [[]] [] (pbind (on_scopes pop_scope) (\<lambda>_. preturn (Define ''main'' [] ?body False)))
        (Define ''main'' [] ?body False) [] []"
      using reads_scoped[of env paths "file" "[[]]" "[]" pop_scope "Define ''main'' [] ?body False"]
      by (simp add: pop_scope_def)
    then have "reads env paths file [[]] ?ts (pbind (parse_fuel env n)
        (\<lambda>b. pbind (on_scopes pop_scope) (\<lambda>_. preturn (Define ''main'' [] b False)))) (Define ''main'' [] ?body False) [] []"
      by (rule reads_says[OF body, rotated]) (use n in simp)
    moreover have "reads env paths file [[]] ?ts (parse_params env) [] [[]] ?ts"
      using reads_params[of "[]" ?ts env paths "file" "[[]]"] by (simp add: ends_params_def ends_fields_def)
    ultimately show "reads env paths file [] (TDefine # TIdentifier ''main'' # ?ts)
        (parse_arm env (parse_fuel env n) TDefine) (Define ''main'' [] ?body False) [] []"
      unfolding parse_arm_def token.case parse_define_def
      by (intro reads_after reads_bind[OF reads_consume_ident] reads_bind[OF reads_on_scopes])
         (simp add: push_scope_def reads_bind)
  qed simp
  then show ?thesis by (simp add: dispatcher_toks_def prelude_toks_def dispatcher_def)
qed


section \<open>The dispatcher is the intended program\<close>

lemma parse_source_says:
  assumes "scan (env_f64 env) src = Some ts" "says env [] ts e []"
  shows "parse_source env paths file src = Inr [e]"
proof -
  obtain p where p: "parser_new env (lexer_new src) file = Inr p" "ready env paths file [] ts (p\<lparr>px_import_paths := paths\<rparr>)"
    using parser_new_ready[OF assms(1)] by blast
  let ?p = "p\<lparr>px_import_paths := paths\<rparr>"
  have ts: "ts \<noteq> []" using says_shorter[OF assms(2)] by auto
  have "length ts \<le> Suc (tokens_left ?p)"
    using p(2) upcoming_length[of "env_f64 env" ?p ts] by (simp add: ready_def)
  with assms(2) have "reads env paths file [] ts (parse_fuel env (Suc (tokens_left ?p))) e [] []"
    unfolding says_def by (metis diff_zero list.size(3))
  with p(2) obtain p1 where p1: "parse_expr env ?p = Inr (e, p1)" "ready env paths file [] [] p1"
    unfolding reads_def parse_expr_def by blast
  have "px_token ?p \<noteq> TEOF" using ready_eof_iff[OF p(2)] ts by simp
  moreover have "px_generated p1 = []" "px_token p1 = TEOF"
    using p1(2) ready_eof_iff[OF p1(2)] by (auto simp: ready_def)
  moreover obtain n where "tokens_left ?p = Suc n"
    using p(2) upcoming_length[of "env_f64 env" ?p ts] ts by (cases "tokens_left ?p") (auto simp: ready_def)
  ultimately show ?thesis
    using p1(1) by (simp add: parse_source_def p(1) parse_module_def)
qed

text \<open>C35: the generated dispatcher is the program the harness means.  For every list of test names
  the source text is parsed as one \<open>main\<close> that compares the selected name with each of them,
  calls the function of that name inside a trap between two clock readings, and prints the
  verdict, the difference and the panic message; except for tests named like one of the
  dispatcher's own variables.\<close>

theorem dispatcher_parses:
  assumes "list_all name_ok names" "''tname'' \<notin> set names" "''t0'' \<notin> set names"
  shows "parse_dispatcher te names = Inr [dispatcher names]"
  using parse_source_says[OF scan_dispatcher[OF assms(1)] says_dispatcher[OF assms(2,3)]]
  by (simp add: parse_dispatcher_def or_fail_def)

lemma dispatcher_parses_witness:
  "parse_dispatcher demo_test_env [''test_a'', ''ok''] = Inr [dispatcher [''test_a'', ''ok'']]"
proof -
  have "list_all name_ok [''test_a'', ''ok'']" by code_simp
  from dispatcher_parses[OF this] show ?thesis by simp
qed

end
