(* ===== verification/Test_Command.thy ===== *)
theory Test_Command
  imports Testing Json
begin

text \<open>
  \<open>llmlang test\<close> (\<open>run_test_command\<close> in \<open>main.rs\<close>): its arguments, the files it runs, what
  it prints and its exit code.  How \<open>serde_json\<close> prints a value is a parameter.
\<close>

section \<open>Arguments\<close>

record test_options =
  to_path :: "string option"
  to_data_dir :: "string option"
  to_format :: string
  to_imports :: "string list"

definition default_test_options :: test_options where
  "default_test_options = \<lparr>to_path = None, to_data_dir = None, to_format = ''text'', to_imports = []\<rparr>"

text \<open>An option that takes the next argument: what is said when there is none, and what it does.\<close>

definition test_value_option :: "string \<Rightarrow> (string \<times> (string \<Rightarrow> test_options \<Rightarrow> test_options)) option" where
  "test_value_option a =
     (if a = ''--test-data-dir'' then Some (''--test-data-dir requires a value'', \<lambda>v o'. o'\<lparr>to_data_dir := Some v\<rparr>)
      else if a = ''--format'' then Some (''--format requires a value (text or json)'', \<lambda>v o'. o'\<lparr>to_format := v\<rparr>)
      else if a = ''-I'' then Some (''-I requires a path'', \<lambda>v o'. o'\<lparr>to_imports := to_imports o' @ [v]\<rparr>)
      else None)"

fun parse_test_args :: "string list \<Rightarrow> test_options \<Rightarrow> stop + test_options" where
  "parse_test_args [] o' = Inr o'"
| "parse_test_args (a # rest) o' =
     (case test_value_option a of
        Some (missing, set_value) \<Rightarrow>
          (case rest of [] \<Rightarrow> Inl (Failed missing) | v # rest' \<Rightarrow> parse_test_args rest' (set_value v o'))
      | None \<Rightarrow>
          if starts_with a ''--test-data-dir='' then parse_test_args rest (o'\<lparr>to_data_dir := Some (drop 16 a)\<rparr>)
          else if starts_with a ''--format='' then parse_test_args rest (o'\<lparr>to_format := drop 9 a\<rparr>)
          else if \<not> starts_with a ''-'' then parse_test_args rest (o'\<lparr>to_path := Some a\<rparr>)
          else Inl (Failed (''Unknown argument: '' @ a)))"

definition checked_path :: "test_options \<Rightarrow> stop + string" where
  "checked_path o' =
     (if to_format o' \<notin> {''text'', ''json''}
      then Inl (Failed (''Unknown format '' @ [apostrophe] @ to_format o' @ [apostrophe] @ '' (expected text or json)''))
      else (case to_path o' of None \<Rightarrow> Inl (Failed ''E998: No input file specified'') | Some path \<Rightarrow> Inr path))"

section \<open>Files\<close>

text \<open>
  \<open>tm_metadata\<close> says whether a path is a directory; \<open>tm_walk\<close> lists the entries below one.
\<close>

record command_env =
  tm_test :: test_env
  tm_metadata :: "string \<Rightarrow> string + bool"
  tm_walk :: "string \<Rightarrow> string list"
  tm_json :: "json \<Rightarrow> string"

definition test_files :: "command_env \<Rightarrow> string \<Rightarrow> stop + string list" where
  "test_files tm path =
     (case tm_metadata tm path of
        Inl e \<Rightarrow> Inl (Failed (''E999: Could not read '' @ path @ '': '' @ e))
      | Inr is_dir \<Rightarrow> Inr (if is_dir then sort (filter llm_file (tm_walk tm path)) else [path]))"

definition test_stop :: "test_failure \<Rightarrow> stop" where
  "test_stop f = (case f of Test_Error msg \<Rightarrow> Failed msg | Test_Panicked msg \<Rightarrow> Crashed msg)"

text \<open>The first file that cannot be tested ends the command.\<close>

fun run_files ::
  "test_env \<Rightarrow> nat \<Rightarrow> nat \<Rightarrow> string list \<Rightarrow> string option \<Rightarrow> string list \<Rightarrow> stop + test_report list" where
  "run_files te fuel n [] data_dir imports = Inr []"
| "run_files te fuel n (p # ps) data_dir imports =
     (case run_tests te fuel n p data_dir imports of
        Inl f \<Rightarrow> Inl (test_stop f)
      | Inr report \<Rightarrow>
          rbind (run_files te fuel (n + length (rp_results report)) ps data_dir imports)
            (\<lambda>reports. Inr (report # reports)))"

section \<open>What is printed\<close>

definition total_of :: "(test_report \<Rightarrow> nat) \<Rightarrow> test_report list \<Rightarrow> nat" where
  "total_of f reports = sum_list (map f reports)"

definition result_line :: "test_result \<Rightarrow> string" where
  "result_line r =
     (if tr_passed r
      then ''  PASS '' @ tr_name r @ '' ('' @ show_i64 (tr_duration r) @ '' ns)''
      else ''  FAIL '' @ tr_name r @ '' ('' @ show_i64 (tr_duration r) @ '' ns): '' @
        (case tr_panic r of Some msg \<Rightarrow> msg | None \<Rightarrow> ''test failed''))"

definition report_lines :: "test_report \<Rightarrow> string list" where
  "report_lines report =
     (if rp_total report = 0 then []
      else (''Running '' @ show_nat (rp_total report) @ '' tests from '' @ rp_file report) #
        map result_line (rp_results report))"

definition summary_line :: "test_report list \<Rightarrow> string" where
  "summary_line reports =
     (if total_of rp_total reports = 0 then ''0 tests found''
      else ''Summary: '' @ show_nat (total_of rp_passed reports) @ '' passed, '' @
        show_nat (total_of rp_failed reports) @ '' failed, '' @ show_nat (total_of rp_total reports) @ '' total'')"

definition result_json :: "test_result \<Rightarrow> json" where
  "result_json r = JObject (
     [(''name'', JString (tr_name r)), (''passed'', JBool (tr_passed r)), (''duration_ns'', JInt (sint (tr_duration r)))] @
     (case tr_panic r of Some msg \<Rightarrow> [(''panic_message'', JString msg)] | None \<Rightarrow> []) @
     [(''fingerprint'', JString (tr_fingerprint r))])"

definition report_json :: "test_report \<Rightarrow> json" where
  "report_json report = JObject [
     (''file'', JString (rp_file report)), (''total'', JInt (int (rp_total report))),
     (''passed'', JInt (int (rp_passed report))), (''failed'', JInt (int (rp_failed report))),
     (''results'', JArray (map result_json (rp_results report)))]"

definition summary_json :: "test_report list \<Rightarrow> json" where
  "summary_json reports = JObject [
     (''total'', JInt (int (total_of rp_total reports))), (''passed'', JInt (int (total_of rp_passed reports))),
     (''failed'', JInt (int (total_of rp_failed reports))), (''files'', JArray (map report_json reports))]"

definition printed :: "command_env \<Rightarrow> string \<Rightarrow> test_report list \<Rightarrow> string" where
  "printed tm format reports =
     (if format = ''json'' then text_lines [tm_json tm (summary_json reports)]
      else text_lines (concat (map report_lines reports) @ [summary_line reports]))"

definition exit_code :: "test_report list \<Rightarrow> nat" where
  "exit_code reports = (if total_of rp_failed reports > 0 then 1 else 0)"

definition run_test_command :: "command_env \<Rightarrow> nat \<Rightarrow> string list \<Rightarrow> stop + (string \<times> nat)" where
  "run_test_command tm fuel args =
     rbind (parse_test_args args default_test_options) (\<lambda>o'.
     rbind (checked_path o') (\<lambda>path.
     rbind (test_files tm path) (\<lambda>files.
     rbind (run_files (tm_test tm) fuel 0 files (to_data_dir o') (to_imports o')) (\<lambda>reports.
     Inr (printed tm (to_format o') reports, exit_code reports)))))"

text \<open>The command as a whole: \<open>test\<close> is the only subcommand.\<close>

datatype command_result = Tested string nat | Compiled "artifact list" | Stopped stop

definition run_llmlang :: "command_env \<Rightarrow> cli_env \<Rightarrow> nat \<Rightarrow> string list \<Rightarrow> command_result" where
  "run_llmlang tm env fuel args =
     (if length args \<ge> 2 \<and> args ! 1 = ''test''
      then (case run_test_command tm fuel (drop 2 args) of
              Inl s \<Rightarrow> Stopped s | Inr (output, code) \<Rightarrow> Tested output code)
      else (case run_compiler env fuel args of Inl s \<Rightarrow> Stopped s | Inr written \<Rightarrow> Compiled written))"

section \<open>The report counts every test once\<close>

definition counted :: "test_report \<Rightarrow> bool" where
  "counted r \<longleftrightarrow> rp_passed r = length (filter tr_passed (rp_results r)) \<and>
     rp_failed r = length (filter (\<lambda>t. \<not> tr_passed t) (rp_results r))"

definition report_ok :: "test_report \<Rightarrow> bool" where
  "report_ok r \<longleftrightarrow> counted r \<and> rp_total r = length (rp_results r)"

lemma run_single_name [simp]: "tr_name (run_single_test te n bin dir t) = dt_name t"
  by (auto simp: run_single_test_def no_result_def split: sum.split option.split)

lemma run_all_counted: "counted r \<Longrightarrow> counted (run_all te n bin dir tests r)"
  by (induction tests arbitrary: n r) (simp_all add: counted_def count_result_def)

lemma run_all_frame [simp]:
  "rp_total (run_all te n bin dir tests r) = rp_total r" "rp_file (run_all te n bin dir tests r) = rp_file r"
  "map tr_name (rp_results (run_all te n bin dir tests r)) = map tr_name (rp_results r) @ map dt_name tests"
  by (induction tests arbitrary: n r) (simp_all add: count_result_def)

lemma run_all_report:
  assumes "report = run_all te n bin dir tests (empty_report path tests)"
  shows "report_ok report" "map tr_name (rp_results report) = map dt_name tests" "rp_file report = path"
proof -
  show names: "map tr_name (rp_results report) = map dt_name tests" and "rp_file report = path"
    by (simp_all add: assms empty_report_def)
  have "counted report" unfolding assms by (rule run_all_counted) (simp add: counted_def empty_report_def)
  moreover have "rp_total report = length (rp_results report)"
    using names by (metis assms empty_report_def length_map run_all_frame(1) test_report.select_convs(2))
  ultimately show "report_ok report" by (simp add: report_ok_def)
qed

lemma run_tests_Inr:
  assumes "run_tests te fuel n path data_dir imports = Inr report"
  shows "\<exists>es tests production. parse_test_module te path imports = Inr es \<and>
    discover_tests (te_digests te) es = Inr (tests, production) \<and>
    report_ok report \<and> map tr_name (rp_results report) = map dt_name tests \<and> rp_file report = path"
proof -
  from assms obtain es tests production where p: "parse_test_module te path imports = Inr es"
    "discover_tests (te_digests te) es = Inr (tests, production)"
    by (auto simp: run_tests_def rbind_Inr_iff)
  have "\<exists>n bin dir. report = run_all te n bin dir tests (empty_report path tests)"
  proof (cases "tests = []")
    case True
    with assms p have "report = run_all te 0 [] [] tests (empty_report path tests)" by (simp add: run_tests_def)
    then show ?thesis by blast
  next
    case False
    with assms p obtain work_dir where "run_harness te fuel n path production tests imports
        (resolve_data_dir te data_dir) work_dir = Inr report"
      by (cases "harness_dir te") (simp_all add: run_tests_def)
    then obtain bin where "run_all te n bin (resolve_data_dir te data_dir) tests (empty_report path tests) = report"
      by (cases "compile_harness te fuel path production tests imports work_dir") (simp_all add: run_harness_def)
    then show ?thesis by (intro exI) (rule sym)
  qed
  then obtain n' bin dir where "report = run_all te n' bin dir tests (empty_report path tests)" by blast
  from run_all_report[OF this] p show ?thesis by (intro exI conjI)
qed

text \<open>What is discovered: the targets of \<open>M "test"\<close>, and all else is production code.\<close>

lemma discover_tests_Inr:
  "discover_tests dg es = Inr (tests, production) \<Longrightarrow>
     production = filter (\<lambda>e. test_target e = None) es \<and>
     map Inr tests = map (discovered dg) (List.map_filter test_target es)"
proof (induction es arbitrary: tests production)
  case (Cons e es)
  then show ?case
    by (cases "test_target e") (auto simp: rbind_Inr_iff)
qed simp

lemma discovered_Inr:
  "discovered dg inner = Inr t \<Longrightarrow> \<exists>name body exported. inner = Define name [] body exported \<and>
     t = \<lparr>dt_name = name, dt_fingerprint = fingerprint_of dg body, dt_define = inner\<rparr>"
  by (cases inner) (auto simp: discovered_def split: if_split_asm)

text \<open>The names of the definitions a module tags as tests.\<close>

definition tagged :: "expr list \<Rightarrow> string list" where
  "tagged es = map (\<lambda>e. case e of Define name params body exported \<Rightarrow> name | _ \<Rightarrow> [])
     (List.map_filter test_target es)"

lemma discovered_names:
  assumes "discover_tests dg es = Inr (tests, production)" shows "map dt_name tests = tagged es"
proof -
  have "map Inr tests = map (discovered dg) inners \<Longrightarrow>
      map dt_name tests = map (\<lambda>e. case e of Define name params body exported \<Rightarrow> name | _ \<Rightarrow> []) inners" for inners
    by (induction tests arbitrary: inners) (auto dest!: discovered_Inr[OF sym] simp: Cons_eq_map_conv)
  with discover_tests_Inr[OF assms] show ?thesis by (simp add: tagged_def)
qed

text \<open>C36: the test command reports the truth.  When it runs its files, every function tagged as
  a test has exactly one result, in the order of the source, the counts are those of the
  results, and the exit code is 0 exactly when every test of every file has passed.\<close>

theorem test_command_reports:
  assumes "run_files te fuel n files data_dir imports = Inr reports"
  shows "map rp_file reports = files \<and> list_all report_ok reports \<and>
    (\<forall>r \<in> set reports. \<exists>es. parse_test_module te (rp_file r) imports = Inr es \<and>
       map tr_name (rp_results r) = tagged es) \<and>
    (exit_code reports = 0 \<longleftrightarrow> (\<forall>r \<in> set reports. list_all tr_passed (rp_results r)))"
proof -
  have reports: "map rp_file reports = files \<and> (\<forall>r \<in> set reports. report_ok r \<and>
      (\<exists>es. parse_test_module te (rp_file r) imports = Inr es \<and> map tr_name (rp_results r) = tagged es))"
    using assms
  proof (induction files arbitrary: n reports)
    case (Cons p ps)
    then obtain r rs where r: "run_tests te fuel n p data_dir imports = Inr r" and rs: "reports = r # rs"
      "run_files te fuel (n + length (rp_results r)) ps data_dir imports = Inr rs"
      by (auto simp: rbind_Inr_iff split: sum.split_asm)
    from run_tests_Inr[OF r] have "report_ok r \<and> rp_file r = p \<and>
        (\<exists>es. parse_test_module te p imports = Inr es \<and> map tr_name (rp_results r) = tagged es)"
      using discovered_names by metis
    with Cons.IH[OF rs(2)] show ?case by (simp add: rs(1))
  qed simp
  then have "rp_failed r = 0 \<longleftrightarrow> list_all tr_passed (rp_results r)" if "r \<in> set reports" for r
    using that by (auto simp: report_ok_def counted_def filter_empty_conv list_all_iff)
  then have "exit_code reports = 0 \<longleftrightarrow> (\<forall>r \<in> set reports. list_all tr_passed (rp_results r))"
    by (simp add: exit_code_def total_of_def sum_list_eq_0_iff flip: neq0_conv)
  with reports show ?thesis by (auto simp: list_all_iff)
qed

lemma demo_files:
  "case run_files demo_test_env 0 0 [''m.llm''] None [] of
     Inl _ \<Rightarrow> False
   | Inr reports \<Rightarrow> map (map (\<lambda>t. (tr_name t, tr_passed t, tr_duration t, tr_panic t)) \<circ> rp_results) reports =
       [[(''test_a'', False, 120, Some ''no'')]]"
  by code_simp

lemma test_command_reports_witness:
  "\<exists>reports. run_files demo_test_env 0 0 [''m.llm''] None [] = Inr reports \<and> exit_code reports \<noteq> 0"
proof -
  obtain reports where r: "run_files demo_test_env 0 0 [''m.llm''] None [] = Inr reports"
    "map (map (\<lambda>t. (tr_name t, tr_passed t, tr_duration t, tr_panic t)) \<circ> rp_results) reports =
       [[(''test_a'', False, 120, Some ''no'')]]"
    using demo_files by (auto split: sum.split_asm)
  then obtain rep t where t: "rep \<in> set reports" "t \<in> set (rp_results rep)" "\<not> tr_passed t"
    by (auto simp: Cons_eq_map_conv map_eq_Cons_conv)
  with test_command_reports[OF r(1)] have "exit_code reports \<noteq> 0" by (auto simp: list_all_iff)
  with r(1) show ?thesis by blast
qed

end
