(* ===== verification/Mcp_Rpc.thy ===== *)
theory Mcp_Rpc
  imports Mcp_Server Test_Command
begin

text \<open>
  The methods of the MCP server (\<open>handle_method\<close>) on JSON values, with the tool that runs tests,
  and the two filters between it and the standard streams (\<open>main\<close>).  Parameters: reading and
  printing JSON, the derived deserialiser of \<open>Expr\<close>, the SDK's form of a text message, and the
  two documents the server includes.
\<close>

section \<open>Errors\<close>

datatype error_code = InvalidParams | InternalError | MethodNotFound

datatype rpc_error = Protocol error_code string | Rpc_Panicked string

definition show_resolve_error :: "resolve_error \<Rightarrow> string" where
  "show_resolve_error e =
     (case e of
        Not_Found name \<Rightarrow> ''Function not found: '' @ name
      | Not_In_File name p known \<Rightarrow>
          ''Function '' @ [apostrophe] @ name @ [apostrophe] @ '' is not defined in '' @ [apostrophe] @ p @
          [apostrophe] @ ''; known locations: '' @ debug_list known
      | Ambiguous name known \<Rightarrow>
          ''Function '' @ [apostrophe] @ name @ [apostrophe] @ '' is defined in multiple files: '' @
          debug_list known @ ''; pass '' @ [apostrophe] @ ''path'' @ [apostrophe] @ '' to disambiguate'')"

definition rpc_error_of :: "tool_error \<Rightarrow> rpc_error" where
  "rpc_error_of e =
     (case e of
        Invalid_Params msg \<Rightarrow> Protocol InvalidParams msg
      | Unresolved r \<Rightarrow> Protocol InvalidParams (show_resolve_error r)
      | Internal_Error msg \<Rightarrow> Protocol InternalError msg
      | Tool_Panicked msg \<Rightarrow> Rpc_Panicked msg)"

record rpc_env =
  re_mcp :: mcp_env
  re_test :: test_env
  re_fuel :: nat
  re_spec :: string
  re_guide :: string
  re_expr :: "json \<Rightarrow> string + expr"
  re_text :: "string \<Rightarrow> json"
  re_parse :: "string \<Rightarrow> json option"
  re_print :: "json \<Rightarrow> string"
  re_version :: string
  re_read_error :: "string \<Rightarrow> string"
  re_join_error :: "string \<Rightarrow> string"

section \<open>Resources\<close>

definition resources :: "(string \<times> string \<times> string) list" where
  "resources = [
     (''llm://spec'', ''llmlang Specification'',
      ''Token-by-token grammar, operator specification, memory safety rules, and canonical patterns''),
     (''llm://agent-workflow'', ''MCP Agent Workflow Guide'',
      ''MCP server capabilities, tools, and strategic workflows for codebase analysis'')]"

definition resource_json :: "string \<times> string \<times> string \<Rightarrow> json" where
  "resource_json r = (case r of (uri, name, description) \<Rightarrow>
     JObject [(''uri'', JString uri), (''name'', JString name), (''mimeType'', JString ''text/markdown''),
       (''description'', JString description)])"

definition resource_text :: "rpc_env \<Rightarrow> string \<Rightarrow> string option" where
  "resource_text re uri =
     (if uri = ''llm://spec'' then Some (re_spec re)
      else if uri = ''llm://fundamentals'' then Some (re_spec re)
      else if uri = ''llm://agent-workflow'' then Some (re_guide re)
      else None)"

definition read_resource :: "rpc_env \<Rightarrow> json option \<Rightarrow> rpc_error + json" where
  "read_resource re params =
     (case params of
        None \<Rightarrow> Inl (Protocol InvalidParams ''Missing params'')
      | Some params \<Rightarrow>
          (case get_str ''uri'' params of
             None \<Rightarrow> Inl (Protocol InvalidParams ''Missing uri'')
           | Some uri \<Rightarrow>
               (case resource_text re uri of
                  None \<Rightarrow> Inl (Protocol InvalidParams (''Unknown resource: '' @ uri))
                | Some content \<Rightarrow>
                    Inr (JObject [(''contents'', JArray [JObject [(''uri'', JString uri),
                      (''mimeType'', JString ''text/markdown''), (''text'', JString content)]])]))))"

section \<open>The list of tools\<close>

text \<open>An argument of a tool: its name, its type and a description.\<close>

type_synonym tool_argument = "string \<times> string \<times> string option"

definition tool_specs :: "(string \<times> string \<times> tool_argument list \<times> string list) list" where
  "tool_specs = [
     (''analyze_codebase'', ''Indexes all .llm files in the given path'',
      [(''path'', ''string'', Some ''Local path to the codebase'')], [''path'']),
     (''search_symbols'', ''Searches for functions or shapes by name'',
      [(''query'', ''string'', None)], [''query'']),
     (''get_definition'', ''Returns the AST and location of a function or shape'',
      [(''name'', ''string'', None)], [''name'']),
     (''get_diagnostics'', ''Runs parser and analysis on a file and returns errors'',
      [(''path'', ''string'', None)], [''path'']),
     (''find_callers'', ''Finds all functions that call the given symbol'',
      [(''symbol'', ''string'', None)], [''symbol'']),
     (''structural_search'', ''Finds functions with a similar AST structure'',
      [(''function_name'', ''string'', None)], [''function_name'']),
     (''run_symbol_tests'', ''Discovers functions tagged M '' @ quoted ''test'' @ '' in a .llm file, executes each in '' @
        ''an isolated sandboxed process, and returns structured JSON mapping test failures to the target symbol'' @
        [apostrophe] @ ''s AST fingerprint'',
      [(''path'', ''string'', Some ''Path to the .llm source file containing the tests''),
       (''test_data_dir'', ''string'',
        Some ''Base path for external mock data, injected as TEST_DATA_DIR (default ./tests/data)'')], [''path'']),
     (''patch_symbol'', ''Replaces a function'' @ [apostrophe] @ ''s body AST and rewrites the source file'',
      [(''function_name'', ''string'', Some ''The name of the function to patch''),
       (''new_body_ast'', ''object'',
        Some ''The new AST structure for the function body (JSON format matching Expr struct)''),
       (''path'', ''string'',
        Some ''Source file defining the function; required when the name is defined in more than one indexed file'')],
      [''function_name'', ''new_body_ast''])]"

definition argument_json :: "tool_argument \<Rightarrow> string \<times> json" where
  "argument_json a = (case a of (name, type, description) \<Rightarrow>
     (name, JObject ((''type'', JString type) #
       (case description of Some d \<Rightarrow> [(''description'', JString d)] | None \<Rightarrow> []))))"

definition tool_json :: "string \<times> string \<times> tool_argument list \<times> string list \<Rightarrow> json" where
  "tool_json t = (case t of (name, description, arguments, required) \<Rightarrow>
     JObject [(''name'', JString name), (''description'', JString description),
       (''input_schema'', JObject [(''type'', JString ''object''),
          (''properties'', JObject (map argument_json arguments)), (''required'', json_strings required)])])"

section \<open>Calls\<close>

datatype tool_call = Index_Call request | Run_Symbol_Tests string "string option"

definition missing :: "string \<Rightarrow> rpc_error" where
  "missing what = Protocol InvalidParams (''Missing '' @ what)"

definition needed_str :: "string \<Rightarrow> json \<Rightarrow> rpc_error + string" where
  "needed_str key args = (case get_str key args of Some s \<Rightarrow> Inr s | None \<Rightarrow> Inl (missing key))"

definition with_str :: "string \<Rightarrow> json \<Rightarrow> (string \<Rightarrow> request) \<Rightarrow> rpc_error + tool_call" where
  "with_str key args C = rbind (needed_str key args) (\<lambda>s. Inr (Index_Call (C s)))"

definition decode_call :: "rpc_env \<Rightarrow> string \<Rightarrow> json \<Rightarrow> rpc_error + tool_call" where
  "decode_call re name args =
     (if name = ''analyze_codebase'' then with_str ''path'' args Analyze_Codebase
      else if name = ''search_symbols'' then with_str ''query'' args Search_Symbols
      else if name = ''get_definition'' then with_str ''name'' args Get_Definition
      else if name = ''get_diagnostics'' then with_str ''path'' args Get_Diagnostics
      else if name = ''find_callers'' then with_str ''symbol'' args Find_Callers
      else if name = ''structural_search'' then with_str ''function_name'' args Structural_Search
      else if name = ''run_symbol_tests''
      then rbind (needed_str ''path'' args) (\<lambda>path. Inr (Run_Symbol_Tests path (get_str ''test_data_dir'' args)))
      else if name = ''patch_symbol''
      then rbind (needed_str ''function_name'' args) (\<lambda>function_name.
        (case json_get ''new_body_ast'' args of
           None \<Rightarrow> Inl (missing ''new_body_ast'')
         | Some v \<Rightarrow>
             (case re_expr re v of
                Inl e \<Rightarrow> Inl (Protocol InvalidParams (''Invalid AST: '' @ e))
              | Inr new_body \<Rightarrow> Inr (Index_Call (Patch_Symbol function_name new_body (get_str ''path'' args))))))
      else Inl (Protocol MethodNotFound (''Tool '' @ name @ '' not found'')))"

section \<open>Running tests\<close>

text \<open>Later failures with the fingerprint of an earlier one replace it.\<close>

definition failure_json :: "test_result \<Rightarrow> json" where
  "failure_json r = JObject [(''symbol'', JString (tr_name r)),
     (''panic_message'', case tr_panic r of Some msg \<Rightarrow> JString msg | None \<Rightarrow> JNull)]"

definition failures :: "test_result list \<Rightarrow> (string \<times> json) list" where
  "failures results =
     fold (\<lambda>r. AList.update (tr_fingerprint r) (failure_json r)) (filter (\<lambda>r. \<not> tr_passed r) results) []"

definition tests_json :: "test_report \<Rightarrow> json" where
  "tests_json report = JObject [
     (''file'', JString (rp_file report)), (''total'', JInt (int (rp_total report))),
     (''passed'', JInt (int (rp_passed report))), (''failed'', JInt (int (rp_failed report))),
     (''results'', JArray (map result_json (rp_results report))), (''failures'', JObject (failures (rp_results report)))]"

text \<open>The test engine reads the files of the server.\<close>

definition server_tests :: "rpc_env \<Rightarrow> server \<Rightarrow> test_env" where
  "server_tests re sv = (re_test re)\<lparr>te_read :=
     (\<lambda>p. case sv_files sv p of Some content \<Rightarrow> Inr content | None \<Rightarrow> Inl (re_read_error re p))\<rparr>"

definition run_symbol_tests ::
  "rpc_env \<Rightarrow> nat \<Rightarrow> string \<Rightarrow> string option \<Rightarrow> server \<Rightarrow> rpc_error + string" where
  "run_symbol_tests re n path test_data_dir sv =
     (case run_tests (server_tests re sv) (re_fuel re) n path test_data_dir [] of
        Inl (Test_Error msg) \<Rightarrow> Inl (Protocol InternalError msg)
      | Inl (Test_Panicked msg) \<Rightarrow> Inl (Protocol InternalError (re_join_error re msg))
      | Inr report \<Rightarrow> Inr (re_print re (tests_json report)))"

section \<open>Methods\<close>

definition run_call ::
  "rpc_env \<Rightarrow> nat \<Rightarrow> tool_call \<Rightarrow> server \<Rightarrow> (rpc_error + string) \<times> server" where
  "run_call re n c sv =
     (case c of
        Index_Call req \<Rightarrow>
          (case handle_tool (re_mcp re) req sv of
             (Inl e, sv') \<Rightarrow> (Inl (rpc_error_of e), sv')
           | (Inr reply, sv') \<Rightarrow> (Inr reply, sv'))
      | Run_Symbol_Tests path test_data_dir \<Rightarrow> (run_symbol_tests re n path test_data_dir sv, sv))"

definition call_tool ::
  "rpc_env \<Rightarrow> nat \<Rightarrow> json option \<Rightarrow> server \<Rightarrow> (rpc_error + json) \<times> server" where
  "call_tool re n params sv =
     (case params of
        None \<Rightarrow> (Inl (missing ''params''), sv)
      | Some params \<Rightarrow>
          (case get_str ''name'' params of
             None \<Rightarrow> (Inl (missing ''tool name''), sv)
           | Some name \<Rightarrow>
               (case json_get ''arguments'' params of
                  None \<Rightarrow> (Inl (missing ''arguments''), sv)
                | Some args \<Rightarrow>
                    (case decode_call re name args of
                       Inl e \<Rightarrow> (Inl e, sv)
                     | Inr c \<Rightarrow>
                         (case run_call re n c sv of
                            (Inl e, sv') \<Rightarrow> (Inl e, sv')
                          | (Inr reply, sv') \<Rightarrow> (Inr (JObject [(''content'', JArray [re_text re reply])]), sv'))))))"

definition handle_method ::
  "rpc_env \<Rightarrow> nat \<Rightarrow> string \<Rightarrow> json option \<Rightarrow> server \<Rightarrow> (rpc_error + json) \<times> server" where
  "handle_method re n name params sv =
     (if name = ''resources/list'' then (Inr (JObject [(''resources'', JArray (map resource_json resources))]), sv)
      else if name = ''resources/read'' then (read_resource re params, sv)
      else if name = ''tools/list'' then (Inr (JObject [(''tools'', JArray (map tool_json tool_specs))]), sv)
      else if name = ''tools/call'' then call_tool re n params sv
      else (Inl (Protocol MethodNotFound (''Method '' @ name @ '' not found'')), sv))"

section \<open>The filters on the standard streams\<close>

text \<open>
  What the two tasks of \<open>main\<close> do with one line, and with \<open>init_id\<close>, the id of an
  \<open>initialize\<close> request that is not answered yet.
\<close>

text \<open>\<open>v[key] = x\<close> and \<open>Map::insert\<close> on an object.\<close>

definition json_set :: "string \<Rightarrow> json \<Rightarrow> json \<Rightarrow> json" where
  "json_set key x v = (case v of JObject kvs \<Rightarrow> JObject (AList.update key x kvs) | _ \<Rightarrow> v)"

lemma json_get_set:
  "json_get key v \<noteq> None \<Longrightarrow> json_get k (json_set key x v) = (if k = key then Some x else json_get k v)"
  by (cases v) (simp_all add: json_get_def json_set_def update_conv')

definition rename_client_info :: "json \<Rightarrow> json option" where
  "rename_client_info v =
     (case json_get ''params'' v of
        Some (JObject ps) \<Rightarrow>
          map_option (\<lambda>client_info. json_set ''params''
              (JObject (AList.update ''implementation'' client_info (AList.delete ''clientInfo'' ps))) v)
            (map_of ps ''clientInfo'')
      | _ \<Rightarrow> None)"

definition read_line :: "rpc_env \<Rightarrow> json option \<Rightarrow> string \<Rightarrow> string \<times> json option" where
  "read_line re init_id line =
     (case re_parse re line of
        None \<Rightarrow> (line, init_id)
      | Some v \<Rightarrow>
          (case get_str ''method'' v of
             None \<Rightarrow> (line, init_id)
           | Some name \<Rightarrow>
               if name = ''initialize''
               then ((case rename_client_info v of Some v' \<Rightarrow> re_print re v' | None \<Rightarrow> line),
                     (case json_get ''id'' v of Some i \<Rightarrow> Some i | None \<Rightarrow> init_id))
               else if name = ''notifications/initialized''
               then (re_print re (json_set ''method'' (JString ''initialized'') v), init_id)
               else (line, init_id)))"

definition initialize_result :: "rpc_env \<Rightarrow> json \<Rightarrow> json" where
  "initialize_result re caps =
     JObject [(''protocolVersion'', JString ''2024-11-05''), (''capabilities'', caps),
       (''serverInfo'', JObject [(''name'', JString ''llm-mcp''), (''version'', JString (re_version re))])]"

definition initialize_reply :: "rpc_env \<Rightarrow> string \<Rightarrow> json \<Rightarrow> string" where
  "initialize_reply re line v =
     (case json_get ''result'' v of
        Some caps \<Rightarrow> re_print re (json_set ''result'' (initialize_result re caps) v)
      | None \<Rightarrow> line)"

definition write_line :: "rpc_env \<Rightarrow> json option \<Rightarrow> string \<Rightarrow> string \<times> json option" where
  "write_line re init_id line =
     (case re_parse re line of
        None \<Rightarrow> (line, init_id)
      | Some v \<Rightarrow>
          (case json_get ''id'' v of
             None \<Rightarrow> (line, init_id)
           | Some i \<Rightarrow> if Some i = init_id then (initialize_reply re line v, None) else (line, init_id)))"

text \<open>The lines that reach the server and the ones that leave the process, in any interleaving.\<close>

datatype stream_event = From_Client string | From_Server string

fun run_streams :: "rpc_env \<Rightarrow> json option \<Rightarrow> stream_event list \<Rightarrow> stream_event list \<times> json option" where
  "run_streams re init_id [] = ([], init_id)"
| "run_streams re init_id (From_Client l # es) =
     (case read_line re init_id l of (l', i) \<Rightarrow> apfst ((#) (From_Client l')) (run_streams re i es))"
| "run_streams re init_id (From_Server l # es) =
     (case write_line re init_id l of (l', i) \<Rightarrow> apfst ((#) (From_Server l')) (run_streams re i es))"

section \<open>Failures by fingerprint\<close>

text \<open>
  Fingerprints do not depend on names, so tests of the same shape share one: the object that
  maps failures to fingerprints keeps the last of them only.
\<close>

theorem failures_keep_last:
  "map_of (failures results) fp =
     (let fs = filter (\<lambda>r. \<not> tr_passed r \<and> tr_fingerprint r = fp) results in
      if fs = [] then None else Some (failure_json (last fs)))"
  unfolding failures_def
proof (induction results rule: rev_induct)
  case (snoc r rs)
  then show ?case by (auto simp: update_conv' Let_def)
qed simp

section \<open>The tools are the listed ones\<close>

definition listed_tools :: "json \<Rightarrow> string list" where
  "listed_tools reply =
     (case json_get ''tools'' reply of Some (JArray ts) \<Rightarrow> List.map_filter (get_str ''name'') ts | _ \<Rightarrow> [])"

lemma listed_names:
  "fst (handle_method re n ''tools/list'' params sv) = Inr reply \<Longrightarrow> listed_tools reply = map fst tool_specs"
  by (auto simp: handle_method_def listed_tools_def json_get_def tool_json_def get_str_def as_str_def tool_specs_def)

lemma tool_names:
  "map fst tool_specs = [''analyze_codebase'', ''search_symbols'', ''get_definition'', ''get_diagnostics'',
     ''find_callers'', ''structural_search'', ''run_symbol_tests'', ''patch_symbol'']"
  by (simp add: tool_specs_def)

lemma decode_unknown: "t \<notin> set (map fst tool_specs) \<Longrightarrow>
    decode_call re t args = Inl (Protocol MethodNotFound (''Tool '' @ t @ '' not found''))"
  unfolding tool_names by (simp add: decode_call_def)

lemma decode_known: "t \<in> set (map fst tool_specs) \<Longrightarrow> decode_call re t args \<noteq> Inl (Protocol MethodNotFound msg)"
  unfolding tool_names list.set
  by (elim insertE emptyE)
     (simp_all add: decode_call_def with_str_def needed_str_def missing_def rbind_Inl_iff split: option.split sum.split)

lemma run_call_known: "fst (run_call re n c sv) \<noteq> Inl (Protocol MethodNotFound msg)"
  by (auto simp: run_call_def run_symbol_tests_def rpc_error_of_def
      split: tool_call.split prod.split sum.split tool_error.split test_failure.split)

lemma required_arguments:
  "map (\<lambda>(name, description, arguments, required). (name, required)) tool_specs =
     [(''analyze_codebase'', [''path'']), (''search_symbols'', [''query'']), (''get_definition'', [''name'']),
      (''get_diagnostics'', [''path'']), (''find_callers'', [''symbol'']), (''structural_search'', [''function_name'']),
      (''run_symbol_tests'', [''path'']), (''patch_symbol'', [''function_name'', ''new_body_ast''])]"
  by (simp add: tool_specs_def)

lemma needed_missing: "json_get key args = None \<Longrightarrow> needed_str key args = Inl (missing key)"
  by (simp add: needed_str_def get_str_def)

lemma decode_patch_missing:
  assumes "r \<in> {''function_name'', ''new_body_ast''}" "json_get r args = None"
  shows "\<exists>r' \<in> {''function_name'', ''new_body_ast''}. decode_call re ''patch_symbol'' args = Inl (missing r')"
proof (cases "get_str ''function_name'' args")
  case None
  then show ?thesis by (simp add: decode_call_def needed_str_def)
next
  case (Some f)
  with assms have "json_get ''new_body_ast'' args = None" by (auto simp: get_str_def)
  with Some show ?thesis by (simp add: decode_call_def needed_str_def)
qed

lemma decode_missing:
  assumes "(t, description, arguments, required) \<in> set tool_specs" "r \<in> set required" "json_get r args = None"
  shows "\<exists>r' \<in> set required. decode_call re t args = Inl (missing r')"
proof -
  have "(t, required) \<in> set (map (\<lambda>(name, description, arguments, required). (name, required)) tool_specs)"
    using assms(1) by force
  then have "(t, required) \<in> {(''analyze_codebase'', [''path'']), (''search_symbols'', [''query'']),
      (''get_definition'', [''name'']), (''get_diagnostics'', [''path'']), (''find_callers'', [''symbol'']),
      (''structural_search'', [''function_name'']), (''run_symbol_tests'', [''path''])} \<or>
      (t, required) = (''patch_symbol'', [''function_name'', ''new_body_ast''])"
    unfolding required_arguments list.set by fast
  then show ?thesis
  proof
    assume "(t, required) = (''patch_symbol'', [''function_name'', ''new_body_ast''])"
    with decode_patch_missing[of r args] assms(2,3) show ?thesis by (simp only: prod.inject list.set)
  qed (use assms(2,3) in \<open>elim insertE emptyE; simp add: decode_call_def with_str_def needed_missing\<close>)
qed

text \<open>C37: the tools that can be called are the listed ones, with the arguments that are listed as
  required.  \<open>tools/call\<close> finds exactly the tools that \<open>tools/list\<close> names, and a call without a
  required argument is refused for a missing argument before anything is read or written.\<close>

theorem tools_match_list:
  assumes "fst (handle_method re n ''tools/list'' list_params sv) = Inr reply"
    and "get_str ''name'' params = Some t" "json_get ''arguments'' params = Some args"
  shows "(t \<in> set (listed_tools reply) \<longleftrightarrow>
      (\<forall>msg. fst (handle_method re n ''tools/call'' (Some params) sv) \<noteq> Inl (Protocol MethodNotFound msg))) \<and>
    (\<forall>(name, description, arguments, required) \<in> set tool_specs.
       name = t \<longrightarrow> (\<exists>r \<in> set required. json_get r args = None) \<longrightarrow>
       (\<exists>r \<in> set required. handle_method re n ''tools/call'' (Some params) sv = (Inl (missing r), sv)))"
proof -
  have call: "handle_method re n ''tools/call'' (Some params) sv =
      (case decode_call re t args of
         Inl e \<Rightarrow> (Inl e, sv)
       | Inr c \<Rightarrow>
           (case run_call re n c sv of
              (Inl e, sv') \<Rightarrow> (Inl e, sv')
            | (Inr reply, sv') \<Rightarrow> (Inr (JObject [(''content'', JArray [re_text re reply])]), sv')))"
    by (simp add: handle_method_def call_tool_def assms(2,3))
  have "t \<in> set (map fst tool_specs) \<longleftrightarrow>
      (\<forall>msg. fst (handle_method re n ''tools/call'' (Some params) sv) \<noteq> Inl (Protocol MethodNotFound msg))"
  proof (cases "t \<in> set (map fst tool_specs)")
    case True
    with decode_known[of t re args] run_call_known[of re n _ sv] show ?thesis
      unfolding call by (auto split: sum.split prod.split) (metis fst_conv)
  next
    case False
    then show ?thesis unfolding call decode_unknown[OF False] by simp
  qed
  moreover have "\<exists>r \<in> set required. handle_method re n ''tools/call'' (Some params) sv = (Inl (missing r), sv)"
    if "(t, description, arguments, required) \<in> set tool_specs" "\<exists>r \<in> set required. json_get r args = None"
    for description arguments required
  proof -
    from that decode_missing obtain r where "r \<in> set required" "decode_call re t args = Inl (missing r)" by blast
    then show ?thesis unfolding call by (intro bexI) simp_all
  qed
  ultimately show ?thesis unfolding listed_names[OF assms(1)] by blast
qed

definition demo_rpc :: rpc_env where
  "demo_rpc = \<lparr>re_mcp = demo_mcp, re_test = demo_test_env, re_fuel = 0, re_spec = ''spec'', re_guide = ''guide'',
     re_expr = (\<lambda>v. Inl ''no AST''), re_text = JString,
     re_parse = (\<lambda>l. if l = ''request'' then Some (JObject [(''method'', JString ''initialize''), (''id'', JInt 1)])
        else if l = ''answer'' then Some (JObject [(''id'', JInt 1), (''result'', JObject [])])
        else if l = ''other'' then Some (JObject [(''id'', JInt 2), (''result'', JNull)])
        else None),
     re_print = (\<lambda>v. if json_get ''result'' v = None then ''request'' else ''initialized''), re_version = ''0.5.0'',
     re_read_error = (\<lambda>p. p), re_join_error = (\<lambda>m. m)\<rparr>"

lemma tools_match_list_witness:
  "handle_method demo_rpc 0 ''tools/call''
     (Some (JObject [(''name'', JString ''find_callers''), (''arguments'', JObject [])])) demo_server =
   (Inl (missing ''symbol''), demo_server)"
proof -
  let ?params = "JObject [(''name'', JString ''find_callers''), (''arguments'', JObject [])]"
  have list: "fst (handle_method demo_rpc 0 ''tools/list'' None demo_server) =
      Inr (JObject [(''tools'', JArray (map tool_json tool_specs))])"
    by (simp add: handle_method_def)
  have "get_str ''name'' ?params = Some ''find_callers''" "json_get ''arguments'' ?params = Some (JObject [])"
    by (simp_all add: get_str_def json_get_def as_str_def)
  note listed = tools_match_list[OF list this, THEN conjunct2]
  have "(''find_callers'', ''Finds all functions that call the given symbol'',
      [(''symbol'', ''string'', None)], [''symbol'']) \<in> set tool_specs"
    by (simp add: tool_specs_def)
  from bspec[OF listed this] have "\<exists>r \<in> set [''symbol'']. handle_method demo_rpc 0 ''tools/call'' (Some ?params) demo_server =
      (Inl (missing r), demo_server)"
    by (simp add: json_get_def)
  then show ?thesis by simp
qed

section \<open>The initialize request is answered once\<close>

definition initializes :: "rpc_env \<Rightarrow> string \<Rightarrow> bool" where
  "initializes re line =
     (case re_parse re line of Some v \<Rightarrow> get_str ''method'' v = Some ''initialize'' | None \<Rightarrow> False)"

definition answers :: "rpc_env \<Rightarrow> json option \<Rightarrow> string \<Rightarrow> bool" where
  "answers re init_id line =
     (case re_parse re line of Some v \<Rightarrow> json_get ''id'' v \<noteq> None \<and> json_get ''id'' v = init_id | None \<Rightarrow> False)"

text \<open>Neither a request to initialize nor the answer to one.\<close>

definition ordinary :: "rpc_env \<Rightarrow> json option \<Rightarrow> stream_event \<Rightarrow> bool" where
  "ordinary re init_id e =
     (case e of From_Client l \<Rightarrow> \<not> initializes re l | From_Server l \<Rightarrow> \<not> answers re init_id l)"

fun server_lines :: "stream_event list \<Rightarrow> string list" where
  "server_lines [] = []"
| "server_lines (From_Client l # es) = server_lines es"
| "server_lines (From_Server l # es) = l # server_lines es"

lemma server_lines_append [simp]: "server_lines (es @ es') = server_lines es @ server_lines es'"
  by (induction es rule: server_lines.induct) simp_all

lemma run_streams_append:
  "run_streams re i (es @ es') =
     (case run_streams re i es of (out, i1) \<Rightarrow> apfst ((@) out) (run_streams re i1 es'))"
proof (induction es arbitrary: i)
  case Nil
  then show ?case by (cases "run_streams re i es'") simp
next
  case (Cons e es)
  then show ?case by (cases e) (simp_all add: case_prod_unfold apfst_def map_prod_def)
qed

lemma ordinary_read: "\<not> initializes re l \<Longrightarrow> snd (read_line re i l) = i"
  by (auto simp: read_line_def initializes_def split: option.split)

lemma ordinary_write: "\<not> answers re i l \<Longrightarrow> write_line re i l = (l, i)"
  by (auto simp: write_line_def answers_def split: option.split)

lemma run_ordinary:
  "list_all (ordinary re i) es \<Longrightarrow>
     snd (run_streams re i es) = i \<and> server_lines (fst (run_streams re i es)) = server_lines es"
proof (induction es)
  case (Cons e es)
  then show ?case
    by (cases e) (auto simp: ordinary_def case_prod_unfold ordinary_read ordinary_write)
qed simp

text \<open>C38: the handshake.  However requests and replies are interleaved, the first reply with the id
  of the \<open>initialize\<close> request is the only line from the server that is changed: its result is
  wrapped as the protocol wants it.\<close>

theorem initialize_answered_once:
  assumes "re_parse re request = Some v" "get_str ''method'' v = Some ''initialize''" "json_get ''id'' v = Some i"
    and "re_parse re answer = Some w" "json_get ''id'' w = Some i" "json_get ''result'' w = Some caps"
    and "list_all (ordinary re (Some i)) before" "list_all (ordinary re None) after"
  shows "case run_streams re init_id (From_Client request # before @ From_Server answer # after) of
     (out, init_id') \<Rightarrow>
       server_lines out = server_lines before @
         [re_print re (json_set ''result'' (initialize_result re caps) w)] @ server_lines after \<and>
       init_id' = None"
proof -
  obtain l' where "read_line re init_id request = (l', Some i)"
    using assms(1-3) by (auto simp: read_line_def)
  moreover have "write_line re (Some i) answer = (re_print re (json_set ''result'' (initialize_result re caps) w), None)"
    using assms(4-6) by (simp add: write_line_def initialize_reply_def)
  ultimately show ?thesis
    using run_ordinary[OF assms(7)] run_ordinary[OF assms(8)]
    by (simp add: run_streams_append case_prod_unfold)
qed

lemma initialize_answered_once_witness:
  "server_lines (fst (run_streams demo_rpc None
     [From_Client ''request'', From_Server ''other'', From_Client ''x'', From_Server ''answer'', From_Server ''answer''])) =
   [''other'', ''initialized'', ''answer'']"
proof -
  let ?v = "JObject [(''method'', JString ''initialize''), (''id'', JInt 1)]"
  let ?w = "JObject [(''id'', JInt 1), (''result'', JObject [])]"
  have p: "re_parse demo_rpc ''request'' = Some ?v" "re_parse demo_rpc ''answer'' = Some ?w"
    by (simp_all add: demo_rpc_def)
  have v: "get_str ''method'' ?v = Some ''initialize''" "json_get ''id'' ?v = Some (JInt 1)"
    "json_get ''id'' ?w = Some (JInt 1)" "json_get ''result'' ?w = Some (JObject [])"
    by (simp_all add: get_str_def json_get_def as_str_def)
  have "list_all (ordinary demo_rpc (Some (JInt 1))) [From_Server ''other'', From_Client ''x'']"
    "list_all (ordinary demo_rpc None) [From_Server ''answer'']"
    by code_simp+
  from initialize_answered_once[OF p(1) v(1,2) p(2) v(3,4) this, of None]
  show ?thesis
    by (simp add: case_prod_unfold) (simp add: demo_rpc_def json_get_def json_set_def)
qed

end
