(* ===== verification/Kinds.thy ===== *)
theory Kinds
  imports Codegen
begin

text \<open>
  A type discipline for the source language, which has none.  Values are integers (among them the
  addresses of strings and instances), floating-point numbers and functions; \<open>kind_of\<close> gives the
  kind of an expression, when it has one.  The instructions of the builder are well typed when
  LLVM accepts their operands.  \<open>Gen_Types\<close> proves that the generator takes one to the other.
\<close>

section \<open>Well-typed instructions\<close>

definition float_arith :: "arith \<Rightarrow> bool" where
  "float_arith op \<longleftrightarrow> op \<in> {FAdd, FSub, FMul, FDiv}"

definition float_predicate :: "predicate \<Rightarrow> bool" where
  "float_predicate p \<longleftrightarrow> p \<in> {FEq, FLt, FGt}"

definition both :: "bool \<Rightarrow> val \<Rightarrow> val \<Rightarrow> bool" where
  "both float a b \<longleftrightarrow> (let t = (if float then F64 else I64) in ty_of a = t \<and> ty_of b = t)"

text \<open>
  What LLVM's verifier asks of the operands.  All functions of a module take and return \<open>i64\<close>;
  the functions of tasks and traps take a pointer, but are called by the runtime only.
\<close>

primrec inst_ok :: "inst \<Rightarrow> bool" where
  "inst_ok (Arith op a b) = both (float_arith op) a b"
| "inst_ok (Cmp p a b) = both (float_predicate p) a b"
| "inst_ok (ZExt a) = (ty_of a = I1)"
| "inst_ok (SIToFP a) = (ty_of a = I64)"
| "inst_ok (FPToSI a) = (ty_of a = F64)"
| "inst_ok (PtrToInt a) = (ty_of a = Ptr)"
| "inst_ok (IntToPtr a) = (ty_of a = I64)"
| "inst_ok (Gep t p i) = (ty_of p = Ptr \<and> ty_of i = I64)"
| "inst_ok (Load t p al) = (ty_of p = Ptr)"
| "inst_ok (Store v p al) = (ty_of p = Ptr)"
| "inst_ok (Call f args tail) = list_all (\<lambda>a. ty_of a = I64) args"
| "inst_ok Alloca = True"
| "inst_ok (ArrayAlloca n) = (ty_of n = I64)"
| "inst_ok (Phi ins) = (ins \<noteq> [] \<and> list_all (\<lambda>(v, b). ty_of v = ty_of (fst (hd ins))) ins)"
| "inst_ok (Br b) = True"
| "inst_ok (CondBr c t f) = (ty_of c = I1)"
| "inst_ok (Ret v) = (ty_of v = I64)"

definition block_ok :: "block \<Rightarrow> bool" where
  "block_ok b = list_all (\<lambda>(n, i). inst_ok i) (bk_insts b)"

section \<open>The discipline\<close>

datatype kind = KInt | KFloat | KFun

primrec llvm_ty :: "kind \<Rightarrow> ty" where
  "llvm_ty KInt = I64" | "llvm_ty KFloat = F64" | "llvm_ty KFun = Ptr"

text \<open>
  What has to be known of the module: the complexity above which pure operands become tasks of
  their own, whether it has shapes with columns of doubles, and whether it has templates.
\<close>

record module_facts =
  mf_threshold :: nat
  mf_columns :: bool
  mf_templates :: bool

definition var_kind :: "kind list \<Rightarrow> usize \<Rightarrow> kind" where
  "var_kind G i = (if i < length G then G ! slot G i else KInt)"

definition only_ints :: "kind list \<Rightarrow> bool" where
  "only_ints G = list_all (\<lambda>t. t = KInt) G"

definition field_kind :: "string \<Rightarrow> kind" where
  "field_kind name = (if name = ''f64'' then KFloat else KInt)"

definition op_kind :: "token \<Rightarrow> kind \<Rightarrow> kind \<Rightarrow> kind" where
  "op_kind op a b =
     (if op \<in> {TEq, TLt, TGt} then KInt else if a = KFloat \<or> b = KFloat then KFloat else KInt)"

text \<open>
  A task returns an integer, and the variables it captures arrive as integers.  The name of the
  allocation function of the runtime must not be that of a function of the program.
\<close>

definition task_ok :: "module_facts \<Rightarrow> kind list \<Rightarrow> expr \<Rightarrow> kind \<Rightarrow> bool" where
  "task_ok F G e t = (is_pure e \<and> complexity e > mf_threshold F \<longrightarrow> t = KInt \<and> only_ints G)"

definition callable :: "expr \<Rightarrow> bool" where
  "callable func = (case func of Identifier name \<Rightarrow> name \<notin> {''alloc'', ''llm_alloc''} | _ \<Rightarrow> True)"

definition is_named :: "expr \<Rightarrow> bool" where
  "is_named func = (case func of Identifier name \<Rightarrow> True | _ \<Rightarrow> False)"

definition guarded :: "bool \<Rightarrow> 'a \<Rightarrow> 'a option" where
  "guarded c x = (if c then Some x else None)"

lemma guarded_Some [simp]: "guarded c x = Some y \<longleftrightarrow> c \<and> x = y"
  by (simp add: guarded_def)

text \<open>Expressions without a rule of their own take integers and give an integer.\<close>

function kind_of :: "module_facts \<Rightarrow> kind list \<Rightarrow> expr \<Rightarrow> kind option" where
  "kind_of F G e =
     (case e of
        Float x \<Rightarrow> Some KFloat
      | Identifier name \<Rightarrow> Some KFun
      | DeBruijn i \<Rightarrow> Some (var_kind G i)
      | Expand name \<Rightarrow> guarded (only_ints G) KInt
      | Move a \<Rightarrow> kind_of F G a
      | Borrow a \<Rightarrow> kind_of F G a
      | MutBorrow a \<Rightarrow> kind_of F G a
      | Metadata tag v a \<Rightarrow> kind_of F G a
      | BinaryOp op l r \<Rightarrow>
          Option.bind (kind_of F G l) (\<lambda>a. Option.bind (kind_of F G r) (\<lambda>b.
            guarded (task_ok F G l a) (op_kind op a b)))
      | MoneyOp op l r \<Rightarrow> guarded (kind_of F G l \<noteq> None \<and> kind_of F G r \<noteq> None) KInt
      | TimeOp op l r \<Rightarrow> guarded (kind_of F G l \<noteq> None \<and> kind_of F G r \<noteq> None) KInt
      | Get inst fld idx \<Rightarrow> guarded (kind_of F G inst \<noteq> None \<and> kind_of F G idx \<noteq> None) (field_kind fld)
      | Set inst fld idx v \<Rightarrow>
          guarded (kind_of F G inst \<noteq> None \<and> kind_of F G idx \<noteq> None \<and> kind_of F G v = Some (field_kind fld))
            (field_kind fld)
      | If c t f \<Rightarrow>
          (if kind_of F G c \<noteq> None \<and> kind_of F G t = kind_of F G f then kind_of F G t else None)
      | Let name v body \<Rightarrow> Option.bind (kind_of F G v) (\<lambda>t. kind_of F (G @ [t]) body)
      | Seq a b \<Rightarrow> (if kind_of F G a \<noteq> None then kind_of F G b else None)
      | Apply func args \<Rightarrow>
          guarded (callable func \<and> (mf_templates F \<longrightarrow> only_ints G) \<and>
            list_all (\<lambda>a. kind_of F G a = Some KInt \<and> task_ok F G a KInt) args) KInt
      | Map inst fld func \<Rightarrow> guarded (kind_of F G inst \<noteq> None \<and> callable func) KInt
      | Filter inst func \<Rightarrow>
          guarded (kind_of F G inst \<noteq> None \<and> callable func \<and> (is_named func \<longrightarrow> \<not> mf_columns F)) KInt
      | Trap t f \<Rightarrow> guarded (only_ints G \<and> kind_of F G t = Some KInt \<and> kind_of F G f = Some KInt) KInt
      | Define name params body exported \<Rightarrow> Some KInt
      | _ \<Rightarrow> guarded (list_all (\<lambda>a. kind_of F G a = Some KInt) (children e)) KInt)"
  by pat_completeness auto
termination
  by (relation "measure (\<lambda>(F, G, e). size e)") (auto dest: children_size size_member)

declare kind_of.simps [simp del]

lemma kind_leaves [simp]:
  "kind_of F G (Float x) = Some KFloat" "kind_of F G (Identifier name) = Some KFun"
  "kind_of F G (DeBruijn i) = Some (var_kind G i)" "kind_of F G (Expand name) = guarded (only_ints G) KInt"
  "kind_of F G (Define name params body exported) = Some KInt"
  by (subst kind_of.simps, simp)+

lemma kind_wrappers [simp]:
  "kind_of F G (Move a) = kind_of F G a" "kind_of F G (Borrow a) = kind_of F G a"
  "kind_of F G (MutBorrow a) = kind_of F G a" "kind_of F G (Metadata tag v a) = kind_of F G a"
  by (subst kind_of.simps, simp)+

lemma kind_operators:
  "kind_of F G (BinaryOp op l r) = Option.bind (kind_of F G l) (\<lambda>a. Option.bind (kind_of F G r) (\<lambda>b.
     guarded (task_ok F G l a) (op_kind op a b)))"
  "kind_of F G (MoneyOp op l r) = guarded (kind_of F G l \<noteq> None \<and> kind_of F G r \<noteq> None) KInt"
  "kind_of F G (TimeOp op l r) = guarded (kind_of F G l \<noteq> None \<and> kind_of F G r \<noteq> None) KInt"
  by (subst kind_of.simps, simp)+

lemma kind_fields:
  "kind_of F G (Get inst fld idx) = guarded (kind_of F G inst \<noteq> None \<and> kind_of F G idx \<noteq> None) (field_kind fld)"
  "kind_of F G (Set inst fld idx v) =
     guarded (kind_of F G inst \<noteq> None \<and> kind_of F G idx \<noteq> None \<and> kind_of F G v = Some (field_kind fld)) (field_kind fld)"
  "kind_of F G (Map inst fld func) = guarded (kind_of F G inst \<noteq> None \<and> callable func) KInt"
  "kind_of F G (Filter inst func) =
     guarded (kind_of F G inst \<noteq> None \<and> callable func \<and> (is_named func \<longrightarrow> \<not> mf_columns F)) KInt"
  by (subst kind_of.simps, simp)+

lemma kind_control:
  "kind_of F G (If c t f) =
     (if kind_of F G c \<noteq> None \<and> kind_of F G t = kind_of F G f then kind_of F G t else None)"
  "kind_of F G (Let name v body) = Option.bind (kind_of F G v) (\<lambda>t. kind_of F (G @ [t]) body)"
  "kind_of F G (Seq a b) = (if kind_of F G a \<noteq> None then kind_of F G b else None)"
  "kind_of F G (Apply func args) = guarded (callable func \<and> (mf_templates F \<longrightarrow> only_ints G) \<and>
     list_all (\<lambda>a. kind_of F G a = Some KInt \<and> task_ok F G a KInt) args) KInt"
  "kind_of F G (Trap t f) = guarded (only_ints G \<and> kind_of F G t = Some KInt \<and> kind_of F G f = Some KInt) KInt"
  by (subst kind_of.simps, simp)+

lemma kind_others:
  "kind_of F G (Integer i) = Some KInt"
  "kind_of F G (String str) = Some KInt"
  "kind_of F G (Len a) = guarded (kind_of F G a = Some KInt) KInt"
  "kind_of F G (Cat a b) = guarded (kind_of F G a = Some KInt \<and> kind_of F G b = Some KInt) KInt"
  "kind_of F G (Sub a b c) = guarded (kind_of F G a = Some KInt \<and> kind_of F G b = Some KInt \<and> kind_of F G c = Some KInt) KInt"
  "kind_of F G (Loc a b) = guarded (kind_of F G a = Some KInt \<and> kind_of F G b = Some KInt) KInt"
  "kind_of F G (Reg a b) = guarded (kind_of F G a = Some KInt \<and> kind_of F G b = Some KInt) KInt"
  "kind_of F G (Read a) = guarded (kind_of F G a = Some KInt) KInt"
  "kind_of F G (Write a b) = guarded (kind_of F G a = Some KInt \<and> kind_of F G b = Some KInt) KInt"
  "kind_of F G (Str a) = guarded (kind_of F G a = Some KInt) KInt"
  "kind_of F G (Split a b c) = guarded (kind_of F G a = Some KInt \<and> kind_of F G b = Some KInt \<and> kind_of F G c = Some KInt) KInt"
  "kind_of F G TimeNow = Some KInt"
  "kind_of F G TimeNano = Some KInt"
  "kind_of F G (TimeGet a b) = guarded (kind_of F G a = Some KInt \<and> kind_of F G b = Some KInt) KInt"
  "kind_of F G (TimeSet a b c d e f) = guarded (kind_of F G a = Some KInt \<and> kind_of F G b = Some KInt \<and> kind_of F G c = Some KInt \<and> kind_of F G d = Some KInt \<and> kind_of F G e = Some KInt \<and> kind_of F G f = Some KInt) KInt"
  "kind_of F G (Env a) = guarded (kind_of F G a = Some KInt) KInt"
  "kind_of F G (Pack a) = guarded (kind_of F G a = Some KInt) KInt"
  "kind_of F G (Unpack a shape) = guarded (kind_of F G a = Some KInt) KInt"
  "kind_of F G (OtelEmit a b c d) = guarded (kind_of F G a = Some KInt \<and> kind_of F G b = Some KInt \<and> kind_of F G c = Some KInt \<and> kind_of F G d = Some KInt) KInt"
  "kind_of F G (MoneyStr a) = guarded (kind_of F G a = Some KInt) KInt"
  "kind_of F G TimeZone = Some KInt"
  "kind_of F G (Panic a) = guarded (kind_of F G a = Some KInt) KInt"
  "kind_of F G (HttpClient a b c) = guarded (kind_of F G a = Some KInt \<and> kind_of F G b = Some KInt \<and> kind_of F G c = Some KInt) KInt"
  "kind_of F G (HttpServer a b) = guarded (kind_of F G a = Some KInt \<and> kind_of F G b = Some KInt) KInt"
  "kind_of F G (HttpHeader a b) = guarded (kind_of F G a = Some KInt \<and> kind_of F G b = Some KInt) KInt"
  "kind_of F G (FileOpen a b) = guarded (kind_of F G a = Some KInt \<and> kind_of F G b = Some KInt) KInt"
  "kind_of F G (New shape a) = guarded (kind_of F G a = Some KInt) KInt"
  "kind_of F G (Shape name flds exported) = Some KInt"
  "kind_of F G (Import module symbol arity) = Some KInt"
  by (subst kind_of.simps, simp add: children_def guarded_def)+

lemmas kind_rules = kind_operators kind_fields kind_control kind_others

text \<open>Integers below the variables that are listed change nothing.\<close>

lemma var_kind_base [simp]: "var_kind (replicate k KInt @ G) i = var_kind G i"
  by (auto simp: var_kind_def slot_def nth_append)

lemma only_ints_simps [simp]:
  "only_ints []" "only_ints (G @ H) \<longleftrightarrow> only_ints G \<and> only_ints H" "only_ints (replicate k KInt)"
  by (auto simp: only_ints_def list_all_iff)

lemma only_ints_replicate: "only_ints G \<Longrightarrow> G = replicate (length G) KInt"
  by (simp add: only_ints_def list_all_iff replicate_length_same)

lemma task_ok_base [simp]: "task_ok F (replicate k KInt @ G) e t = task_ok F G e t"
  by (simp add: task_ok_def)

lemma kind_base: "kind_of F (replicate k KInt @ G) e = kind_of F G e"
proof (induction e arbitrary: G rule: expr_children_induct)
  case (node e)
  have all: "list_all (\<lambda>a. kind_of F (replicate k KInt @ G) a = Some KInt) as =
      list_all (\<lambda>a. kind_of F G a = Some KInt) as" if "\<And>a. a \<in> set as \<Longrightarrow> a \<in> set (children e)" for as
    by (intro list.pred_cong refl) (simp add: node that)
  have l: "kind_of F (replicate k KInt @ G @ [t]) c = kind_of F (G @ [t]) c" if "c \<in> set (children e)" for c t
    using node[OF that, of "G @ [t]"] by simp
  show ?case
    using node l all[of "children e"]
    by (subst (1 2) kind_of.simps, cases e)
       (simp_all add: children_def all cong: list.pred_cong)
qed

lemma kind_ints: "only_ints G \<Longrightarrow> kind_of F G e = kind_of F [] e"
  by (subst only_ints_replicate) (simp_all add: kind_base[of F _ "[]", simplified])

lemma kind_replicate: "kind_of F (replicate k KInt) e = kind_of F [] e"
  by (rule kind_ints) simp

end
