(* ===== verification/Gen_Types.thy ===== *)
theory Gen_Types
  imports Driver Kinds
begin

text \<open>
  Type soundness of the code generator: the code that is generated for a module that obeys the
  discipline of \<open>Kinds\<close> has no ill-typed instruction.  \<open>types F G P m\<close> says that the generator \<open>m\<close>
  keeps the instructions emitted so far and the variables of kinds \<open>G\<close> well typed, with a result
  that satisfies \<open>P\<close>; there is one lemma for each constructor of the builder and of \<open>gen_expr\<close>.
\<close>

section \<open>Well-typed states\<close>

text \<open>Only integers can be pointers that are dropped.\<close>

definition item_ok :: "kind \<Rightarrow> stack_item \<Rightarrow> bool" where
  "item_ok t item \<longleftrightarrow> ty_of (si_value item) = llvm_ty t \<and> (t \<noteq> KInt \<longrightarrow> \<not> si_is_ptr item)"

definition shapes_ok :: "module_facts \<Rightarrow> (string \<times> string list) list \<Rightarrow> bool" where
  "shapes_ok F shapes \<longleftrightarrow> (\<forall>(name, flds) \<in> set shapes. ''f64'' \<in> set flds \<longrightarrow> mf_columns F)"

definition templates_ok :: "module_facts \<Rightarrow> (string \<times> param list \<times> expr) list \<Rightarrow> bool" where
  "templates_ok F templates \<longleftrightarrow>
     (\<forall>(name, params, body) \<in> set templates. mf_templates F \<and> kind_of F [] body = Some KInt)"

definition tables_ok :: "module_facts \<Rightarrow> codegen \<Rightarrow> bool" where
  "tables_ok F cg \<longleftrightarrow> shapes_ok F (cg_shapes cg) \<and> templates_ok F (cg_templates cg)"

definition rets_ok :: "(string \<Rightarrow> ty option) \<Rightarrow> bool" where
  "rets_ok rets \<longleftrightarrow> (\<forall>f t. rets f = Some t \<longrightarrow> t = I64 \<or> (t = Ptr \<and> f = ''llm_alloc''))"

definition well_typed :: "module_facts \<Rightarrow> kind list \<Rightarrow> gen_state \<Rightarrow> bool" where
  "well_typed F G s \<longleftrightarrow> list_all2 item_ok G (gs_stack s) \<and> list_all block_ok (gs_blocks s) \<and>
     rets_ok (gs_rets s) \<and> tables_ok F (gs_cg s)"

text \<open>A generator that keeps the state well typed, with results that satisfy \<open>P\<close>.\<close>

definition types :: "module_facts \<Rightarrow> kind list \<Rightarrow> ('a \<Rightarrow> bool) \<Rightarrow> 'a gen \<Rightarrow> bool" where
  "types F G P m \<longleftrightarrow> (\<forall>s. well_typed F G s \<longrightarrow> wlp m (\<lambda>x s'. P x \<and> well_typed F G s') s)"

abbreviation gives :: "module_facts \<Rightarrow> kind list \<Rightarrow> ty \<Rightarrow> val gen \<Rightarrow> bool" where
  "gives F G t m \<equiv> types F G (\<lambda>v. ty_of v = t) m"

abbreviation runs_typed :: "module_facts \<Rightarrow> kind list \<Rightarrow> unit gen \<Rightarrow> bool" where
  "runs_typed F G m \<equiv> types F G (\<lambda>_. True) m"

named_theorems typing "generators that keep the state well typed"

lemma types_bind:
  "types F G P m \<Longrightarrow> (\<And>x. P x \<Longrightarrow> types F G Q (k x)) \<Longrightarrow> types F G Q (gbind m k)"
  unfolding types_def wp_gbind by (blast intro: wp_mono)

lemma types_bind2:
  "types F G (\<lambda>(a, b). P a b) m \<Longrightarrow> (\<And>a b. P a b \<Longrightarrow> types F G Q (k a b)) \<Longrightarrow> types F G Q (gbind m (\<lambda>(a, b). k a b))"
  by (erule types_bind) (auto split: prod.splits)

lemma types_return: "P x \<Longrightarrow> types F G P (greturn x)"
  by (simp add: types_def)

lemma types_panic [typing]: "types F G P (gpanic msg)"
  by (simp add: types_def)

lemma types_weaken: "types F G P m \<Longrightarrow> (\<And>x. P x \<Longrightarrow> Q x) \<Longrightarrow> types F G Q m"
  unfolding types_def by (blast intro: wp_mono)

lemma types_getI: "(\<And>s. well_typed F G s \<Longrightarrow> P (f s)) \<Longrightarrow> types F G P (gget f)"
  by (simp add: types_def)

lemma types_get [typing]: "types F G (\<lambda>_. True) (gget f)"
  by (rule types_getI) simp

lemma types_expect: "(\<And>y. x = Some y \<Longrightarrow> P y) \<Longrightarrow> types F G P (expect msg x)"
  by (simp add: types_def split: option.split)

lemma types_if [typing]: "(c \<Longrightarrow> types F G P m) \<Longrightarrow> (\<not> c \<Longrightarrow> types F G P n) \<Longrightarrow> types F G P (if c then m else n)"
  by simp

lemma types_option:
  "types F G P m \<Longrightarrow> (\<And>y. x = Some y \<Longrightarrow> types F G P (k y)) \<Longrightarrow> types F G P (case x of None \<Rightarrow> m | Some y \<Rightarrow> k y)"
  by (cases x) simp_all

lemma types_unit [typing]: "runs_typed F G (greturn ())"
  by (rule types_return) simp

lemma types_all:
  assumes "\<And>m. m \<in> set ms \<Longrightarrow> types F G P m"
  shows "types F G (list_all P) (gen_all ms)"
  using assms by (induction ms) (auto intro!: types_return types_bind[of _ _ P] types_bind[of _ _ "list_all P"])

lemma types_each [typing]: "(\<And>x. x \<in> set xs \<Longrightarrow> runs_typed F G (f x)) \<Longrightarrow> runs_typed F G (gen_each f xs)"
  unfolding gen_each_def by (rule types_bind[OF types_all[where P = "\<lambda>_. True"]]) (auto intro: typing)

subsection \<open>The builder\<close>

lemma block_ok_emitted:
  assumes "list_all block_ok bs" "inst_ok i"
  shows "list_all block_ok (bs[n := (bs ! n)\<lparr>bk_insts := bk_insts (bs ! n) @ [(k, i)]\<rparr>])"
proof (cases "n < length bs")
  case True
  with assms(1) have "block_ok (bs ! n)" by (simp add: list_all_length)
  with assms(2) have "block_ok ((bs ! n)\<lparr>bk_insts := bk_insts (bs ! n) @ [(k, i)]\<rparr>)"
    by (simp add: block_ok_def)
  with assms(1) show ?thesis
    using set_update_subset_insert[of bs n] by (auto simp: list_all_iff)
qed (use assms in \<open>simp add: list_update_beyond\<close>)

lemma well_typed_emitted: "well_typed F G s \<Longrightarrow> inst_ok i \<Longrightarrow> well_typed F G (emitted i s)"
  by (simp add: well_typed_def emitted_def block_ok_emitted)

lemma types_emit [typing]: "inst_ok i \<Longrightarrow> gives F G t (emit i t)"
  by (simp add: types_def well_typed_emitted)

lemma types_emit_void [typing]: "inst_ok i \<Longrightarrow> runs_typed F G (emit_void i)"
  by (simp add: types_def well_typed_emitted)

lemma well_typed_simps [simp]:
  "well_typed F G (s\<lparr>gs_at := b\<rparr>) = well_typed F G s"
  "well_typed F G (s\<lparr>gs_depth := d\<rparr>) = well_typed F G s"
  "well_typed F G (s\<lparr>gs_globals := g\<rparr>) = well_typed F G s"
  by (simp_all add: well_typed_def)

lemma add_function_sel [simp]:
  "cg_shapes (add_function ln name n cg) = cg_shapes cg" "cg_templates (add_function ln name n cg) = cg_templates cg"
  using add_function_tables[of ln name n cg] by auto

lemma tables_ok_add [simp]: "tables_ok F (add_function ln name n cg) = tables_ok F cg"
  by (simp add: tables_ok_def)

lemma types_append [typing]: "types F G (\<lambda>_. True) (append_basic_block f l)"
  by (simp add: types_def wp_def append_basic_block_def well_typed_def block_ok_def)

lemma types_position [typing]:
  "runs_typed F G (position_at_end b)" "types F G (\<lambda>_. True) get_insert_block" "types F G (\<lambda>_. True) parent_function"
  by (simp_all add: types_def position_at_end_def get_insert_block_def parent_function_def)

lemma types_depth [typing]: "runs_typed F G (gmodify (\<lambda>s. s\<lparr>gs_depth := d\<rparr>))"
  by (simp add: types_def)

lemma types_module_add [typing]: "types F G (\<lambda>_. True) (module_add_function env name n)"
  by (simp add: types_def module_add_function_def on_codegen_def well_typed_def)

lemma types_add [typing]:
  assumes "t = I64 \<or> (t = Ptr \<and> name = ''llm_alloc'')"
  shows "runs_typed F G (get_or_add_external_fn env name t n)"
  using assms by (auto simp: types_def get_or_add_external_fn_def well_typed_def rets_ok_def)

lemma types_string [typing]: "gives F G I64 (gen_string_constant env str)"
  by (auto simp: types_def gen_string_constant_def Let_def split: option.split)

lemma types_call [typing]:
  assumes "list_all (\<lambda>a. ty_of a = I64) args" "name \<noteq> ''llm_alloc''"
  shows "gives F G I64 (build_call name args tail)"
  unfolding build_call_def
proof (rule types_bind)
  show "types F G (\<lambda>t. t = I64) (gget (\<lambda>s. case gs_rets s name of None \<Rightarrow> I64 | Some t \<Rightarrow> t))"
    using assms(2) by (intro types_getI) (auto simp: well_typed_def rets_ok_def split: option.split)
qed (use assms(1) in \<open>auto intro!: typing\<close>)

lemma types_call_any: "list_all (\<lambda>a. ty_of a = I64) args \<Longrightarrow> types F G (\<lambda>_. True) (build_call name args tail)"
  unfolding build_call_def by (rule types_bind[OF types_get], rule types_weaken, rule types_emit) simp_all

lemma types_rt [typing]:
  assumes "list_all (\<lambda>a. ty_of a = I64) args" "name \<noteq> ''llm_alloc''"
  shows "gives F G I64 (rt_call env name I64 args)" "runs_typed F G (rt_void env name args)"
proof -
  show "gives F G I64 (rt_call env name I64 args)"
    unfolding rt_call_def by (rule types_bind2 types_bind typing assms | simp)+
  then show "runs_typed F G (rt_void env name args)"
    unfolding rt_void_def by (rule types_bind) (rule types_unit)
qed

lemma types_alloc [typing]:
  assumes "ty_of v = I64"
  shows "types F G (\<lambda>_. True) (rt_call env ''llm_alloc'' Ptr [v])"
  unfolding rt_call_def by (rule types_bind[OF types_add]) (simp_all add: types_call_any assms)

lemma types_pointer [typing]: "gives F G Ptr (into_pointer_value v)" "gives F G F64 (into_float_value v)"
  by (simp_all add: types_def into_pointer_value_def into_float_value_def)

lemma types_as_int: "ty_of v \<noteq> I1 \<Longrightarrow> gives F G I64 (as_int v)"
  by (cases "ty_of v") (simp_all add: as_int_def types_emit types_return)

lemma types_as_int_kind [typing]: "ty_of v = llvm_ty t \<Longrightarrow> gives F G I64 (as_int v)"
  by (cases t) (simp_all add: types_as_int)

subsection \<open>Instances and loops\<close>

lemma const_nat_ty [simp]: "ty_of (const_nat n) = I64"
  by (simp add: const_nat_def)

lemma both_simps [simp]:
  "both (float_arith IAdd) a b = (ty_of a = I64 \<and> ty_of b = I64)" "both (float_arith ISub) a b = (ty_of a = I64 \<and> ty_of b = I64)"
  "both (float_arith IMul) a b = (ty_of a = I64 \<and> ty_of b = I64)" "both (float_arith ISDiv) a b = (ty_of a = I64 \<and> ty_of b = I64)"
  "both (float_arith IAnd) a b = (ty_of a = I64 \<and> ty_of b = I64)" "both (float_arith IOr) a b = (ty_of a = I64 \<and> ty_of b = I64)"
  "both (float_arith IXor) a b = (ty_of a = I64 \<and> ty_of b = I64)"
  "both (float_arith FAdd) a b = (ty_of a = F64 \<and> ty_of b = F64)" "both (float_arith FSub) a b = (ty_of a = F64 \<and> ty_of b = F64)"
  "both (float_arith FMul) a b = (ty_of a = F64 \<and> ty_of b = F64)" "both (float_arith FDiv) a b = (ty_of a = F64 \<and> ty_of b = F64)"
  "both (float_predicate PEq) a b = (ty_of a = I64 \<and> ty_of b = I64)" "both (float_predicate PNe) a b = (ty_of a = I64 \<and> ty_of b = I64)"
  "both (float_predicate PLt) a b = (ty_of a = I64 \<and> ty_of b = I64)" "both (float_predicate PGt) a b = (ty_of a = I64 \<and> ty_of b = I64)"
  "both (float_predicate FEq) a b = (ty_of a = F64 \<and> ty_of b = F64)" "both (float_predicate FLt) a b = (ty_of a = F64 \<and> ty_of b = F64)"
  "both (float_predicate FGt) a b = (ty_of a = F64 \<and> ty_of b = F64)"
  by (simp_all add: both_def float_arith_def float_predicate_def)

lemma types_as_int_same [typing]: "ty_of v = I64 \<Longrightarrow> gives F G I64 (as_int v)"
  by (rule types_as_int) simp

lemma types_return2: "P a b \<Longrightarrow> types F G (\<lambda>(a, b). P a b) (greturn (a, b))"
  by (rule types_return) simp

lemma types_column [typing]:
  "ty_of p = Ptr \<Longrightarrow> types F G (\<lambda>(a, b). ty_of a = I64 \<and> ty_of b = Ptr) (column p k)"
  unfolding column_def by (rule types_return2 types_bind typing | (simp; fail))+

lemma types_elements [typing]:
  "ty_of p = Ptr \<Longrightarrow> ty_of i = I64 \<Longrightarrow> gives F G t (load_element t p i)"
  "ty_of p = Ptr \<Longrightarrow> ty_of i = I64 \<Longrightarrow> runs_typed F G (store_element t p i v)"
  unfolding load_element_def store_element_def by (rule types_bind typing | (simp; fail))+

lemma types_counters [typing]:
  "gives F G Ptr alloca_zero"
  "ty_of p = Ptr \<Longrightarrow> gives F G I64 (load_int p)"
  "ty_of p = Ptr \<Longrightarrow> ty_of i = I64 \<Longrightarrow> runs_typed F G (step_counter p i)"
  unfolding alloca_zero_def load_int_def step_counter_def
  by (rule types_bind typing types_return | (simp; fail))+

lemma types_loop_test [typing]:
  "ty_of p = Ptr \<Longrightarrow> ty_of n = I64 \<Longrightarrow> types F G (\<lambda>(i, c). ty_of i = I64 \<and> ty_of c = I1) (loop_test p n)"
  unfolding loop_test_def by (rule types_return2 types_bind typing | (simp; fail))+

lemma types_shape [typing]: "types F G (\<lambda>flds. ''f64'' \<in> set flds \<longrightarrow> mf_columns F) (get_shape name)"
  unfolding get_shape_def
proof (rule types_bind)
  show "types F G (\<lambda>x. \<forall>flds. x = Some flds \<longrightarrow> ''f64'' \<in> set flds \<longrightarrow> mf_columns F)
      (gget (\<lambda>s. map_of (cg_shapes (gs_cg s)) name))"
    by (rule types_getI) (auto simp: well_typed_def tables_ok_def shapes_ok_def dest!: map_of_SomeD)
qed (rule types_expect, simp)

lemma types_alloc_soa [typing]:
  assumes "ty_of n = I64"
  shows "types F G (\<lambda>(p, i). ty_of p = Ptr \<and> ty_of i = I64) (alloc_soa env n flds)"
proof -
  have cols: "types F G (list_all (\<lambda>v. ty_of v = I64)) (gen_all (map (\<lambda>_.
       gbind (emit (Arith IMul n (const_nat 8)) I64) (\<lambda>size_bytes.
       gbind (rt_call env ''llm_alloc'' Ptr [size_bytes]) (\<lambda>ptr_val.
       gbind (into_pointer_value ptr_val) (\<lambda>p. emit (PtrToInt p) I64)))) flds))"
    using assms by (intro types_all) (auto intro!: typing types_bind[OF types_emit] types_bind[OF types_alloc]
      types_bind[OF types_pointer(1)])
  show ?thesis
    unfolding alloc_soa_def Let_def
    by (rule types_return2 types_bind2 types_bind[OF cols] types_bind typing | (simp split: prod.split; fail)
        | clarsimp)+
qed

subsection \<open>Operators\<close>

lemma types_compare [typing]:
  "inst_ok (Cmp p l r) \<Longrightarrow> gives F G I64 (compare_to_int p l r)"
  unfolding compare_to_int_def by (rule types_bind typing | (simp; fail))+

lemma types_promote [typing]: "ty_of v = llvm_ty t \<Longrightarrow> gives F G F64 (promote v)"
  unfolding promote_def by (cases t) (rule typing | (simp add: is_int_value_def; fail))+

lemma types_float_op [typing]:
  "ty_of l = F64 \<Longrightarrow> ty_of r = F64 \<Longrightarrow> a = KFloat \<or> b = KFloat \<Longrightarrow> gives F G (llvm_ty (op_kind op a b)) (float_op op l r)"
  by (cases op) (auto simp: float_op_def op_kind_def intro!: typing)

lemma types_int_op [typing]:
  "ty_of l = I64 \<Longrightarrow> ty_of r = I64 \<Longrightarrow> a \<noteq> KFloat \<Longrightarrow> b \<noteq> KFloat \<Longrightarrow> gives F G (llvm_ty (op_kind op a b)) (int_op op l r)"
  by (cases op) (auto simp: int_op_def op_kind_def intro!: typing)

lemma is_float_kind [simp]: "ty_of v = llvm_ty t \<Longrightarrow> is_float_value v \<longleftrightarrow> t = KFloat"
  by (cases t) (simp_all add: is_float_value_def)

lemma types_numeric_op [typing]:
  assumes "ty_of l = llvm_ty a" "ty_of r = llvm_ty b"
  shows "gives F G (llvm_ty (op_kind op a b)) (numeric_op op l r)"
  unfolding numeric_op_def is_float_kind[OF assms(1)] is_float_kind[OF assms(2)]
  using assms by - (rule types_bind typing types_promote types_as_int_kind | assumption | (simp; fail))+

lemma types_money [typing]:
  assumes "gives F G (llvm_ty a) gl" "gives F G (llvm_ty b) gr"
  shows "gives F G I64 (gen_money_op op gl gr)"
proof -
  have "gives F G I64 (case op of
       TAdd \<Rightarrow> emit (Arith IAdd lhs rhs) I64
     | TSub \<Rightarrow> emit (Arith ISub lhs rhs) I64
     | TMul \<Rightarrow> gbind (emit (Arith IMul lhs rhs) I64) (\<lambda>mul. emit (Arith ISDiv mul (ConstInt 10000)) I64)
     | TDiv \<Rightarrow> gbind (emit (Arith IMul lhs (ConstInt 10000)) I64) (\<lambda>scaled. emit (Arith ISDiv scaled rhs) I64)
     | _ \<Rightarrow> gpanic ''E008'')" if "ty_of lhs = I64" "ty_of rhs = I64" for lhs rhs
    using that by (cases op) (auto intro!: typing types_bind[OF types_emit])
  then show ?thesis
    unfolding gen_money_op_def Let_def
    by - (rule types_bind[OF assms(1)] types_bind[OF assms(2)] types_bind[OF types_as_int_kind] | assumption)+
qed

lemma types_time [typing]:
  assumes "gives F G (llvm_ty a) gl" "gives F G (llvm_ty b) gr"
  shows "gives F G I64 (gen_time_op op gl gr)"
proof -
  have "gives F G I64 (case op of TAdd \<Rightarrow> emit (Arith IAdd lhs rhs) I64
     | TSub \<Rightarrow> emit (Arith ISub lhs rhs) I64 | _ \<Rightarrow> gpanic ''E008'')"
    if "ty_of lhs = I64" "ty_of rhs = I64" for lhs rhs
    using that by (cases op) (auto intro!: typing)
  then show ?thesis
    unfolding gen_time_op_def
    by - (rule types_bind[OF assms(1)] types_bind[OF assms(2)] types_bind[OF types_as_int_kind] | assumption)+
qed

subsection \<open>The stack\<close>

lemma well_typed_stack: "well_typed F G s \<Longrightarrow> list_all2 item_ok G (gs_stack s)"
  by (simp add: well_typed_def)

lemma well_typed_set:
  "well_typed F G (s\<lparr>gs_stack := stk\<rparr>) \<longleftrightarrow>
     list_all2 item_ok G stk \<and> list_all block_ok (gs_blocks s) \<and> rets_ok (gs_rets s) \<and> tables_ok F (gs_cg s)"
  by (simp add: well_typed_def)

lemma well_typed_length: "well_typed F G s \<Longrightarrow> length (gs_stack s) = length G"
  by (auto simp: well_typed_def dest: list_all2_lengthD)

lemma stack_item:
  assumes "well_typed F G s" "i < length (gs_stack s)"
  shows "ty_of (si_value (gs_stack s ! slot (gs_stack s) i)) = llvm_ty (var_kind G i)"
  using assms by (auto simp: well_typed_def list_all2_conv_all_nth item_ok_def var_kind_def slot_def)

lemma stack_ints:
  assumes "well_typed F G s" "only_ints G" "i < length (gs_stack s)"
  shows "ty_of (si_value (gs_stack s ! i)) = I64"
  using assms by (auto simp: well_typed_def list_all2_conv_all_nth item_ok_def only_ints_def list_all_length)

lemma types_debruijn [typing]: "gives F G (llvm_ty (var_kind G i)) (gen_debruijn i)"
  by (auto simp: types_def wp_def gen_debruijn_def Let_def stack_item not_le)

lemma well_typed_update:
  assumes "well_typed F G s" "i < length (gs_stack s)"
  shows "well_typed F G (s\<lparr>gs_stack := (gs_stack s)[i := (gs_stack s ! i)\<lparr>si_state := st\<rparr>]\<rparr>)"
  using assms by (auto simp: well_typed_def list_all2_conv_all_nth item_ok_def nth_list_update)

lemma types_move_item:
  "(\<And>s. well_typed F G s \<Longrightarrow> i < length (gs_stack s) \<Longrightarrow> ty_of (si_value (gs_stack s ! i)) = t) \<Longrightarrow> gives F G t (move_item i)"
  by (auto simp: types_def wp_def move_item_def Let_def well_typed_update not_le)

lemma types_expand: "only_ints G \<Longrightarrow> gives F G I64 (gen_expand em name)"
  by (auto simp: types_def wp_def gen_expand_def gbind_def expect_def greturn_def gpanic_def rbind_def Let_def
      stack_ints not_le split: option.split)

lemma types_gen_move:
  assumes "kind_of F G e = Some t" "gives F G (llvm_ty t) g"
  shows "gives F G (llvm_ty t) (gen_move em e g)"
proof (cases e)
  case (DeBruijn i)
  have "wlp (move_item (slot (gs_stack s) i)) (\<lambda>x s'. ty_of x = llvm_ty t \<and> well_typed F G s') s"
    if s: "well_typed F G s" and i: "i < length (gs_stack s)" for s
  proof -
    have "gives F G (llvm_ty t) (move_item (slot (gs_stack s) i))"
    proof (rule types_move_item)
      fix s' assume s': "well_typed F G s'"
      have "slot (gs_stack s) i = slot (gs_stack s') i"
        by (simp add: slot_def well_typed_length[OF s] well_typed_length[OF s'])
      moreover have "i < length (gs_stack s')" using i by (simp add: well_typed_length[OF s] well_typed_length[OF s'])
      ultimately show "ty_of (si_value (gs_stack s' ! slot (gs_stack s) i)) = llvm_ty t"
        using stack_item[OF s'] assms(1) by (simp add: DeBruijn)
    qed
    with s show ?thesis by (simp add: types_def)
  qed
  then show ?thesis by (auto simp: gen_move_def DeBruijn types_def wp_def not_le)
next
  case (Expand name)
  with assms(1) have "only_ints G" "t = KInt" by auto
  then show ?thesis
    unfolding gen_move_def Expand expr.case
    by - (rule types_bind[OF types_expect[where P = "\<lambda>_. True"]],
        auto intro!: types_move_item simp: stack_ints)
qed (use assms(2) in \<open>simp_all add: gen_move_def\<close>)

subsection \<open>Drops\<close>

text \<open>Numbers with a fraction and functions are never taken for pointers.\<close>

definition flag_ok :: "kind \<Rightarrow> bool \<Rightarrow> bool" where
  "flag_ok t is_ptr \<longleftrightarrow> (t \<noteq> KInt \<longrightarrow> \<not> is_ptr)"

lemma flags_of_stack: "well_typed F G s \<Longrightarrow> list_all2 flag_ok G (map si_is_ptr (gs_stack s))"
  by (auto simp: well_typed_def list_all2_conv_all_nth item_ok_def flag_ok_def)

lemma only_ints_pointers:
  assumes "kind_of F G e = Some t" "list_all2 flag_ok G ps" "returns_ptr_with_stack e ps fns"
  shows "t = KInt"
  using assms
proof (induction e arbitrary: G ps t)
  case (DeBruijn i)
  then have "i < length ps" "ps ! slot ps i" by (auto simp: slot_def split: if_split_asm)
  with DeBruijn(2) have "flag_ok (G ! slot ps i) True" by (metis list_all2_nthD2 slot_less)
  with DeBruijn(1) \<open>i < length ps\<close> list_all2_lengthD[OF DeBruijn(2)] show ?case
    by (simp add: flag_ok_def var_kind_def slot_def)
next
  case (Let name v body)
  from Let.prems(1) obtain a where a: "kind_of F G v = Some a" "kind_of F (G @ [a]) body = Some t"
    by (auto simp: kind_rules bind_eq_Some_conv)
  with Let.IH(1)[OF a(1) Let.prems(2)] have "list_all2 flag_ok (G @ [a]) (ps @ [returns_ptr_with_stack v ps fns])"
    by (intro list_all2_appendI Let.prems(2)) (auto simp: flag_ok_def)
  from Let.IH(2)[OF a(2) this] Let.prems(3) show ?case by simp
next
  case (If c a b)
  then show ?case by (auto simp: kind_rules split: if_split_asm)
next
  case (Set inst fld idx v)
  then show ?case by (auto simp: kind_rules)
next
  case (Seq a b)
  then show ?case by (auto simp: kind_rules split: if_split_asm)
qed (simp_all add: kind_rules)

lemma owned_int:
  assumes "well_typed F G s" "kind_of F G e = Some t" "is_owned_ptr e s"
  shows "t = KInt"
  using assms only_ints_pointers[OF _ flags_of_stack] by (auto simp: is_owned_ptr_def is_ptr_of_def)

lemma types_drop [typing]: "is_ptr \<longrightarrow> ty_of v = I64 \<Longrightarrow> runs_typed F G (emit_auto_drop env v shape is_ptr)"
  unfolding emit_auto_drop_def
  by (rule types_if types_option types_bind typing types_expect[where P = "\<lambda>_. True"] | (simp; fail))+

lemma types_maybe_drop [typing]: "ty_of v = I64 \<Longrightarrow> runs_typed F G (maybe_drop_val env e v)"
  unfolding maybe_drop_val_def by (rule types_bind typing | (simp; fail))+

lemma types_maybe_drop_kind:
  assumes "kind_of F G e = Some t" "ty_of v = llvm_ty t"
  shows "runs_typed F G (maybe_drop_val env e v)"
  unfolding maybe_drop_val_def
proof (rule types_bind)
  show "types F G (\<lambda>owned. owned \<longrightarrow> t = KInt) (gget (is_owned_ptr e))"
    using assms(1) by (intro types_getI) (auto dest: owned_int)
qed (insert assms(2), (rule types_bind typing | (simp; fail))+)

lemma types_drop_item:
  "ty_of (si_value item) = llvm_ty t \<Longrightarrow> t \<noteq> KInt \<longrightarrow> \<not> si_is_ptr item \<Longrightarrow> runs_typed F G (drop_item env item)"
  unfolding drop_item_def by (cases t) (rule typing | (simp; fail))+

lemma types_drop_items [typing]:
  "list_all (\<lambda>item. \<exists>t. item_ok t item) stack \<Longrightarrow> runs_typed F G (gen_each (drop_item env) stack)"
  by (intro types_each) (auto simp: list_all_iff item_ok_def intro: types_drop_item)

subsection \<open>Calls of the runtime\<close>

abbreviation ints :: "val list \<Rightarrow> bool" where
  "ints vs \<equiv> list_all (\<lambda>v. ty_of v = I64) vs"

lemma types_operands:
  "\<forall>g \<in> set gs. gives F G I64 g \<Longrightarrow> types F G ints (gen_all gs)"
  by (intro types_all) simp

lemma types_drop_operands [typing]: "ints vs \<Longrightarrow> runs_typed F G (drop_operands env es vs)"
  unfolding drop_operands_def
  by (rule types_each) (auto simp: list_all_iff dest!: set_zip_rightD intro!: typing)

lemma types_runtime_op:
  assumes "\<forall>g \<in> set gs. gives F G I64 g" "name \<noteq> ''llm_alloc''"
  shows "gives F G I64 (runtime_op env name es gs)"
  unfolding runtime_op_def using assms(2)
  by - (rule types_bind[OF types_operands[OF assms(1)]] types_bind typing types_return | assumption | (simp; fail))+

lemma types_async [typing]:
  assumes "\<forall>g \<in> set gs. gives F G I64 g" "ints kind"
  shows "runs_typed F G (gen_async env kind es gs)"
proof -
  have "types F G ints (gen_all (map as_int vs))" if "ints vs" for vs
    using that by (intro types_operands) (auto simp: list_all_iff intro!: typing)
  then show ?thesis
    unfolding gen_async_def using assms(2)
    by - (rule types_bind[OF types_operands[OF assms(1)]] types_bind typing types_return | assumption | (simp; fail))+
qed

lemma types_seq:
  assumes "kind_of F G e1 = Some a" "gives F G (llvm_ty a) g1" "gives F G t g2"
  shows "gives F G t (gen_seq env e1 g1 g2)"
  unfolding gen_seq_def
  by (rule types_bind[OF assms(2)] types_bind[OF types_maybe_drop_kind[OF assms(1)]] assms(3) | assumption)+

lemma types_seq_http:
  "\<forall>g \<in> set gs. gives F G I64 g \<Longrightarrow> gives F G t g2 \<Longrightarrow> gives F G t (gen_seq_http env es gs g2)"
  unfolding gen_seq_http_def by (rule types_bind[OF types_async]) simp_all

lemma types_otel:
  "\<forall>g \<in> set gs. gives F G I64 g \<Longrightarrow> gives F G I64 (gen_otel_emit env es gs)"
  unfolding gen_otel_emit_def by (rule types_bind[OF types_async]) (simp_all add: types_return)

lemma types_texts:
  assumes "gives F G I64 g"
  shows "gives F G I64 (gen_len env e g)" "gives F G I64 (gen_pack env e g)" "gives F G I64 (gen_unpack env e shape g)"
    "gives F G I64 (gen_panic env g)" "gives F G I64 (gen_money_str env g)" "gives F G I64 (gen_new env shape g)"
  unfolding gen_len_def gen_pack_def gen_unpack_def gen_panic_def gen_money_str_def gen_new_def
  by (rule types_bind[OF assms] types_bind2 types_bind types_return types_expect[where P = "\<lambda>_. True"] typing
    | assumption | (simp; fail))+

lemma types_get_field:
  assumes "kind_of F G inst = Some a" "gives F G (llvm_ty a) gi" "gives F G (llvm_ty b) gx"
  shows "gives F G (llvm_ty (field_kind fld)) (gen_get env inst fld gi gx)"
proof -
  have t: "get_llvm_type fld = llvm_ty (field_kind fld)" by (simp add: get_llvm_type_def field_kind_def)
  show ?thesis
    unfolding gen_get_def t
    by (rule types_bind[OF assms(2)] types_bind[OF assms(3)] types_bind[OF types_as_int_kind]
        types_bind[OF types_maybe_drop_kind[OF assms(1)]] types_bind2 types_bind types_return
        types_expect[where P = "\<lambda>_. True"] typing | assumption | (simp; fail))+
qed

lemma types_set_field:
  assumes "kind_of F G inst = Some a" "gives F G (llvm_ty a) gi" "gives F G (llvm_ty b) gx" "gives F G t gv"
  shows "gives F G t (gen_set env inst fld gi gx gv)"
  unfolding gen_set_def
  by (rule types_bind[OF assms(2)] types_bind[OF assms(3)] types_bind[OF assms(4)] types_bind[OF types_as_int_kind]
      types_bind[OF types_maybe_drop_kind[OF assms(1)]] types_bind2 types_bind types_return
      types_expect[where P = "\<lambda>_. True"] typing | assumption | (simp; fail))+

subsection \<open>Variables\<close>

lemma types_identifier: "gives F G Ptr (gen_identifier env name)"
  unfolding gen_identifier_def
  by (rule types_bind2[where P = "\<lambda>_ _. True"] types_bind typing types_return types_getI | (simp; fail))+

text \<open>Pushing a variable, using it and popping it.\<close>

definition push_item :: "stack_item \<Rightarrow> unit gen" where
  "push_item item = gmodify (\<lambda>s. s\<lparr>gs_stack := gs_stack s @ [item]\<rparr>)"

lemma types_let:
  assumes v: "kind_of F G e = Some a" "gives F G (llvm_ty a) gv" and b: "gives F (G @ [a]) t gb"
  shows "gives F G t (gen_let env e gv gb)"
proof -
  have inner: "wlp (gbind (push_item \<lparr>si_value = v, si_state = Available, si_shape = shape, si_is_ptr = p\<rparr>) (\<lambda>_.
     gbind gb (\<lambda>res.
     gbind (gget (\<lambda>s. last (gs_stack s))) (\<lambda>item.
     gbind (gmodify (\<lambda>s. s\<lparr>gs_stack := butlast (gs_stack s)\<rparr>)) (\<lambda>_.
     gbind (drop_item env item) (\<lambda>_. greturn res)))))) (\<lambda>x s'. ty_of x = t \<and> well_typed F G s') s"
    if s: "well_typed F G s" and "ty_of v = llvm_ty a" "p \<longrightarrow> a = KInt" for s v shape p
  proof -
    let ?s = "s\<lparr>gs_stack := gs_stack s @ [\<lparr>si_value = v, si_state = Available, si_shape = shape, si_is_ptr = p\<rparr>]\<rparr>"
    have "well_typed F (G @ [a]) ?s"
      using that by (auto simp: well_typed_def item_ok_def intro!: list_all2_appendI)
    with b have "wlp gb (\<lambda>x s'. ty_of x = t \<and> well_typed F (G @ [a]) s') ?s" by (simp add: types_def)
    then show ?thesis
      unfolding push_item_def wp_gbind wp_gmodify wp_gget wp_greturn
    proof (rule wp_mono)
      fix x s' assume *: "ty_of x = t \<and> well_typed F (G @ [a]) s'"
      then have "list_all2 item_ok (G @ [a]) (gs_stack s')" by (simp add: well_typed_def)
      then obtain stk item where stk: "gs_stack s' = stk @ [item]" "list_all2 item_ok G stk" "item_ok a item"
        by (auto simp: list_all2_append1 list_all2_Cons1)
      have "runs_typed F G (drop_item env item)" using stk(3) by (auto simp: item_ok_def intro: types_drop_item)
      moreover have "well_typed F G (s'\<lparr>gs_stack := stk\<rparr>)" using * stk by (simp add: well_typed_def)
      ultimately have "wlp (drop_item env item) (\<lambda>_. well_typed F G) (s'\<lparr>gs_stack := stk\<rparr>)"
        by (simp add: types_def)
      then show "wlp (drop_item env (last (gs_stack s'))) (\<lambda>_ s'. ty_of x = t \<and> well_typed F G s')
          (s'\<lparr>gs_stack := butlast (gs_stack s')\<rparr>)"
        unfolding stk(1) last_snoc butlast_snoc by (rule wp_mono) (use * in simp_all)
    qed
  qed
  have ptr: "types F G (\<lambda>p. p \<longrightarrow> a = KInt) (gget (is_ptr_of e))"
    using v(1) only_ints_pointers[OF _ flags_of_stack] by (intro types_getI) (auto simp: is_ptr_of_def)
  show ?thesis
    unfolding gen_let_def
    by (rule types_bind[OF v(2)], rule types_bind[OF types_get], rule types_bind[OF ptr])
       (use inner in \<open>simp add: types_def push_item_def\<close>)
qed

subsection \<open>Tasks and traps\<close>

text \<open>Whatever a task captures, it finds integers in its environment.\<close>

lemma types_new_stack:
  assumes "types F H P m" "list_all2 item_ok H stk"
  shows "types F G (\<lambda>(x, left). P x \<and> list_all2 item_ok H left) (with_stack stk m)"
  unfolding types_def wp_with_stack
proof (intro allI impI)
  fix s assume s: "well_typed F G s"
  then have "well_typed F H (s\<lparr>gs_stack := stk\<rparr>)" using assms(2) by (simp add: well_typed_def)
  with assms(1) have "wlp m (\<lambda>x s'. P x \<and> well_typed F H s') (s\<lparr>gs_stack := stk\<rparr>)" by (simp add: types_def)
  then show "wlp m (\<lambda>x s'. (case (x, gs_stack s') of (x, left) \<Rightarrow> P x \<and> list_all2 item_ok H left) \<and>
      well_typed F G (s'\<lparr>gs_stack := gs_stack s\<rparr>)) (s\<lparr>gs_stack := stk\<rparr>)"
    by (rule wp_mono) (use s in \<open>auto simp: well_typed_def\<close>)
qed

lemma items_replicate: "list_all (item_ok KInt) stk \<Longrightarrow> list_all2 item_ok (replicate (length stk) KInt) stk"
  by (simp add: list_all2_conv_all_nth list_all_length)

lemma types_load_captures [typing]: "types F G (list_all (item_ok KInt)) (load_captures caps)"
  unfolding load_captures_def
  by (rule types_all) (auto simp: item_ok_def intro!: types_bind[OF types_emit] types_return)

lemma types_store_captures [typing]: "gives F G Ptr (store_captures caps)"
  unfolding store_captures_def
  by (rule types_bind[OF types_emit] types_bind types_each types_return typing | (simp; fail) | clarsimp)+

lemma types_task:
  assumes "\<And>k. gives F (replicate k KInt) I64 g" "list_all (item_ok KInt) stk"
  shows "types F G (\<lambda>(res, left). ty_of res = I64 \<and> list_all (item_ok KInt) left) (with_stack stk g)"
  using types_new_stack[OF assms(1) items_replicate[OF assms(2)], of G]
  by (rule types_weaken) (auto simp: list_all2_conv_all_nth list_all_length)

lemma types_parallel:
  assumes "\<And>k. gives F (replicate k KInt) I64 g"
  shows "gives F G I64 (gen_parallel_expr env g)"
  unfolding gen_parallel_expr_def
  by (rule types_bind2[OF types_task[OF assms]] types_bind2 types_bind typing | assumption | (simp; fail))+

lemma types_sub_fn:
  assumes "\<And>k. gives F (replicate k KInt) I64 g"
  shows "types F G (\<lambda>_. True) (gen_trap_sub_fn env g caps name)"
  unfolding gen_trap_sub_fn_def
  by (rule types_bind2[OF types_task[OF assms]] types_bind2 types_bind typing types_return | assumption
    | (simp; fail) | (auto simp: list_all_iff; fail))+

lemma types_trap:
  assumes "\<And>k. gives F (replicate k KInt) I64 gt" "\<And>k. gives F (replicate k KInt) I64 gf"
  shows "gives F G I64 (gen_trap env gt gf)"
  unfolding gen_trap_def
  by (rule types_bind[OF types_sub_fn[OF assms(1)]] types_bind[OF types_sub_fn[OF assms(2)]] types_bind typing
    | (simp; fail))+

lemma types_binary:
  assumes "gives F G (llvm_ty a) gl" "gives F G (llvm_ty b) gr"
    and "is_pure l \<and> complexity l > ge_threshold env \<Longrightarrow> a = KInt \<and> (\<forall>k. gives F (replicate k KInt) I64 gl)"
  shows "gives F G (llvm_ty (op_kind op a b)) (gen_binary_op env op l gl gr)"
  unfolding gen_binary_op_def
proof (rule types_bind)
  show "types F G (\<lambda>hoist. hoist \<longrightarrow> is_pure l \<and> complexity l > ge_threshold env) (gget (hoistable env l))"
    by (rule types_getI) (simp add: hoistable_def)
  fix hoist assume h: "hoist \<longrightarrow> is_pure l \<and> complexity l > ge_threshold env"
  have "gives F G (llvm_ty a) (if hoist
            then gbind (gen_parallel_expr env gl) (\<lambda>handle. rt_call env ''llm_join'' I64 [handle]) else gl)"
  proof (cases hoist)
    case True
    with h assms(3) have a: "a = KInt" and g: "\<And>k. gives F (replicate k KInt) I64 gl" by auto
    from True show ?thesis
      by (simp add: a) (rule types_bind[OF types_parallel[OF g]] typing | (simp; fail))+
  qed (simp add: assms(1))
  then show "gives F G (llvm_ty (op_kind op a b))
     (gbind (if hoist then gbind (gen_parallel_expr env gl) (\<lambda>handle. rt_call env ''llm_join'' I64 [handle]) else gl)
       (\<lambda>lhs_val. gbind gr (numeric_op op lhs_val)))"
    by (rule types_bind) (rule types_bind[OF assms(2)], rule typing)
qed

subsection \<open>Conditionals\<close>

lemma types_restore:
  assumes "list_all2 item_ok G initial"
  shows "runs_typed F G (gmodify (\<lambda>s. s\<lparr>gs_stack := restore initial (gs_stack s)\<rparr>))"
proof -
  have "list_all2 item_ok G (restore initial stk)" if "list_all2 item_ok G stk" for stk
    using assms that by (auto simp: restore_def list_all2_conv_all_nth item_ok_def)
  then show ?thesis by (simp add: types_def well_typed_def)
qed

lemma types_phi:
  "ty_of a = t \<Longrightarrow> ty_of b = t \<Longrightarrow> gives F G t (emit (Phi [(a, m), (b, n)]) (ty_of a))"
  by (drule sym) (simp add: types_emit)

lemma types_if_arm:
  assumes "gives F G (llvm_ty a) gc" "gives F G t gt" "gives F G t gf"
  shows "gives F G t (gen_if gc gt gf)"
proof -
  have stack: "types F G (list_all2 item_ok G) (gget gs_stack)"
    by (rule types_getI) (rule well_typed_stack)
  show ?thesis
    unfolding gen_if_def
    by (rule types_bind[OF assms(1)] types_bind[OF assms(2)] types_bind[OF assms(3)] types_bind[OF stack]
        types_bind[OF types_as_int_kind] types_bind[OF types_restore] types_phi types_bind typing
        | assumption | (simp; fail))+
qed

subsection \<open>Map and filter\<close>

lemma not_alloc:
  assumes "name \<notin> {''alloc'', ''llm_alloc''}"
  shows "resolve_func_name ln cg name \<noteq> ''llm_alloc''"
proof -
  have "namespaced m name \<noteq> ''llm_alloc''" for m
  proof
    assume "namespaced m name = ''llm_alloc''"
    with assms have "m @ CHR ''_'' # name = ''llm_alloc''" by (auto simp: namespaced_def split: if_split_asm)
    with assms show False by (auto simp: append_eq_Cons_conv)
  qed
  moreover have "mangle_name ln cg name \<noteq> ''llm_alloc''" by (simp add: mangle_name_def)
  ultimately show ?thesis
    using resolve_candidate[of ln cg name] assms by (auto simp: candidates_def split: option.split_asm)
qed

lemma types_call_named:
  assumes "name \<notin> {''alloc'', ''llm_alloc''}" "ints args"
  shows "gives F G I64 (call_named env name args)"
  unfolding call_named_def
proof (rule types_bind)
  show "types F G (\<lambda>full. full \<noteq> ''llm_alloc'') (gget (\<lambda>s. resolve_func_name (ge_names env) (gs_cg s) name))"
    by (rule types_getI) (rule not_alloc[OF assms(1)])
qed (rule types_bind typing assms(2) | assumption)+

lemma types_opencl [typing]:
  "ty_of a = I64 \<Longrightarrow> ty_of b = I64 \<Longrightarrow> ty_of n = I64 \<Longrightarrow> runs_typed F G (try_opencl env func a b n x y)"
  unfolding try_opencl_def
  by (rule types_option types_bind typing | (simp; fail))+

lemma types_mapped:
  assumes "callable func" "ty_of v = I64"
  shows "gives F G I64 (case func of Identifier name \<Rightarrow> call_named env name [v] | _ \<Rightarrow> greturn v)"
  using assms by (cases func) (simp_all add: callable_def types_return types_call_named)

lemma types_cpu_map:
  assumes "callable func" "ty_of n = I64" "ty_of p = Ptr" "ty_of q = Ptr"
  shows "runs_typed F G (cpu_map env func f n p q x y)"
  using assms unfolding cpu_map_def
  by - (rule types_bind2 types_bind[OF types_mapped] types_bind typing | assumption | (simp; fail))+

lemma types_copy_columns [typing]:
  assumes "ty_of n = I64" "ty_of p = Ptr" "ty_of q = Ptr"
  shows "runs_typed F G (copy_columns f flds k n p q)"
  using assms unfolding copy_columns_def
  by - (rule types_bind2 types_bind typing | assumption | (simp; fail))+

lemma types_map:
  assumes "kind_of F G inst = Some a" "gives F G (llvm_ty a) gi" "callable func"
  shows "gives F G I64 (gen_map env inst fld func gi)"
  unfolding gen_map_def Let_def
  by (rule types_bind[OF assms(2)] types_bind[OF types_as_int_kind] types_bind[OF types_maybe_drop_kind[OF assms(1)]]
      types_bind[OF types_cpu_map[OF assms(3)]] types_bind2 types_bind typing types_return
      types_expect[where P = "\<lambda>_. True"] | assumption | (simp; fail))+

lemma types_load_row:
  assumes "ty_of p = Ptr" "ty_of i = I64"
  shows "types F G (\<lambda>vs. ''f64'' \<notin> set flds \<longrightarrow> ints vs) (load_row flds p i)"
proof -
  let ?m = "\<lambda>(k, fld). gbind (column p (Suc k)) (\<lambda>(_, col_ptr). load_element (get_llvm_type fld) col_ptr i)"
  have "types F G (\<lambda>v. ''f64'' \<notin> set flds \<longrightarrow> ty_of v = I64) (?m kf)" if "kf \<in> set (enumerate 0 flds)" for kf
  proof -
    obtain k fld where kf: "kf = (k, fld)" by (cases kf)
    with that have "fld \<in> set flds" by (auto simp: in_set_enumerate_eq)
    have "gives F G (get_llvm_type fld) (?m kf)"
      unfolding kf prod.case using assms by - (rule types_bind2 typing | assumption | (simp; fail))+
    then show ?thesis by (rule types_weaken) (use \<open>fld \<in> set flds\<close> in \<open>auto simp: get_llvm_type_def\<close>)
  qed
  then have "types F G (list_all (\<lambda>v. ''f64'' \<notin> set flds \<longrightarrow> ty_of v = I64)) (load_row flds p i)"
    unfolding load_row_def by (intro types_all) auto
  then show ?thesis by (rule types_weaken) (auto simp: list_all_iff)
qed

lemma types_row_matches:
  assumes "callable func" "is_named func \<longrightarrow> ints vs"
  shows "gives F G I1 (row_matches env func vs)"
proof (cases "is_named func")
  case True
  then obtain name where f: "func = Identifier name" by (auto simp: is_named_def split: expr.splits)
  with assms have "name \<notin> {''alloc'', ''llm_alloc''}" "ints vs" by (auto simp: callable_def is_named_def)
  then show ?thesis
    unfolding row_matches_def f expr.case
    by - (rule types_bind[OF types_call_named] types_bind typing | assumption | (simp; fail))+
next
  case False
  then show ?thesis by (cases func) (simp_all add: row_matches_def is_named_def types_return)
qed

lemma types_filter_parts:
  assumes "callable func" "is_named func \<longrightarrow> ''f64'' \<notin> set flds" "ty_of n = I64" "ty_of p = Ptr"
  shows "types F G (\<lambda>(i_ptr, c). ty_of i_ptr = Ptr \<and> ty_of c = I64) (filter_count env func f flds n p)"
    "ty_of q = Ptr \<Longrightarrow> ty_of i_ptr = Ptr \<Longrightarrow> runs_typed F G (filter_copy env func f flds n p q i_ptr)"
  using assms(2-) unfolding filter_count_def filter_copy_def
  by - (rule types_return2 types_bind2 types_bind[OF types_load_row] types_bind[OF types_row_matches[OF assms(1)]]
      types_bind typing | assumption | (simp; fail) | clarsimp)+

lemma types_filter:
  assumes "kind_of F G inst = Some a" "gives F G (llvm_ty a) gi" "callable func" "is_named func \<longrightarrow> \<not> mf_columns F"
  shows "gives F G I64 (gen_filter env inst func gi)"
  unfolding gen_filter_def
  by (rule types_bind[OF assms(2)] types_bind[OF types_as_int_kind] types_bind[OF types_maybe_drop_kind[OF assms(1)]]
      types_bind2[OF types_filter_parts(1)[OF assms(3)]] types_bind[OF types_filter_parts(2)[OF assms(3)]]
      types_bind2 types_bind typing types_return types_expect[where P = "\<lambda>_. True"]
      | assumption | (simp; fail) | (use assms(4) in blast; fail))+

subsection \<open>Calls\<close>

definition task_ready :: "module_facts \<Rightarrow> kind list \<Rightarrow> nat \<Rightarrow> expr \<times> val gen \<Rightarrow> bool" where
  "task_ready F G threshold ag \<longleftrightarrow> gives F G I64 (snd ag) \<and>
     (is_pure (fst ag) \<and> complexity (fst ag) > threshold \<longrightarrow> (\<forall>k. gives F (replicate k KInt) I64 (snd ag)))"

lemma types_final_arg:
  "final \<noteq> arg \<longrightarrow> (\<exists>str. final = String str) \<Longrightarrow> (final = arg \<Longrightarrow> gives F G I64 g) \<Longrightarrow>
   gives F G I64 (gen_final_arg env arg final g)"
  by (auto simp: gen_final_arg_def intro: typing)

lemma final_arg_cases: "final_arg name i arg s \<noteq> arg \<longrightarrow> (\<exists>str. final_arg name i arg s = String str)"
  by (auto simp: final_arg_def split: expr.split option.split)

lemma types_args:
  assumes "list_all (task_ready F G (ge_threshold env)) args"
  shows "types F G (\<lambda>(vals, handles). ints vals \<and> list_all (\<lambda>h. ty_of (snd h) = I64) handles)
    (gen_args env name n i args)"
  using assms
proof (induction args arbitrary: i)
  case (Cons a args)
  obtain arg g where a: "a = (arg, g)" by (cases a)
  note IH = Cons.IH[of "Suc i"]
  have final: "types F G (\<lambda>final. final \<noteq> arg \<longrightarrow> (\<exists>str. final = String str)) (gget (final_arg name i arg))"
    by (rule types_getI) (rule final_arg_cases)
  show ?case
    unfolding gen_args.simps a fst_conv snd_conv
  proof (rule types_bind[OF final], rule types_bind)
    fix final :: expr
    assume f: "final \<noteq> arg \<longrightarrow> (\<exists>str. final = String str)"
    show "types F G (\<lambda>hoist. hoist \<longrightarrow> is_pure final \<and> complexity final > ge_threshold env)
      (gget (\<lambda>s. i < n - 1 \<and> hoistable env final s))"
      by (rule types_getI) (simp add: hoistable_def)
    fix hoist assume h: "hoist \<longrightarrow> is_pure final \<and> complexity final > ge_threshold env"
    have "gives F G I64 (if hoist then gen_parallel_expr env (gen_final_arg env arg final g) else gen_final_arg env arg final g)"
      using h f Cons.prems by (auto simp: a task_ready_def intro!: types_parallel types_final_arg)
    then show "types F G (\<lambda>(vals, handles). ints vals \<and> list_all (\<lambda>h. ty_of (snd h) = I64) handles)
      (gbind (if hoist then gen_parallel_expr env (gen_final_arg env arg final g) else gen_final_arg env arg final g) (\<lambda>v.
       gbind (gen_args env name n (Suc i) args) (\<lambda>(vals, handles).
       greturn (if hoist then (ConstInt 0 # vals, (i, v) # handles) else (v # vals, handles)))))"
      by (rule types_bind) (rule types_bind2[OF IH], use Cons.prems in simp, rule types_return, simp)
  qed
qed (simp add: types_return)

lemma types_join:
  "ints vals \<Longrightarrow> list_all (\<lambda>h. ty_of (snd h) = I64) hs \<Longrightarrow> types F G ints (join_handles env hs vals)"
proof (induction hs arbitrary: vals)
  case (Cons h hs)
  have "ints (vals[fst h := v])" if "ty_of v = I64" for v
    using Cons.prems(1) that set_update_subset_insert[of vals "fst h" v] by (auto simp: list_all_iff)
  with Cons show ?case by (auto intro!: types_bind[OF types_rt(1)])
qed (simp add: types_return)

lemma types_push_params:
  assumes "well_typed F (replicate n KInt) s" "list_all (\<lambda>(p, v, a). ty_of v = I64) ps"
  shows "wlp (push_params ps em) (\<lambda>x. well_typed F (replicate (n + length ps) KInt)) s"
  using assms
proof (induction ps arbitrary: em s n)
  case (Cons p ps)
  obtain param v arg where p: "p = (param, v, arg)" by (cases p)
  have "well_typed F (replicate (Suc n) KInt) (s\<lparr>gs_stack := gs_stack s @ [item]\<rparr>)" if "si_value item = v" for item
    using Cons.prems that unfolding p replicate_Suc replicate_append_same[symmetric]
    by (auto simp: well_typed_def item_ok_def intro!: list_all2_appendI)
  with Cons.IH[of "Suc n"] Cons.prems(2)
  have "wlp (push_params ps em') (\<lambda>x. well_typed F (replicate (Suc n + length ps) KInt))
      (s\<lparr>gs_stack := gs_stack s @ [item]\<rparr>)" if "si_value item = v" for item em'
    using that by (simp add: p)
  moreover have "wp (greturn x) Q E = Q x" for x :: "bool list \<times> expand_map" and Q E by (rule ext) simp
  ultimately show ?case by (simp add: p case_prod_unfold)
qed simp

definition expands_typed :: "module_facts \<Rightarrow> (expand_map \<Rightarrow> expr \<Rightarrow> val gen) \<Rightarrow> bool" where
  "expands_typed F expand \<longleftrightarrow>
     (\<forall>em body k. kind_of F [] body = Some KInt \<longrightarrow> gives F (replicate k KInt) I64 (expand em body))"

lemma types_template:
  assumes "expands_typed F expand" "kind_of F [] body = Some KInt" "ints vals"
  shows "gives F (replicate n KInt) I64 (expand_template env expand params body vals args)"
proof -
  let ?ps = "zip params (zip vals args)"
  let ?k = "n + length ?ps"
  have ps: "list_all (\<lambda>(p, v, a). ty_of v = I64) ?ps"
    using assms(3) by (auto simp: list_all_iff dest: set_zip_rightD set_zip_leftD)
  have b: "gives F (replicate ?k KInt) I64 (expand em body)" for em
    using assms(1,2) by (simp add: expands_typed_def)
  have finish: "wlp (gen_each (\<lambda>(item, owned). if owned then drop_item env item else greturn ())
       (zip (drop n (gs_stack s')) owned)) (\<lambda>_. well_typed F (replicate n KInt)) (s'\<lparr>gs_stack := take n (gs_stack s')\<rparr>)"
    if s': "well_typed F (replicate ?k KInt) s'" for s' owned
  proof -
    have "list_all2 item_ok (take n (replicate ?k KInt)) (take n (gs_stack s'))"
      using s' by (intro list_all2_takeI) (simp add: well_typed_def)
    then have "well_typed F (replicate n KInt) (s'\<lparr>gs_stack := take n (gs_stack s')\<rparr>)"
      using s' by (simp add: well_typed_def)
    moreover have "list_all (item_ok KInt) (gs_stack s')"
      using s' by (auto simp: well_typed_def list_all2_conv_all_nth list_all_length)
    then have "runs_typed F (replicate n KInt) (gen_each (\<lambda>(item, owned). if owned then drop_item env item else greturn ())
       (zip (drop n (gs_stack s')) owned))"
      by (intro types_each) (auto simp: list_all_iff item_ok_def dest!: set_zip_leftD in_set_dropD
        intro!: types_if types_unit types_drop_item)
    ultimately show ?thesis by (auto simp: types_def elim: wp_mono)
  qed
  show ?thesis
    unfolding types_def
  proof (intro allI impI)
    fix s assume s: "well_typed F (replicate n KInt) s"
    then have len: "length (gs_stack s) = n" by (auto dest: well_typed_length)
    show "wlp (expand_template env expand params body vals args)
      (\<lambda>x s'. ty_of x = I64 \<and> well_typed F (replicate n KInt) s') s"
      unfolding expand_template_def wp_gbind wp_gget len
    proof (rule wp_mono[OF types_push_params[OF s ps]])
      fix x :: "bool list \<times> expand_map" and s1 assume s1: "well_typed F (replicate ?k KInt) s1"
      obtain owned em where x: "x = (owned, em)" by (cases x)
      have "wlp (expand em body) (\<lambda>v s'. ty_of v = I64 \<and> well_typed F (replicate ?k KInt) s') s1"
        using b s1 by (simp add: types_def)
      then show "wlp (case x of (is_owned, em) \<Rightarrow> gbind (expand em body) (\<lambda>res.
          gbind (gget (\<lambda>s. drop n (gs_stack s))) (\<lambda>drained.
          gbind (gmodify (\<lambda>s. s\<lparr>gs_stack := take n (gs_stack s)\<rparr>)) (\<lambda>_.
          gbind (gen_each (\<lambda>(item, owned). if owned then drop_item env item else greturn ()) (zip drained is_owned)) (\<lambda>_.
          greturn res))))) (\<lambda>x s'. ty_of x = I64 \<and> well_typed F (replicate n KInt) s') s1"
        unfolding x prod.case wp_gbind wp_gget wp_gmodify wp_greturn
        by (rule wp_mono) (auto intro: wp_mono[OF finish])
    qed simp
  qed
qed

lemma types_call_function:
  assumes "full \<noteq> ''llm_alloc''" "ints vals"
  shows "gives F G I64 (call_function env name full args vals)"
proof -
  have dup: "gives F G I64 (dup_argument env u av)" if "ty_of (snd av) = I64" for u av
    using that unfolding dup_argument_def
    by (cases av) (simp, (rule types_bind typing types_return | (simp; fail))+)
  have dups: "types F G ints (gen_all (map (dup_argument env u) (zip args vals)))" for u
    using assms(2) by (intro types_operands) (auto simp: list_all_iff dest: set_zip_rightD intro!: dup)
  have drops: "runs_typed F G (gen_each (\<lambda>(arg, v). maybe_drop_val env arg v) (zip args vals))"
    using assms(2) by (intro types_each) (auto simp: list_all_iff dest: set_zip_rightD intro!: types_maybe_drop)
  have callee: "runs_typed F G (callee env name full)"
    unfolding callee_def by (rule types_bind typing types_expect[where P = "\<lambda>_. True"] types_return | (simp; fail))+
  show ?thesis
    unfolding call_function_def using assms(1)
    by - (rule types_bind[OF dups] types_bind[OF callee] types_bind typing types_return drops | assumption | (simp; fail))+
qed

lemma types_apply:
  assumes "expands_typed F expand" "callable func" "mf_templates F \<longrightarrow> only_ints G"
    and "length gs = length args" "list_all (task_ready F G (ge_threshold env)) (zip args gs)"
  shows "gives F G I64 (gen_apply env expand func args gs)"
proof (cases "is_named func")
  case True
  then obtain name where f: "func = Identifier name" by (auto simp: is_named_def split: expr.splits)
  let ?t = "\<lambda>template. \<forall>params body. template = Some (params, body) \<longrightarrow> mf_templates F \<and> kind_of F [] body = Some KInt"
  have full: "types F G (\<lambda>full. full \<noteq> ''llm_alloc'') (gget (\<lambda>s. resolve_func_name (ge_names env) (gs_cg s) name))"
    using assms(2) by (intro types_getI not_alloc) (simp add: f callable_def)
  have template: "types F G ?t (gget (\<lambda>s. map_of (cg_templates (gs_cg s)) full))" for full
    by (rule types_getI) (auto simp: well_typed_def tables_ok_def templates_ok_def dest!: map_of_SomeD)
  have tail: "gives F G I64 (case template of
        Some (params, body) \<Rightarrow> expand_template env expand params body vals args
      | None \<Rightarrow> call_function env name full args vals)"
    if "full \<noteq> ''llm_alloc''" "?t template" "ints vals" for full template vals
  proof (cases template)
    case None
    then show ?thesis using that by (simp add: types_call_function)
  next
    case (Some pb)
    obtain params body where "pb = (params, body)" by (cases pb)
    moreover have "only_ints G" "kind_of F [] body = Some KInt"
      using that(2) assms(3) calculation Some by auto
    ultimately show ?thesis
      using types_template[OF assms(1) _ that(3), of body "length G"] only_ints_replicate[of G] Some by simp
  qed
  show ?thesis
    unfolding gen_apply_def f expr.case
    by (rule types_bind[OF full], rule types_bind[OF template], rule types_bind2[OF types_args[OF assms(5)]],
        rule types_bind[OF types_join], (elim conjE; assumption)+, rule tail)
next
  case False
  then show ?thesis by (cases func) (simp_all add: gen_apply_def is_named_def types_panic)
qed

subsection \<open>Expressions\<close>

lemma types_gen_expr:
  assumes "expands_typed F expand" "mf_threshold F = ge_threshold env"
  shows "kind_of F G e = Some t \<Longrightarrow> gives F G (llvm_ty t) (gen_expr env expand em e)"
proof (induction e arbitrary: G t rule: measure_induct_rule[of size])
  case (less e)
  have sub: "gives F G' (llvm_ty a) (gen_expr env expand em c)"
    if "c \<in> set (children e)" "kind_of F G' c = Some a" for c G' a
    using less.IH[OF children_size[OF that(1)] that(2)] .
  have int: "gives F G' I64 (gen_expr env expand em c)"
    if "c \<in> set (children e)" "kind_of F G' c = Some KInt" for c G'
    using sub[OF that] by simp
  have deep: "gives F G' I64 (gen_expr env expand em c')"
    if "c \<in> set (children e)" "c' \<in> set (children c)" "kind_of F G' c' = Some KInt" for c c' G'
  proof -
    have "size c' < size e" using children_size[OF that(1)] children_size[OF that(2)] by simp
    then show ?thesis using less.IH[OF _ that(3)] by simp
  qed
  have task: "gives F (replicate k KInt) I64 (gen_expr env expand em c)"
    if "c \<in> set (children e)" "only_ints G'" "kind_of F G' c = Some KInt" for c G' k
    using int[OF that(1), of "replicate k KInt"] that kind_ints[of G'] kind_ints[of "replicate k KInt"] by simp
  show ?case
  proof (cases e)
    case (BinaryOp op l r)
    from less.prems obtain a b where k: "kind_of F G l = Some a" "kind_of F G r = Some b"
      "task_ok F G l a" "t = op_kind op a b"
      by (auto simp: BinaryOp kind_rules bind_eq_Some_conv)
    from k sub task assms(2) show ?thesis
      unfolding BinaryOp gen_expr.simps k(4)
      by (intro types_binary) (auto simp: BinaryOp children_def task_ok_def)
  next
    case (Apply func args)
    from less.prems have k: "callable func" "mf_templates F \<longrightarrow> only_ints G" "t = KInt"
      "\<forall>a \<in> set args. kind_of F G a = Some KInt \<and> task_ok F G a KInt"
      by (auto simp: Apply kind_rules list_all_iff)
    have "list_all (task_ready F G (ge_threshold env)) (zip args (map (gen_expr env expand em) args))"
      using k(4) int task assms(2)
      by (auto simp: list_all_length task_ready_def task_ok_def Apply children_def)
    with k(1-3) show ?thesis by (simp add: Apply types_apply[OF assms(1)])
  next
    case (Seq a b)
    from less.prems obtain s where k: "kind_of F G a = Some s" "kind_of F G b = Some t"
      by (auto simp: Seq kind_rules split: if_split_asm)
    note b = sub[of b G t, OF _ k(2)] and a = sub[of a G s, OF _ k(1)]
    show ?thesis
    proof (cases "\<exists>m u h. a = HttpClient m u h")
      case True
      then obtain m u h where h: "a = HttpClient m u h" by blast
      with k(1) have "\<forall>c \<in> {m, u, h}. kind_of F G c = Some KInt"
        by (auto simp: kind_rules)
      moreover have "gives F G I64 (gen_expr env expand em c)" if "c \<in> {m, u, h}" "kind_of F G c = Some KInt" for c
        using deep[of a c G] that by (simp add: Seq h children_def)
      ultimately show ?thesis
        using b by (simp add: Seq h children_def types_seq_http)
    next
      case False
      then have "gen_expr env expand em e = gen_seq env a (gen_expr env expand em a) (gen_expr env expand em b)"
        unfolding Seq by (cases a) simp_all
      then show ?thesis using types_seq[OF k(1) a b] by (simp add: Seq children_def)
    qed
  next
    case (Let name v body)
    with less.prems obtain a where k: "kind_of F G v = Some a" "kind_of F (G @ [a]) body = Some t"
      by (auto simp: kind_rules bind_eq_Some_conv)
    then show ?thesis using sub by (simp add: Let children_def types_let[OF k(1)])
  next
    case (If c a b)
    with less.prems obtain d where "kind_of F G c = Some d" "kind_of F G a = Some t" "kind_of F G b = Some t"
      by (auto simp: kind_rules split: if_split_asm)
    then show ?thesis using sub by (simp add: If children_def types_if_arm[where a = d])
  next
    case (Move a)
    with less.prems sub[of a G t] show ?thesis by (simp add: children_def types_gen_move)
  next
    case (Trap a b)
    with less.prems task show ?thesis by (auto simp: children_def kind_rules intro!: types_trap)
  next
    case (Get inst fld idx)
    with less.prems obtain a b where k: "kind_of F G inst = Some a" "kind_of F G idx = Some b" "t = field_kind fld"
      by (auto simp: kind_rules)
    then show ?thesis using sub by (simp add: Get children_def types_get_field[OF k(1), where b = b])
  next
    case (Set inst fld idx v)
    with less.prems obtain a b where k: "kind_of F G inst = Some a" "kind_of F G idx = Some b"
      "kind_of F G v = Some t" by (auto simp: kind_rules)
    then show ?thesis using sub by (simp add: Set children_def types_set_field[OF k(1), where b = b])
  next
    case (Map inst fld func)
    with less.prems obtain a where k: "kind_of F G inst = Some a" "callable func" "t = KInt" by (auto simp: kind_rules)
    then show ?thesis using sub by (simp add: Map children_def types_map[OF k(1)])
  next
    case (Filter inst func)
    with less.prems obtain a where k: "kind_of F G inst = Some a" "callable func" "t = KInt"
      "is_named func \<longrightarrow> \<not> mf_columns F" by (auto simp: kind_rules)
    then show ?thesis using sub by (simp add: Filter children_def types_filter[OF k(1)])
  next
    case (MoneyOp op l r)
    with less.prems obtain a b where "kind_of F G l = Some a" "kind_of F G r = Some b" "t = KInt" by (auto simp: kind_rules)
    then show ?thesis using sub by (simp add: MoneyOp children_def types_money[where a = a and b = b])
  next
    case (TimeOp op l r)
    with less.prems obtain a b where "kind_of F G l = Some a" "kind_of F G r = Some b" "t = KInt" by (auto simp: kind_rules)
    then show ?thesis using sub by (simp add: TimeOp children_def types_time[where a = a and b = b])
  next
    case (Metadata tag v a)
    with less.prems sub[of a G t] show ?thesis by (simp add: children_def)
  next
    case (Borrow a)
    with less.prems sub[of a G t] show ?thesis by (simp add: children_def)
  next
    case (MutBorrow a)
    with less.prems sub[of a G t] show ?thesis by (simp add: children_def)
  qed (use less.prems int in \<open>auto simp: kind_rules children_def runtime_arms types_return types_identifier
      types_debruijn types_expand types_string types_texts types_otel types_runtime_op\<close>)
qed

section \<open>Functions and modules\<close>

lemma types_gen_nested:
  "mf_threshold F = ge_threshold env \<Longrightarrow> kind_of F G e = Some t \<Longrightarrow> gives F G (llvm_ty t) (gen_nested env n em e)"
proof (induction n arbitrary: G e t em)
  case 0
  then show ?case by (simp, intro types_gen_expr) (simp_all add: expands_typed_def types_def wp_def)
next
  case (Suc n)
  have "expands_typed F (gen_nested env n)"
    using Suc.IH[of "replicate _ KInt" _ KInt] Suc.prems(1) by (simp add: expands_typed_def kind_replicate)
  with Suc.prems show ?case by (simp add: types_gen_expr)
qed

lemma types_entry_stack [typing]: "types F G (list_all (item_ok KInt)) (entry_stack name f n)"
proof -
  have item: "types F G (item_ok KInt) (entry_item arity ps i)" for arity ps i
    unfolding entry_item_def
    by (rule types_bind[OF types_expect[where P = "\<lambda>v. ty_of v = I64"]])
       (auto split: if_split_asm intro!: types_return simp: item_ok_def)
  show ?thesis
    unfolding entry_stack_def by (rule types_bind[OF types_get])+ (rule types_all, use item in auto)
qed

lemma types_otel_span [typing]:
  "gives F G I64 (otel_enter env)" "ty_of t = I64 \<Longrightarrow> runs_typed F G (otel_exit env span t)"
  unfolding otel_enter_def otel_exit_def by (rule types_bind typing types_return | (simp; fail))+

lemma types_spanned: "types F G P g \<Longrightarrow> types F G P (gen_spanned env otel g)"
  unfolding gen_spanned_def
proof (rule types_option)
  fix span assume g: "types F G P g"
  have "types F G P (gbind (otel_exit env span start) (\<lambda>_. greturn res))" if "ty_of start = I64" "P res" for start res
    using that by (intro types_bind[OF types_otel_span(2)] types_return)
  then show "types F G P (gbind (otel_enter env) (\<lambda>start. gbind g (\<lambda>res.
      gbind (otel_exit env span start) (\<lambda>_. greturn res))))"
    by (intro types_bind[OF types_otel_span(1)] types_bind[OF g])
qed

lemma types_gen_body:
  assumes "mf_threshold F = ge_threshold env" "kind_of F [] body = Some KInt"
  shows "runs_typed F G (gen_body env fuel name final n body otel)"
proof -
  have body: "gives F (replicate k KInt) I64 (gen_nested env fuel Map.empty body)" for k
    using types_gen_nested[of F env "replicate k KInt" body KInt] assms by (simp add: kind_replicate)
  have epilogue: "runs_typed F G (gen_epilogue env final left v)" if "ty_of v = I64" "list_all (item_ok KInt) left" for left v
    using that unfolding gen_epilogue_def
    by - (rule types_bind[OF types_drop_items] types_bind typing | (simp; fail) | (auto simp: list_all_iff; fail))+
  have "types F G (\<lambda>(res, left). ty_of res = I64 \<and> list_all (item_ok KInt) left)
      (gen_frame env fuel name final n body otel)"
    unfolding gen_frame_def
    by (rule types_bind[OF types_append], rule types_bind[OF types_position(1)], rule types_bind[OF types_entry_stack])
       (rule types_spanned, rule types_task[OF body])
  then show ?thesis
    unfolding gen_body_def by (rule types_bind2) (simp add: epilogue)
qed

lemma set_alist_update: "set (AList.update k v al) \<subseteq> insert (k, v) (set al)"
  by (induction al) auto

lemma templates_ok_update:
  "templates_ok F ts \<Longrightarrow> mf_templates F \<Longrightarrow> kind_of F [] body = Some KInt \<Longrightarrow>
   templates_ok F (AList.update t (params, body) ts)"
  using set_alist_update[of t "(params, body)" ts] by (auto simp: templates_ok_def)

lemma shapes_ok_update:
  "shapes_ok F ss \<Longrightarrow> (''f64'' \<in> set flds \<longrightarrow> mf_columns F) \<Longrightarrow> shapes_ok F (AList.update name flds ss)"
  using set_alist_update[of name flds ss] by (auto simp: shapes_ok_def)

lemma wlp_declare:
  assumes "well_typed F [] s" "kind_of F [] body = Some KInt" "(\<exists>p \<in> set params. param_expand p) \<longrightarrow> mf_templates F"
  shows "wlp (gen_declare env name params body exported) (\<lambda>x. well_typed F []) s"
proof -
  have cg: "shapes_ok F (cg_shapes (gs_cg s))" "templates_ok F (cg_templates (gs_cg s))"
    using assms(1) by (simp_all add: well_typed_def tables_ok_def)
  have "tables_ok F cg" if "declare_function ln name params body exported (gs_cg s) = Inr cg" for ln cg
    using that assms(2,3) templates_ok_update[OF cg(2)] cg
    by (auto simp: declare_function_def Let_def tables_ok_def split: option.split_asm if_split_asm)
  then show ?thesis
    using assms(1) by (auto simp: gen_declare_def wp_def well_typed_def split: sum.split)
qed

lemma wlp_function:
  assumes "mf_threshold F = ge_threshold env" "well_typed F [] s" "kind_of F [] body = Some KInt"
    and "(\<exists>p \<in> set params. param_expand p) \<longrightarrow> mf_templates F"
  shows "wlp (gen_function env fuel name params body exported otel) (\<lambda>x. well_typed F []) s"
  unfolding gen_function_def wp_gbind
  using types_gen_body[OF assms(1,3)]
  by (rule_tac wp_mono[OF wlp_declare[OF assms(2-4)]]) (auto simp: types_def)

text \<open>What a module promises: every definition returns an integer.\<close>

definition has_float_column :: "expr \<Rightarrow> bool" where
  "has_float_column e = (case e of Shape name flds exported \<Rightarrow> ''f64'' \<in> set flds | _ \<Rightarrow> False)"

definition defines_template :: "expr \<Rightarrow> bool" where
  "defines_template e =
     (case unwrap_metadata e of Define name params body exported \<Rightarrow> \<exists>p \<in> set params. param_expand p | _ \<Rightarrow> False)"

definition facts_of :: "nat \<Rightarrow> expr list \<Rightarrow> module_facts" where
  "facts_of threshold es = \<lparr>mf_threshold = threshold, mf_columns = list_ex has_float_column es,
     mf_templates = list_ex defines_template es\<rparr>"

definition typed_definition :: "module_facts \<Rightarrow> expr \<Rightarrow> bool" where
  "typed_definition F e =
     (case unwrap_metadata e of Define name params body exported \<Rightarrow> kind_of F [] body = Some KInt | _ \<Rightarrow> True)"

lemma wlp_top:
  assumes "mf_threshold F = ge_threshold env" "well_typed F [] s" "typed_definition F e"
    and "has_float_column e \<longrightarrow> mf_columns F" "defines_template e \<longrightarrow> mf_templates F"
  shows "wlp (gen_top env fuel e) (\<lambda>x. well_typed F []) s"
proof -
  have def: "wlp (gen_function env fuel name params body exported otel) (\<lambda>x. well_typed F []) s"
    if "unwrap_metadata e = Define name params body exported" for name params body exported otel
    using assms that by (intro wlp_function) (auto simp: typed_definition_def defines_template_def)
  have cg: "shapes_ok F (cg_shapes (gs_cg s))" "templates_ok F (cg_templates (gs_cg s))"
    using assms(2) by (simp_all add: well_typed_def tables_ok_def)
  show ?thesis
    using assms(2,4) def shapes_ok_update[OF cg(1)] cg unfolding gen_top_def
    by (cases e) (auto simp: on_codegen_def well_typed_def gen_shape_def gen_import_def Let_def
        tables_ok_def has_float_column_def unwrap_metadata_def split: expr.split)
qed

lemma wlp_module:
  assumes "mf_threshold F = ge_threshold env" "list_all (typed_definition F) es"
    and "list_ex has_float_column es \<longrightarrow> mf_columns F" "list_ex defines_template es \<longrightarrow> mf_templates F"
  shows "well_typed F [] s \<Longrightarrow> wlp (gen_module env fuel es) (\<lambda>x. well_typed F []) s"
  using assms(2-) unfolding gen_module_def
proof (induction es arbitrary: s)
  case (Cons e es)
  have "wlp (gen_top env fuel e) (\<lambda>x. well_typed F []) s"
    using Cons.prems by (intro wlp_top[OF assms(1)]) auto
  then show ?case
    unfolding gen_each_simps wp_gbind by (rule wp_mono) (use Cons in auto)
qed (simp add: gen_each_simps)


text \<open>A program with a double: \<open>y\<close> is a number with a fraction, the result is an integer.\<close>

definition float_source :: string where
  "float_source = ''X : f x L y + 1.5 $ x ? = $ y 2.0 1 0''"

definition float_cli :: cli_env where
  "float_cli = demo_cli\<lparr>cl_parse := plain_env\<lparr>env_f64 := env_f64 plain_env\<lparr>f64_parse :=
     (\<lambda>s. if s = ''1.5'' then Some 0x3FF8000000000000 else if s = ''2.0'' then Some 0x4000000000000000 else None)\<rparr>\<rparr>\<rparr>"

definition float_program :: "expr list" where
  "float_program = [Define ''f'' [\<lparr>param_name = ''x'', param_expand = False\<rparr>]
     (Let ''y'' (BinaryOp TAdd (Float 4609434218613702656) (Borrow (DeBruijn 0)))
       (If (BinaryOp TEq (Borrow (DeBruijn 0)) (Float 4611686018427387904)) (Integer 1) (Integer 0))) True]"

lemma float_front_end:
  "front_end (cl_parse float_cli) (op_imports default_options) ''m'' float_source = Inr float_program"
  by code_simp

lemma float_typed:
  "list_all (typed_definition (facts_of (cf_parallel_threshold (op_config default_options)) float_program)) float_program"
  by code_simp

lemma float_compiles:
  "case compile float_cli 0 default_options ''m'' float_source of
     Inl f \<Rightarrow> False | Inr s \<Rightarrow> list_ex (\<lambda>b. bk_insts b \<noteq> []) (gs_blocks s)"
  by code_simp


end
