(* ===== verification/Spec2Isabelle.thy ===== *)
theory Spec2Isabelle
  imports Mcp_Server Driver Bounds Test_Protocol Dispatcher Mcp_Rpc Gen_Types
begin

text \<open>
  A verification development of the llmlang compiler, its test harness and its language server
  (\<open>src/src\<close>, the Rust code).

  \<^bold>\<open>The program.\<close>  \<open>llmlang\<close> compiles source text to LLVM.  \<open>main.rs\<close> reads the arguments and the
  source and runs the stages: the lexer and the recursive-descent parser, which resolves variables
  to de Bruijn indices and reads the signature files of imported modules; dead-code elimination;
  the verifier, which checks names, shapes and the ownership of variables; the inference of
  pointer types; and the code generator, which emits one LLVM function per definition, further
  ones for traps and for pure operands that are expensive enough to become parallel tasks, and the
  calls that drop what is owned.  It then writes an object and a signature file.  \<open>llmlang test\<close>
  compiles the functions with a test tag together with a generated dispatcher, runs one process per
  test and reads its verdict from its output.  The MCP server keeps an index of the
  definitions in a set of files, answers queries on it, and patches definitions by printing the
  changed module back to its file.  Every stage can fail: with a \<open>CompileError\<close>, an error string, or
  a panic; all of these are values here (\<open>fail\<close> in \<open>Prelude\<close>, \<open>tool_error\<close> in \<open>Mcp_Server\<close>).

  \<^bold>\<open>Theories and sources.\<close>

  \<^item> \<open>Prelude\<close>: machine integers as words, results as sums, the string functions of the Rust library
    that are used, decimal numbers.  A character is a code point below 256.
  \<^item> \<open>Syntax\<close>: \<open>Token\<close> (\<open>lexer/mod.rs\<close>), \<open>Param\<close> and \<open>Expr\<close> (\<open>ast/mod.rs\<close>), \<open>CompileError\<close> (\<open>error.rs\<close>).
  \<^item> \<open>Lexer\<close>: \<open>Lexer::next_token\<close> and its helpers; the state is the rest of the input and the line.
  \<^item> \<open>Parser\<close>, \<open>Router\<close>: \<open>parser/mod.rs\<close>; the \<open>Parser\<close> struct is the record \<open>parser\<close>, passed in and
    returned by the actions, one definition per arm of \<open>parse_expr\<close>.  The signature resolver is a
    parameter; \<open>fs_resolve\<close> is the one of the code over a file-system parameter.
  \<^item> \<open>Display\<close>: the printer of \<open>ast/display.rs\<close>.
  \<^item> \<open>Analysis\<close>, \<open>Prune\<close>: \<open>analysis/mod.rs\<close>, the functions on one expression and \<open>prune_dead_code\<close>.
  \<^item> \<open>Verify\<close>: \<open>analysis/verify.rs\<close>; \<open>VerificationContext\<close> is the record \<open>vctx\<close>.
  \<^item> \<open>Symbols\<close>, \<open>Pointer_Types\<close>: \<open>codegen/symbol.rs\<close> and \<open>codegen/shape.rs\<close>, with the tables of \<open>CodeGen\<close>
    (\<open>codegen/mod.rs\<close>) as the record \<open>codegen\<close>.
  \<^item> \<open>Builder\<close>, \<open>Codegen\<close>, \<open>OpenCL\<close>: \<open>codegen/mod.rs\<close>, \<open>codegen/expr.rs\<close>, \<open>codegen/parallel.rs\<close>.  The LLVM
    builder is modelled by what it records: blocks with numbered instructions, of which
    the values have types; inkwell's conversions panic where they do in the code.
  \<^item> \<open>Functions\<close>: \<open>CodeGen::gen_function\<close>.
  \<^item> \<open>Pipeline\<close>, \<open>Driver\<close>: the stages and the arguments of \<open>main.rs\<close>, \<open>Config\<close> of \<open>lib.rs\<close>.
  \<^item> \<open>Testing\<close>, \<open>Test_Command\<close>: \<open>testing/mod.rs\<close> and \<open>run_test_command\<close> of \<open>main.rs\<close>; \<open>Json\<close>: the JSON
    values they and the server build.
  \<^item> \<open>Codebase_Index\<close>, \<open>Mcp_Server\<close>, \<open>Mcp_Rpc\<close>: \<open>bin/mcp_server.rs\<close>, from the index over the tools to the
    methods and the filters on the standard streams.

  \<^bold>\<open>What the lemmas show.\<close>

  \<^item> Parsing (\<open>Parser_Total\<close>): it returns on every input, with well-formed syntax, restored
    scopes, and panics only on number literals.  The fuel of \<open>parse_expr\<close> is the number of characters
    that are left, which every recursive call decreases.  The locale \<open>descent\<close> is what an arm of the parser may
    assume of the recursive call, and is interpreted at every level of fuel.
  \<^item> Printing (\<open>Token_Stream\<close>, \<open>Printed\<close>, \<open>Reparse\<close>): printed expressions are read back as they were,
    first to the expected tokens, then, under the locale \<open>reparser\<close>, to the expression.
  \<^item> Elimination (\<open>Prune_Spec\<close>, \<open>Pipeline\<close>): the worklist computes the least closed set, its loop terminates,
    verification is kept, except for calls below a concatenation.
  \<^item> Ownership (\<open>Ownership\<close>, \<open>Bounds\<close>, \<open>Gen_Ownership\<close>): \<open>runs\<close> is a reference semantics of the uses of
    variables, independent of the verifier, with free branches and traps.  A verified body never uses a
    moved variable, the indices stay in bounds, and the generator goes through the states of the verifier.  The
    results are for plain bodies; those on the generator are for programs without templates and tasks.
  \<^item> Generated code (\<open>Gen_Logic\<close>, \<open>Gen_Blocks\<close>, \<open>Templates\<close>, \<open>Kinds\<close>, \<open>Gen_Types\<close>, \<open>Functions\<close>): a calculus of
    weakest preconditions, and the locales \<open>straight_line\<close>, \<open>arms\<close>, \<open>generator\<close>, \<open>control_steps\<close> and
    \<open>builder_steps\<close>, which lift a relation from the steps of the builder to the whole generator.  Their interpretations
    show that tables are kept, blocks are closed, and templates end.  Programs that obey a type
    discipline give well-typed instructions, and functions end with the right drops.
  \<^item> Linking (\<open>Symbols\<close>, \<open>Pointer_Types\<close>, \<open>Driver\<close>): signature files are read back, names agree across
    modules, the inference of pointer types settles before its cap of 100 rounds.
  \<^item> Tests (\<open>Test_Protocol\<close>, \<open>Dispatcher\<close>, \<open>Test_Command\<close>): the protocol is read back whatever a test prints, the
    generated source parses to the dispatcher, the report agrees with the results and the exit code.
  \<^item> Server (\<open>Codebase_Index\<close>, \<open>Mcp_Server\<close>, \<open>Mcp_Rpc\<close>): under the locale \<open>file_index\<close> the index is that of
    the last versions of the files; queries and patches are correct; the tools that are listed are those that
    can be called; \<open>initialize\<close> is answered once in every interleaving.

  \<^bold>\<open>Bounds and fuel.\<close>  The expansion of templates has no bound in the code and does not end for a
  template that calls itself (\<open>recursive_template_diverges\<close>); the model takes fuel for it.  Fuel as deep
  as the templates nest is enough (\<open>gen_terminates\<close>), and more fuel changes nothing (\<open>gen_nested_mono\<close>).
  Theorems on \<open>compile\<close> hold for every fuel.  The machine stack is taken to be large enough for the
  recursion of the compiler; \<open>has_sufficient_stack\<close> is a parameter of the generator.

  \<^bold>\<open>Not modelled.\<close>  The C runtime (not in Rust); LLVM, the emission of objects, the linker and the
  processes of tests, which are parameters, as are the file system, the resolution of paths, SHA-256, the
  conversion of floats, the text of JSON values and the SDK of the server; the texts of the help and the
  version; the linkage of functions; the removal of the harness's work directory; the
  iteration order of a \<open>HashMap\<close>, which is that of an association list here.
\<close>

text \<open>C1: the guarantee of the front end.  When parsing, dead-code elimination and verification
  succeed, the result is well formed, and every run of every definition in it with a plain body
  (no nested definition, only literal metadata) respects ownership.\<close>

theorem front_end_safe:
  assumes "front_end env import_paths path input = Inr es" "e \<in> set es"
    and "unwrap_metadata e = Define name params body exported" "plain body"
    and "runs (expand_params 0 params Map.empty) (entry_env params) body (entry_history params) h"
  shows "wf_ast e \<and> safe_trace h"
proof -
  from assms(1) obtain es0 where p: "parse_source env import_paths path input = Inr es0"
    and es: "es = prune_dead_code es0" and v: "verify_module es path = None"
    by (auto simp: front_end_def rbind_Inr_iff Let_def split: option.split_asm)
  have "list_all wf_ast es0"
    using parse_source_wf[OF p] .
  then have "wf_ast e" using assms(2) by (auto simp: es prune_dead_code_def list_all_iff)
  moreover have "safe_trace h" by (rule verified_body_safe[OF v assms(2-5)])
  ultimately show ?thesis by simp
qed

lemma front_end_demo:
  "front_end plain_env [] ''m'' ''X : f x > x''
     = Inr [Define ''f'' [\<lparr>param_name = ''x'', param_expand = False\<rparr>] (Move (DeBruijn 0)) True]"
  by code_simp

lemma front_end_safe_witness: "safe_trace [Bind 0, Take 0]"
proof -
  let ?p = "[\<lparr>param_name = ''x'', param_expand = False\<rparr>] :: param list"
  have "runs Map.empty [0] (Move (DeBruijn 0)) [Bind 0] [Bind 0, Take 0]"
    using runs_runs_all.move[of Map.empty "[0]" 0 "[Bind 0]"] by (simp add: var_event_def slot_def)
  then have r: "runs (expand_params 0 ?p Map.empty) (entry_env ?p) (Move (DeBruijn 0))
      (entry_history ?p) [Bind 0, Take 0]"
    by (simp add: entry_env_def entry_history_def)
  show ?thesis
    using front_end_safe[OF front_end_demo _ _ _ r, of "Define ''f'' ?p (Move (DeBruijn 0)) True" "''f''" True]
    by (simp add: unwrap_metadata_def plain_eqs)
qed

end
